(* ===== verification/Neosh_Prelude.thy ===== *)
theory Neosh_Prelude
  imports Main "HOL-Library.Word" "HOL-Library.Sublist"
begin

text \<open>
  Shared vocabulary of the development: the machine integers and byte strings of the Rust
  sources, wall-clock time as \<open>std::time\<close> computes with it, results as sums, the run of a
  fallible step function over a list of inputs with the locale that lifts a one-step invariant
  to a run, and the list lemmas several components use.
\<close>

unbundle bit_operations_syntax

section \<open>Types\<close>

type_synonym u8 = "8 word"
type_synonym u16 = "16 word"
type_synonym u32 = "32 word"
type_synonym u64 = "64 word"
type_synonym bytes = "u8 list"

text \<open>A \<open>uuid::Uuid\<close> is a 128-bit value that the program only compares, stores and prints.\<close>

type_synonym uuid = "128 word"

text \<open>
  \<open>SystemTime\<close> is a signed number of nanoseconds since the Unix epoch whose seconds fit an
  \<open>i64\<close>; \<open>Duration\<close> is a number of nanoseconds whose seconds fit a \<open>u64\<close>.
\<close>

type_synonym system_time = int
type_synonym duration = nat

section \<open>Collections of facts\<close>

named_theorems neosh_frame \<open>fields an operation leaves alone\<close>
named_theorems neosh_inv \<open>invariant preservation of one operation\<close>

section \<open>Time\<close>

definition nanos_per_sec :: nat where
  "nanos_per_sec = 1000000000"

definition duration_from_secs :: "u64 \<Rightarrow> duration" where
  "duration_from_secs s = unat s * nanos_per_sec"

definition duration_as_secs :: "duration \<Rightarrow> u64" where
  "duration_as_secs d = of_nat (d div nanos_per_sec)"

text \<open>
  \<open>now + ttl\<close> on \<open>SystemTime\<close>: \<open>None\<close> is the panic of the overflowing addition, which happens
  when the seconds of the sum no longer fit an \<open>i64\<close>.
\<close>

definition system_time_add :: "system_time \<Rightarrow> duration \<Rightarrow> system_time option" where
  "system_time_add t d =
     (if t + int d < 2 ^ 63 * int nanos_per_sec then Some (t + int d) else None)"

text \<open>\<open>now.duration_since(earlier)\<close>: \<open>None\<close> is the \<open>Err\<close> of an earlier time in the future.\<close>

definition duration_since :: "system_time \<Rightarrow> system_time \<Rightarrow> duration option" where
  "duration_since now earlier = (if earlier \<le> now then Some (nat (now - earlier)) else None)"

lemma duration_as_from_secs [simp]: "duration_as_secs (duration_from_secs s) = s"
  by (simp add: duration_as_secs_def duration_from_secs_def nanos_per_sec_def)

lemma duration_from_secs_0 [simp]: "duration_from_secs s = 0 \<longleftrightarrow> s = 0"
  by (simp add: duration_from_secs_def nanos_per_sec_def unat_eq_zero)

lemma system_time_add_SomeD:
  "system_time_add t d = Some t' \<Longrightarrow> t' = t + int d"
  by (auto simp: system_time_add_def split: if_splits)

lemma duration_since_eq_Some:
  "duration_since now t = Some d \<longleftrightarrow> t \<le> now \<and> d = nat (now - t)"
  by (auto simp: duration_since_def)

section \<open>Saturating counters\<close>

text \<open>Rust's \<open>u64::saturating_add\<close>.\<close>

definition saturating_add :: "u64 \<Rightarrow> u64 \<Rightarrow> u64" where
  "saturating_add a b = (if unat a + unat b < 2 ^ 64 then a + b else - 1)"

lemma unat_saturating_add: "unat (saturating_add a b) = min (unat a + unat b) (2 ^ 64 - 1)"
proof (cases "unat a + unat b < 2 ^ 64")
  case True
  then show ?thesis by (simp add: saturating_add_def unat_word_ariths)
next
  case False
  then show ?thesis by (simp add: saturating_add_def unsigned_minus_1_eq_mask mask_eq_exp_minus_1)
qed

lemma saturating_add_le: "a \<le> saturating_add a b"
proof -
  have "unat a < 2 ^ 64" using unsigned_less [of a] by simp
  then show ?thesis by (simp add: word_le_nat_alt unat_saturating_add)
qed

lemma saturating_add_one_less: "a \<noteq> - 1 \<Longrightarrow> a < saturating_add a 1"
proof -
  assume "a \<noteq> - 1"
  moreover have "unat (- 1 :: u64) = 2 ^ 64 - 1"
    by (simp add: unsigned_minus_1_eq_mask mask_eq_exp_minus_1)
  ultimately have "unat a \<noteq> 2 ^ 64 - 1"
    by (metis word_unat_eq_iff)
  moreover have "unat a < 2 ^ 64" using unsigned_less [of a] by simp
  ultimately show ?thesis by (simp add: word_less_nat_alt unat_saturating_add)
qed

section \<open>Runs of a fallible step\<close>

text \<open>
  Most components are driven by a sequence of inputs and stop at the first error: the state is
  threaded through a step with a sum result.
\<close>

fun run_events :: "('s \<Rightarrow> 'e \<Rightarrow> 'err + 's) \<Rightarrow> 's \<Rightarrow> 'e list \<Rightarrow> 'err + 's" where
  "run_events step s [] = Inr s"
| "run_events step s (e # es) =
     (case step s e of Inl x \<Rightarrow> Inl x | Inr s' \<Rightarrow> run_events step s' es)"

lemma run_events_append:
  "run_events step s (xs @ ys) =
     (case run_events step s xs of Inl x \<Rightarrow> Inl x | Inr s' \<Rightarrow> run_events step s' ys)"
  by (induction xs arbitrary: s) (auto split: sum.splits)

locale guarded_machine =
  fixes step :: "'s \<Rightarrow> 'e \<Rightarrow> 'err + 's"
    and invar :: "'s \<Rightarrow> bool"
  assumes step_invar: "invar s \<Longrightarrow> step s e = Inr s' \<Longrightarrow> invar s'"
begin

lemma run_invar: "invar s \<Longrightarrow> run_events step s es = Inr s' \<Longrightarrow> invar s'"
  by (induction es arbitrary: s) (auto split: sum.splits dest: step_invar)

end

text \<open>A ranked machine moves up a rank with every step that is not a self-loop.\<close>

locale ranked_machine = guarded_machine step invar
  for step :: "'s \<Rightarrow> 'e \<Rightarrow> 'err + 's" and invar :: "'s \<Rightarrow> bool" +
  fixes rank :: "'s \<Rightarrow> nat"
  assumes step_rank: "invar s \<Longrightarrow> step s e = Inr s' \<Longrightarrow> s' = s \<or> rank s < rank s'"
begin

lemma run_rank: "invar s \<Longrightarrow> run_events step s es = Inr s' \<Longrightarrow> s' = s \<or> rank s < rank s'"
proof (induction es arbitrary: s)
  case Nil
  then show ?case by simp
next
  case (Cons e es)
  then obtain t where t: "step s e = Inr t" and r: "run_events step t es = Inr s'"
    by (auto split: sum.splits)
  from t Cons.prems(1) have "invar t" by (blast intro: step_invar)
  with r Cons.IH have "s' = t \<or> rank t < rank s'" by blast
  with step_rank [OF Cons.prems(1) t] show ?case by auto
qed

end

section \<open>Lists\<close>

lemma find_eq_None_iff: "List.find P xs = None \<longleftrightarrow> (\<forall>x\<in>set xs. \<not> P x)"
  by (auto simp: find_None_iff)

lemma find_SomeD: "List.find P xs = Some x \<Longrightarrow> P x \<and> x \<in> set xs"
  by (induction xs) (auto split: if_splits)

lemma map_of_map_keyed [simp]:
  "map_of (map (\<lambda>x. (k x, x)) xs) (k' :: 'k) = List.find (\<lambda>x. k x = k') xs"
  by (induction xs) auto

text \<open>Keep the last \<open>n\<close> elements of a list.\<close>

definition take_last :: "nat \<Rightarrow> 'a list \<Rightarrow> 'a list" where
  "take_last n xs = drop (length xs - n) xs"

lemma length_take_last [simp]: "length (take_last n xs) = min n (length xs)"
  by (simp add: take_last_def)

lemma take_last_all [simp]: "length xs \<le> n \<Longrightarrow> take_last n xs = xs"
  by (simp add: take_last_def)

lemma take_last_suffix: "suffix (take_last n xs) xs"
  by (simp add: take_last_def suffix_drop)

lemma take_last_append_take_last: "take_last n (take_last n xs @ ys) = take_last n (xs @ ys)"
proof (cases "length xs \<le> n")
  case True
  then show ?thesis by simp
next
  case False
  then have "length (take_last n xs) = n" by simp
  moreover have "n + length ys - n = length ys" by simp
  ultimately show ?thesis using False
    by (simp add: take_last_def drop_append) (cases "length ys \<le> n"; simp add: add.commute)
qed

end
