(* ===== verification/Rust_Text.thy ===== *)
theory Rust_Text
  imports Neosh_Prelude
begin

text \<open>
  The functions of Rust's standard library on \<open>str\<close> that the program uses, on strings as lists
  of UTF-8 bytes (one \<open>char\<close> per byte, so \<open>length\<close> is \<open>str::len\<close>). Each is followed by the
  lemmas the components need: splitting undoes joining, and parsing undoes printing.
\<close>

section \<open>Trimming\<close>

text \<open>
  \<open>str::trim\<close> removes the code points of Unicode property White_Space at both ends. They are
  listed here as their UTF-8 byte sequences; no sequence is a proper prefix or suffix of
  another, and UTF-8 is self-synchronising, so stripping sequences strips characters.
\<close>

definition bytes_string :: "nat list \<Rightarrow> string" where
  "bytes_string ns = map char_of ns"

definition white_space :: "string list" where
  "white_space = map bytes_string
     [[9], [10], [11], [12], [13], [32], [194, 133], [194, 160], [225, 154, 128],
      [226, 128, 128], [226, 128, 129], [226, 128, 130], [226, 128, 131], [226, 128, 132],
      [226, 128, 133], [226, 128, 134], [226, 128, 135], [226, 128, 136], [226, 128, 137],
      [226, 128, 138], [226, 128, 168], [226, 128, 169], [226, 128, 175], [226, 129, 159],
      [227, 128, 128]]"

fun strip_seqs :: "nat \<Rightarrow> string list \<Rightarrow> string \<Rightarrow> string" where
  "strip_seqs 0 ws s = s"
| "strip_seqs (Suc n) ws s =
     (case List.find (\<lambda>w. prefix w s) ws of
        None \<Rightarrow> s
      | Some w \<Rightarrow> strip_seqs n ws (drop (length w) s))"

text \<open>Every sequence is non-empty, so \<open>length s\<close> rounds strip all there is to strip.\<close>

definition trim_start :: "string \<Rightarrow> string" where
  "trim_start s = strip_seqs (length s) white_space s"

definition trim_end :: "string \<Rightarrow> string" where
  "trim_end s = rev (strip_seqs (length s) (map rev white_space) (rev s))"

definition trim :: "string \<Rightarrow> string" where
  "trim s = trim_end (trim_start s)"

lemma trim_Nil [simp]: "trim [] = []"
  by (simp add: trim_def trim_start_def trim_end_def)

lemma strip_seqs_done:
  assumes "[] \<notin> set ws" and "length s \<le> n"
  shows "List.find (\<lambda>w. prefix w (strip_seqs n ws s)) ws = None"
  using assms(2)
proof (induction n arbitrary: s)
  case 0
  then show ?case using assms(1) by (auto simp: find_None_iff)
next
  case (Suc n)
  show ?case
  proof (cases "List.find (\<lambda>w. prefix w s) ws")
    case None
    then show ?thesis by simp
  next
    case (Some w)
    then have "prefix w s" "w \<noteq> []"
      using assms(1) by (auto dest!: find_SomeD)
    then have "length (drop (length w) s) \<le> n"
      using Suc.prems by (cases w) (auto dest: prefix_length_le)
    with Some Suc.IH show ?thesis by simp
  qed
qed

section \<open>Splitting and replacing\<close>

text \<open>\<open>s.split(c)\<close>: the pieces between the occurrences of a character, one more than these.\<close>

fun split_on :: "char \<Rightarrow> string \<Rightarrow> string list" where
  "split_on c [] = [[]]"
| "split_on c (x # xs) =
     (if x = c then [] # split_on c xs
      else (case split_on c xs of [] \<Rightarrow> [[x]] | p # ps \<Rightarrow> (x # p) # ps))"

lemma split_on_not_Nil [simp]: "split_on c s \<noteq> []"
  by (induction s) (auto split: list.splits)

lemma length_split_on: "length (split_on c s) = Suc (count_list s c)"
  by (induction s) (auto split: list.splits)

lemma split_on_free: "c \<notin> set s \<Longrightarrow> split_on c s = [s]"
  by (induction s) auto

lemma split_on_append: "c \<notin> set a \<Longrightarrow> split_on c (a @ c # b) = a # split_on c b"
  by (induction a) auto

text \<open>\<open>s.split_once(pat)\<close>: the text before and after the first occurrence of a string.\<close>

fun split_once :: "string \<Rightarrow> string \<Rightarrow> (string \<times> string) option" where
  "split_once p [] = (if p = [] then Some ([], []) else None)"
| "split_once p (x # xs) =
     (if prefix p (x # xs) then Some ([], drop (length p) (x # xs))
      else map_option (\<lambda>(a, b). (x # a, b)) (split_once p xs))"

lemma split_once_SomeD: "split_once p s = Some (a, b) \<Longrightarrow> s = a @ p @ b"
  by (induction p s arbitrary: a b rule: split_once.induct)
    (auto simp: prefix_def split: if_splits)

text \<open>\<open>s.rsplit_once(c)\<close>: the text before and after the last occurrence of a character.\<close>

definition rsplit_once :: "char \<Rightarrow> string \<Rightarrow> (string \<times> string) option" where
  "rsplit_once c s =
     (if c \<in> set s
      then Some (rev (tl (dropWhile (\<lambda>x. x \<noteq> c) (rev s))), rev (takeWhile (\<lambda>x. x \<noteq> c) (rev s)))
      else None)"

lemma rsplit_once_append: "c \<notin> set b \<Longrightarrow> rsplit_once c (a @ c # b) = Some (a, b)"
proof -
  assume c: "c \<notin> set b"
  have "takeWhile (\<lambda>x. x \<noteq> c) (rev b @ c # rev a) = rev b"
    using c by (subst takeWhile_append2) auto
  moreover have "dropWhile (\<lambda>x. x \<noteq> c) (rev b @ c # rev a) = c # rev a"
    using c by (subst dropWhile_append2) auto
  ultimately show ?thesis by (simp add: rsplit_once_def)
qed

lemma rsplit_once_SomeD:
  assumes "rsplit_once c s = Some (a, b)"
  shows "s = a @ c # b \<and> c \<notin> set b"
proof -
  from assms have "c \<in> set s" by (simp add: rsplit_once_def split: if_splits)
  then obtain a' b' where s: "s = a' @ c # b'" and "c \<notin> set b'"
    by (metis split_list_last)
  with assms rsplit_once_append [of c b' a'] show ?thesis by auto
qed

text \<open>\<open>s.strip_prefix(c)\<close> for a character.\<close>

fun strip_prefix_char :: "char \<Rightarrow> string \<Rightarrow> string option" where
  "strip_prefix_char c [] = None"
| "strip_prefix_char c (x # xs) = (if x = c then Some xs else None)"

text \<open>\<open>s.replace(c, t)\<close> for a character.\<close>

definition replace_char :: "char \<Rightarrow> string \<Rightarrow> string \<Rightarrow> string" where
  "replace_char c t s = concat (map (\<lambda>x. if x = c then t else [x]) s)"

lemma replace_char_simps [simp]:
  "replace_char c t [] = []"
  "replace_char c t (x # xs) = (if x = c then t else [x]) @ replace_char c t xs"
  by (simp_all add: replace_char_def)

lemma replace_char_append [simp]:
  "replace_char c t (a @ b) = replace_char c t a @ replace_char c t b"
  by (simp add: replace_char_def)

lemma replace_char_free: "c \<notin> set s \<Longrightarrow> replace_char c t s = s"
  by (induction s) auto

section \<open>Numbers\<close>

definition digit_char :: "nat \<Rightarrow> char" where
  "digit_char d = char_of (48 + d)"

definition digit_value :: "char \<Rightarrow> nat option" where
  "digit_value c = (if 48 \<le> (of_char c :: nat) \<and> (of_char c :: nat) \<le> 57
     then Some (of_char c - 48) else None)"

lemma digit_value_digit_char [simp]: "d < 10 \<Longrightarrow> digit_value (digit_char d) = Some d"
  by (simp add: digit_value_def digit_char_def)

text \<open>\<open>Display\<close> of an unsigned integer.\<close>

fun show_nat :: "nat \<Rightarrow> string" where
  "show_nat n = (if n < 10 then [digit_char n] else show_nat (n div 10) @ [digit_char (n mod 10)])"

declare show_nat.simps [simp del]

text \<open>
  \<open>str::parse\<close> to an unsigned integer below \<open>m\<close>: an optional leading plus, then at least one
  digit and only digits, and no intermediate value may reach \<open>m\<close>.
\<close>

fun parse_digits :: "nat \<Rightarrow> nat \<Rightarrow> string \<Rightarrow> nat option" where
  "parse_digits m acc [] = Some acc"
| "parse_digits m acc (c # cs) =
     (case digit_value c of
        None \<Rightarrow> None
      | Some d \<Rightarrow> if acc * 10 + d < m then parse_digits m (acc * 10 + d) cs else None)"

definition parse_uint :: "nat \<Rightarrow> string \<Rightarrow> nat option" where
  "parse_uint m s =
     (let ds = (case strip_prefix_char (CHR ''+'') s of None \<Rightarrow> s | Some r \<Rightarrow> r)
      in if ds = [] then None else parse_digits m 0 ds)"

definition parse_u16 :: "string \<Rightarrow> u16 option" where
  "parse_u16 s = map_option of_nat (parse_uint (2 ^ 16) s)"

lemma parse_digits_append:
  "parse_digits m acc (a @ b) = Option.bind (parse_digits m acc a) (\<lambda>v. parse_digits m v b)"
  by (induction a arbitrary: acc) (auto split: option.splits)

lemma parse_digits_less: "parse_digits m acc s = Some v \<Longrightarrow> acc < m \<Longrightarrow> v < m"
  by (induction s arbitrary: acc) (auto split: option.splits if_splits)

lemma show_nat_not_Nil [simp]: "show_nat n \<noteq> []"
  by (subst show_nat.simps) simp

lemma digit_char_neq [simp]: "d < 10 \<Longrightarrow> digit_value c = None \<Longrightarrow> digit_char d \<noteq> c"
  by (metis digit_value_digit_char option.distinct(1))

lemma set_show_nat: "c \<in> set (show_nat n) \<Longrightarrow> digit_value c \<noteq> None"
proof (induction n rule: show_nat.induct)
  case (1 n)
  show ?case
  proof (cases "n < 10")
    case True
    with "1.prems" show ?thesis by (simp add: show_nat.simps [of n])
  next
    case False
    with "1" show ?thesis by (auto simp: show_nat.simps [of n])
  qed
qed

lemma colon_show_nat [simp]: "CHR '':'' \<notin> set (show_nat n)"
proof
  assume "CHR '':'' \<in> set (show_nat n)"
  then have "digit_value (CHR '':'') \<noteq> None" by (rule set_show_nat)
  then show False by (simp add: digit_value_def)
qed

lemma plus_show_nat: "strip_prefix_char (CHR ''+'') (show_nat n) = None"
proof (cases "show_nat n")
  case (Cons x xs)
  then have "digit_value x \<noteq> None" using set_show_nat [of x n] by simp
  then have "x \<noteq> CHR ''+''" by (auto simp: digit_value_def)
  with Cons show ?thesis by simp
qed simp

lemma parse_digits_show_nat: "n < m \<Longrightarrow> parse_digits m 0 (show_nat n) = Some n"
proof (induction n rule: show_nat.induct)
  case (1 n)
  show ?case
  proof (cases "n < 10")
    case True
    with "1.prems" show ?thesis by (simp add: show_nat.simps [of n])
  next
    case False
    with "1.prems" have "parse_digits m 0 (show_nat (n div 10)) = Some (n div 10)"
      by (intro "1.IH") auto
    with False "1.prems" show ?thesis
      by (simp add: show_nat.simps [of n] parse_digits_append)
  qed
qed

lemma parse_uint_show_nat: "n < m \<Longrightarrow> parse_uint m (show_nat n) = Some n"
  by (simp add: parse_uint_def plus_show_nat parse_digits_show_nat)

lemma parse_u16_show_nat: "parse_u16 (show_nat (unat p)) = Some p"
proof -
  have "unat p < 2 ^ 16" using unsigned_less [of p] by simp
  then show ?thesis by (simp add: parse_u16_def parse_uint_show_nat)
qed

lemma parse_uint_less: "parse_uint m s = Some v \<Longrightarrow> 0 < m \<Longrightarrow> v < m"
  by (auto simp: parse_uint_def Let_def split: if_splits option.splits dest: parse_digits_less)

lemma show_nat_inj: "show_nat a = show_nat b \<longleftrightarrow> a = b"
proof
  assume eq: "show_nat a = show_nat b"
  have "a < Suc (a + b)" and "b < Suc (a + b)" by simp_all
  then have "parse_uint (Suc (a + b)) (show_nat a) = Some a"
    and "parse_uint (Suc (a + b)) (show_nat b) = Some b"
    by (metis parse_uint_show_nat)+
  with eq show "a = b" by (metis option.inject)
qed simp

section \<open>White space and paths\<close>

text \<open>\<open>s.split_whitespace()\<close>: the non-empty pieces between runs of white space.\<close>

fun split_ws_loop :: "nat \<Rightarrow> string \<Rightarrow> string \<Rightarrow> string list" where
  "split_ws_loop 0 acc s = (if acc = [] then [] else [rev acc])"
| "split_ws_loop (Suc n) acc [] = (if acc = [] then [] else [rev acc])"
| "split_ws_loop (Suc n) acc (x # xs) =
     (case List.find (\<lambda>w. prefix w (x # xs)) white_space of
        None \<Rightarrow> split_ws_loop n (x # acc) xs
      | Some w \<Rightarrow>
          (if acc = [] then [] else [rev acc]) @ split_ws_loop n [] (drop (length w) (x # xs)))"

definition split_whitespace :: "string \<Rightarrow> string list" where
  "split_whitespace s = split_ws_loop (Suc (length s)) [] s"

text \<open>
  \<open>Path::join\<close> on Unix: an absolute path replaces, otherwise a separator is put in between unless
  there is one or the first path is empty.
\<close>

definition path_join :: "string \<Rightarrow> string \<Rightarrow> string" where
  "path_join base p =
     (if p \<noteq> [] \<and> hd p = CHR ''/'' then p
      else if base = [] \<or> last base = CHR ''/'' then base @ p
      else base @ ''/'' @ p)"

lemma path_join_inj:
  assumes "\<not> (a \<noteq> [] \<and> hd a = CHR ''/'')" and "\<not> (b \<noteq> [] \<and> hd b = CHR ''/'')"
  shows "path_join base a = path_join base b \<longleftrightarrow> a = b"
  unfolding path_join_def if_not_P [OF assms(1)] if_not_P [OF assms(2)] by simp

end
