(* ===== verification/Framing.thy ===== *)
theory Framing
  imports Neosh_Prelude
begin

text \<open>
  Control-stream framing (\<open>src/src/protocol/framing.rs\<close>): a payload is sent behind its length as
  four big-endian bytes. The theory holds the codec on whole buffers, the interface
  \<open>frame_reader\<close> of a function that takes one frame off a byte stream, and what follows from it
  for a stream of frames. The three stream readers of the program (server, client, C library)
  provide the interface in the theories of their components.

  Lengths are \<open>usize\<close> values of a 64-bit target, modelled as \<open>nat\<close>: no list here reaches
  \<open>2 ^ 64\<close> elements, and \<open>4 + payload_len\<close> with a payload length below \<open>2 ^ 32\<close> cannot overflow.
\<close>

section \<open>Big-endian words\<close>

text \<open>\<open>u32::to_be_bytes\<close> and \<open>u32::from_be_bytes\<close>.\<close>

definition to_be_bytes :: "u32 \<Rightarrow> bytes" where
  "to_be_bytes n =
     [ucast (drop_bit 24 n), ucast (drop_bit 16 n), ucast (drop_bit 8 n), ucast n]"

definition from_be_bytes :: "u8 \<Rightarrow> u8 \<Rightarrow> u8 \<Rightarrow> u8 \<Rightarrow> u32" where
  "from_be_bytes b0 b1 b2 b3 =
     push_bit 24 (ucast b0) OR push_bit 16 (ucast b1) OR push_bit 8 (ucast b2) OR ucast b3"

lemma length_to_be_bytes [simp]: "length (to_be_bytes n) = 4"
  by (simp add: to_be_bytes_def)

lemma from_to_be_bytes:
  "from_be_bytes (ucast (drop_bit 24 n)) (ucast (drop_bit 16 n)) (ucast (drop_bit 8 n)) (ucast n) = n"
proof (rule bit_word_eqI)
  fix i
  assume "i < LENGTH(32)"
  then consider "i < 8" | "8 \<le> i" "i < 16" | "16 \<le> i" "i < 24" | "24 \<le> i" "i < 32"
    by fastforce
  then show "bit (from_be_bytes (ucast (drop_bit 24 n)) (ucast (drop_bit 16 n))
      (ucast (drop_bit 8 n)) (ucast n)) i = bit n i"
    by cases (simp_all add: from_be_bytes_def bit_simps, arith+)
qed

lemma to_from_be_bytes: "to_be_bytes (from_be_bytes b0 b1 b2 b3) = [b0, b1, b2, b3]"
proof -
  have "ucast (drop_bit 24 (from_be_bytes b0 b1 b2 b3)) = b0"
    by (rule bit_word_eqI) (auto simp: from_be_bytes_def bit_simps dest: bit_imp_le_length)
  moreover have "ucast (drop_bit 16 (from_be_bytes b0 b1 b2 b3)) = b1"
    by (rule bit_word_eqI) (auto simp: from_be_bytes_def bit_simps dest: bit_imp_le_length)
  moreover have "ucast (drop_bit 8 (from_be_bytes b0 b1 b2 b3)) = b2"
    by (rule bit_word_eqI) (auto simp: from_be_bytes_def bit_simps dest: bit_imp_le_length)
  moreover have "ucast (from_be_bytes b0 b1 b2 b3) = b3"
    by (rule bit_word_eqI) (auto simp: from_be_bytes_def bit_simps dest: bit_imp_le_length)
  ultimately show ?thesis by (simp add: to_be_bytes_def)
qed

section \<open>Frames as whole buffers\<close>

datatype framing_error = TooShort | LengthMismatch | TooLarge

text \<open>The length is cast \<open>as u32\<close>, so a payload of \<open>2 ^ 32\<close> bytes or more gets a wrapped header.\<close>

definition encode_frame :: "bytes \<Rightarrow> bytes" where
  "encode_frame payload = to_be_bytes (of_nat (length payload)) @ payload"

definition decode_frame :: "bytes \<Rightarrow> nat \<Rightarrow> framing_error + bytes" where
  "decode_frame buf max_payload_len =
     (if length buf < 4 then Inl TooShort
      else
        let payload_len = unat (from_be_bytes (buf ! 0) (buf ! 1) (buf ! 2) (buf ! 3))
        in if payload_len > max_payload_len then Inl TooLarge
           else
             let expected = 4 + payload_len
             in if length buf \<noteq> expected then Inl LengthMismatch
                else Inr (drop 4 buf))"

text \<open>The header of a buffer, read as a length.\<close>

definition header_len :: "bytes \<Rightarrow> nat" where
  "header_len buf = unat (from_be_bytes (buf ! 0) (buf ! 1) (buf ! 2) (buf ! 3))"

lemma header_len_append [simp]: "header_len (to_be_bytes n @ xs) = unat n"
  by (simp add: header_len_def to_be_bytes_def from_to_be_bytes)

lemma header_len_take [simp]: "4 \<le> k \<Longrightarrow> header_len (take k buf) = header_len buf"
  by (simp add: header_len_def)

lemma header_len_less: "header_len buf < 2 ^ 32"
  using unsigned_less [of "from_be_bytes (buf ! 0) (buf ! 1) (buf ! 2) (buf ! 3)"]
  by (simp add: header_len_def)

lemma decode_frame_alt:
  "decode_frame buf m =
     (if length buf < 4 then Inl TooShort
      else if header_len buf > m then Inl TooLarge
      else if length buf \<noteq> 4 + header_len buf then Inl LengthMismatch
      else Inr (drop 4 buf))"
  by (simp add: decode_frame_def header_len_def Let_def)

lemma unat_of_nat_length: "n < 2 ^ 32 \<Longrightarrow> unat (of_nat n :: u32) = n"
  by (simp add: unat_of_nat take_bit_nat_eq_self)

lemma header_len_encode: "length p < 2 ^ 32 \<Longrightarrow> header_len (encode_frame p @ rest) = length p"
  by (simp add: encode_frame_def unat_of_nat_length)

lemma length_encode_frame [simp]: "length (encode_frame p) = 4 + length p"
  by (simp add: encode_frame_def)

lemma drop4_encode [simp]: "drop 4 (encode_frame p @ rest) = p @ rest"
  by (simp add: encode_frame_def)

lemma decode_encode:
  assumes "length p \<le> m" and "length p < 2 ^ 32"
  shows "decode_frame (encode_frame p) m = Inr p"
  using assms header_len_encode [of p "[]"] drop4_encode [of p "[]"]
  by (simp add: decode_frame_alt)

lemma split4: "4 \<le> length buf \<Longrightarrow> buf = [buf ! 0, buf ! 1, buf ! 2, buf ! 3] @ drop 4 buf"
  by (cases buf; cases "tl buf"; cases "tl (tl buf)"; cases "tl (tl (tl buf))") auto

lemma encode_decode:
  assumes "decode_frame buf m = Inr p"
  shows "buf = encode_frame p \<and> length p \<le> m \<and> length p < 2 ^ 32"
proof -
  let ?h = "from_be_bytes (buf ! 0) (buf ! 1) (buf ! 2) (buf ! 3)"
  from assms have len: "4 \<le> length buf" "length buf = 4 + header_len buf"
    and p: "p = drop 4 buf" and m: "header_len buf \<le> m"
    by (auto simp: decode_frame_alt split: if_splits)
  then have lp: "length p = unat ?h" by (simp add: header_len_def)
  then have "of_nat (length p) = ?h" by simp
  then have "encode_frame p = [buf ! 0, buf ! 1, buf ! 2, buf ! 3] @ drop 4 buf"
    by (simp add: encode_frame_def to_from_be_bytes p)
  with split4 [OF len(1)] have "buf = encode_frame p" by simp
  with lp m header_len_less [of buf] show ?thesis by (simp add: header_len_def)
qed

text \<open>
  The codec is exact in both directions: a buffer decodes to a payload exactly when it is the
  encoding of that payload, the payload is within the caller's limit and its length fits the
  32-bit header. So no two payloads share a frame and nothing else decodes.
\<close>

theorem frame_codec_exact:
  "decode_frame buf m = Inr p \<longleftrightarrow>
     buf = encode_frame p \<and> length p \<le> m \<and> length p < 2 ^ 32"
  using decode_encode [of p m] encode_decode [of buf m p] by blast

text \<open>A payload too long for the header: the frame never decodes to a payload.\<close>

lemma decode_encode_oversized:
  assumes "2 ^ 32 \<le> length p"
  shows "\<exists>e. decode_frame (encode_frame p) m = Inl e"
proof (cases "decode_frame (encode_frame p) m")
  case (Inr q)
  then have "encode_frame p = encode_frame q" "length q < 2 ^ 32"
    by (auto dest: encode_decode)
  then have "length p = length q"
    by (metis add_left_cancel length_encode_frame)
  with \<open>length q < 2 ^ 32\<close> assms show ?thesis by simp
qed auto

section \<open>Frames on a stream\<close>

text \<open>
  A stream that is going to deliver the bytes \<open>s\<close> and then end or fail: \<open>read_exact(n)\<close> takes \<open>n\<close>
  bytes, or fails when fewer are coming.
\<close>

definition read_exact :: "nat \<Rightarrow> bytes \<Rightarrow> (bytes \<times> bytes) option" where
  "read_exact n s = (if length s < n then None else Some (take n s, drop n s))"

lemma read_exact_append: "length a = n \<Longrightarrow> read_exact n (a @ b) = Some (a, b)"
  by (simp add: read_exact_def)

text \<open>
  What every reader of the program promises: a frame the writer produced is taken off the
  stream whole, whatever follows it, and what a reader returns is what the writer framed.
\<close>

locale frame_reader =
  fixes reader :: "bytes \<Rightarrow> 'err + (bytes \<times> bytes)"
    and limit :: nat
  assumes reader_encode: "length p \<le> limit \<Longrightarrow> reader (encode_frame p @ rest) = Inr (p, rest)"
    and reader_sound: "reader s = Inr (p, rest) \<Longrightarrow> s = encode_frame p @ rest \<and> length p \<le> limit"
begin

text \<open>The frame boundaries of a stream are unique: no frame is the beginning of another.\<close>

lemma frame_prefix_free:
  assumes "length p \<le> limit" and "length q \<le> limit"
    and "encode_frame p @ a = encode_frame q @ b"
  shows "p = q \<and> a = b"
proof -
  have "reader (encode_frame p @ a) = Inr (p, a)" by (rule reader_encode) fact
  moreover have "reader (encode_frame q @ b) = Inr (q, b)" by (rule reader_encode) fact
  ultimately have "Inr (p, a) = (Inr (q, b) :: 'err + (bytes \<times> bytes))"
    by (simp only: assms(3))
  then show ?thesis by simp
qed

lemma reader_shorter: "reader s = Inr (p, rest) \<Longrightarrow> length rest < length s"
  using reader_sound by fastforce

end

text \<open>Every reader of the program has this shape, with errors of its own.\<close>

lemma frame_readerI:
  assumes rd: "\<And>s. rd s =
      (if length s < 4 then Inl (e1 s)
       else if header_len s > m then Inl (e2 s)
       else if length s < 4 + header_len s then Inl (e3 s)
       else Inr (take (header_len s) (drop 4 s), drop (4 + header_len s) s))"
    and m: "m < 2 ^ 32"
  shows "frame_reader rd m"
proof
  fix p rest :: bytes
  assume p: "length p \<le> m"
  then have "header_len (encode_frame p @ rest) = length p"
    using m by (intro header_len_encode) simp
  moreover have "drop (4 + length p) (encode_frame p @ rest) = rest"
    by (simp only: add.commute [of 4] drop_drop [symmetric] drop4_encode) simp
  ultimately show "rd (encode_frame p @ rest) = Inr (p, rest)"
    using p drop4_encode [of p "[]"] by (simp add: rd)
next
  fix s p rest
  assume "rd s = Inr (p, rest)"
  then have s: "4 + header_len s \<le> length s" "header_len s \<le> m"
    and p: "p = take (header_len s) (drop 4 s)" and r: "rest = drop (4 + header_len s) s"
    by (auto simp: rd split: if_splits)
  let ?f = "take (4 + header_len s) s"
  have "decode_frame ?f m = Inr (drop 4 ?f)"
    using s by (simp add: decode_frame_alt)
  then have "?f = encode_frame (drop 4 ?f)" by (auto dest: encode_decode)
  moreover have "drop 4 ?f = p" by (simp add: p drop_take)
  ultimately have "s = encode_frame p @ rest" by (metis append_take_drop_id r)
  moreover have "length p = header_len s" using s by (simp add: p)
  ultimately show "s = encode_frame p @ rest \<and> length p \<le> m" using s by simp
qed

text \<open>The reader called in a loop until it fails: the payloads it delivers, at most \<open>n\<close> of them.\<close>

fun read_frames :: "(bytes \<Rightarrow> 'err + (bytes \<times> bytes)) \<Rightarrow> nat \<Rightarrow> bytes \<Rightarrow> bytes list" where
  "read_frames rd 0 s = []"
| "read_frames rd (Suc n) s =
     (case rd s of Inl e \<Rightarrow> [] | Inr (p, rest) \<Rightarrow> p # read_frames rd n rest)"

context frame_reader
begin

lemma read_frames_encode:
  "\<forall>p\<in>set ps. length p \<le> limit \<Longrightarrow>
   read_frames reader (length ps) (concat (map encode_frame ps) @ rest) = ps"
  by (induction ps) (auto simp: reader_encode)

text \<open>As many rounds as the stream has bytes are enough, and more change nothing.\<close>

lemma read_frames_fuel:
  "length s \<le> n \<Longrightarrow> read_frames reader n s = read_frames reader (length s) s"
proof (induction "length s" arbitrary: s n rule: less_induct)
  case less
  show ?case
  proof (cases "reader s")
    case (Inl e)
    then show ?thesis by (cases n; cases "length s") auto
  next
    case (Inr pr)
    obtain p r where pr: "pr = (p, r)" by fastforce
    with Inr have r: "length r < length s" by (auto dest: reader_shorter)
    then obtain k where k: "length s = Suc k" by (cases "length s") auto
    with less.prems obtain m where m: "n = Suc m" by (cases n) auto
    have "read_frames reader m r = read_frames reader (length r) r"
      using less.hyps [OF r, of m] r k m less.prems by simp
    moreover have "read_frames reader k r = read_frames reader (length r) r"
      using less.hyps [OF r, of k] r k by simp
    ultimately show ?thesis using Inr pr k m by simp
  qed
qed

end

end
