(* ===== verification/Messages.thy ===== *)
theory Messages
  imports Neosh_Prelude
begin

text \<open>
  Control message kinds and the error message (\<open>src/src/protocol/messages.rs\<close>). Decoding the JSON
  envelope is the work of \<open>serde_json\<close>, so it is a parameter: \<open>envelope payload\<close> is the \<open>type\<close>
  field of the payload, or \<open>None\<close> when it does not decode to an object with a string field
  \<open>type\<close>.
\<close>

datatype message_kind =
    Hello | Auth | Attach | Resume | Resize | Detach | Close | Ping | Pong | ErrorMsg

record error_message =
  em_type :: string
  em_code :: string
  em_message :: string
  em_retryable :: bool

definition parse_message_kind :: "(bytes \<Rightarrow> string option) \<Rightarrow> bytes \<Rightarrow> message_kind option" where
  "parse_message_kind envelope payload =
     (case envelope payload of
        None \<Rightarrow> None
      | Some t \<Rightarrow>
          if t = ''HELLO'' then Some Hello
          else if t = ''AUTH'' then Some Auth
          else if t = ''ATTACH'' then Some Attach
          else if t = ''RESUME'' then Some Resume
          else if t = ''RESIZE'' then Some Resize
          else if t = ''DETACH'' then Some Detach
          else if t = ''CLOSE'' then Some Close
          else if t = ''PING'' then Some Ping
          else if t = ''PONG'' then Some Pong
          else if t = ''ERROR'' then Some ErrorMsg
          else None)"

text \<open>The name a peer writes for a kind.\<close>

fun kind_name :: "message_kind \<Rightarrow> string" where
  "kind_name Hello = ''HELLO''"
| "kind_name Auth = ''AUTH''"
| "kind_name Attach = ''ATTACH''"
| "kind_name Resume = ''RESUME''"
| "kind_name Resize = ''RESIZE''"
| "kind_name Detach = ''DETACH''"
| "kind_name Close = ''CLOSE''"
| "kind_name Ping = ''PING''"
| "kind_name Pong = ''PONG''"
| "kind_name ErrorMsg = ''ERROR''"

lemma parse_message_kind_Some_iff:
  "parse_message_kind envelope payload = Some k \<longleftrightarrow> envelope payload = Some (kind_name k)"
  by (cases k) (auto simp: parse_message_kind_def split: option.splits)

end
