(* ===== verification/Dispatcher.thy ===== *)
theory Dispatcher
  imports Messages
begin

text \<open>
  The order of control messages on a connection (\<open>src/src/protocol/dispatcher.rs\<close>): the state of a
  connection, the step \<open>on_message\<close>, and its equivalence with a description of the legal message
  sequences that does not mention states.
\<close>

section \<open>The state machine\<close>

datatype connection_state = AwaitHello | AwaitAuth | AwaitAttachOrResume | ConnAttached | ConnClosed

datatype dispatch_error = ProtocolOrder

datatype dispatch_outcome = DispatchContinue | DispatchClose

record dispatcher =
  disp_state :: connection_state

definition dispatcher_default :: dispatcher where
  "dispatcher_default = \<lparr>disp_state = AwaitHello\<rparr>"

fun on_message :: "dispatcher \<Rightarrow> message_kind \<Rightarrow> (dispatch_error + dispatch_outcome) \<times> dispatcher" where
  "on_message d kind =
     (case (disp_state d, kind) of
        (AwaitHello, Hello) \<Rightarrow> (Inr DispatchContinue, d\<lparr>disp_state := AwaitAuth\<rparr>)
      | (AwaitHello, Ping) \<Rightarrow> (Inr DispatchContinue, d)
      | (AwaitAuth, Auth) \<Rightarrow> (Inr DispatchContinue, d\<lparr>disp_state := AwaitAttachOrResume\<rparr>)
      | (AwaitAuth, Ping) \<Rightarrow> (Inr DispatchContinue, d)
      | (AwaitAttachOrResume, Attach) \<Rightarrow> (Inr DispatchContinue, d\<lparr>disp_state := ConnAttached\<rparr>)
      | (AwaitAttachOrResume, Resume) \<Rightarrow> (Inr DispatchContinue, d\<lparr>disp_state := ConnAttached\<rparr>)
      | (AwaitAttachOrResume, Close) \<Rightarrow> (Inr DispatchClose, d\<lparr>disp_state := ConnClosed\<rparr>)
      | (AwaitAttachOrResume, Ping) \<Rightarrow> (Inr DispatchContinue, d)
      | (ConnAttached, Resize) \<Rightarrow> (Inr DispatchContinue, d)
      | (ConnAttached, Detach) \<Rightarrow> (Inr DispatchContinue, d)
      | (ConnAttached, Ping) \<Rightarrow> (Inr DispatchContinue, d)
      | (ConnAttached, Close) \<Rightarrow> (Inr DispatchClose, d\<lparr>disp_state := ConnClosed\<rparr>)
      | (ConnClosed, _) \<Rightarrow> (Inl ProtocolOrder, d)
      | _ \<Rightarrow> (Inl ProtocolOrder, d))"

text \<open>The step with the state threaded, for runs.\<close>

definition dispatch :: "dispatcher \<Rightarrow> message_kind \<Rightarrow> dispatch_error + dispatcher" where
  "dispatch d k = (case on_message d k of (Inl e, _) \<Rightarrow> Inl e | (Inr _, d') \<Rightarrow> Inr d')"

lemma on_message_error_keeps: "on_message d k = (Inl e, d') \<Longrightarrow> d' = d"
  by (cases "disp_state d"; cases k) auto

fun conn_rank :: "connection_state \<Rightarrow> nat" where
  "conn_rank AwaitHello = 0"
| "conn_rank AwaitAuth = 1"
| "conn_rank AwaitAttachOrResume = 2"
| "conn_rank ConnAttached = 3"
| "conn_rank ConnClosed = 4"

text \<open>A connection only moves forward: no message takes it back to an earlier phase.\<close>

interpretation disp_rank: ranked_machine dispatch "\<lambda>_. True" "\<lambda>d. conn_rank (disp_state d)"
proof unfold_locales
  fix d k d'
  assume "dispatch d k = Inr d'"
  then show "d' = d \<or> conn_rank (disp_state d) < conn_rank (disp_state d')"
    by (cases "disp_state d"; cases k) (auto simp: dispatch_def)
qed simp

section \<open>The legal sequences\<close>

text \<open>
  Without its pings, a legal sequence is the beginning of a handshake, or a complete handshake
  followed by resizes and detaches, possibly ended by a close; a close after authentication may
  also stand in place of the attachment. Nothing, not even a ping, follows a close.
\<close>

fun legal_tail :: "message_kind list \<Rightarrow> bool" where
  "legal_tail [] = True"
| "legal_tail (k # ks) =
     (if k \<in> {Resize, Detach} then legal_tail ks else k = Close \<and> ks = [])"

fun legal_core :: "message_kind list \<Rightarrow> bool" where
  "legal_core [] = True"
| "legal_core [a] = (a = Hello)"
| "legal_core [a, b] = (a = Hello \<and> b = Auth)"
| "legal_core (a # b # c # ks) =
     (a = Hello \<and> b = Auth \<and> (c \<in> {Attach, Resume} \<and> legal_tail ks \<or> c = Close \<and> ks = []))"

definition nothing_after_close :: "message_kind list \<Rightarrow> bool" where
  "nothing_after_close ks = (Close \<notin> set (butlast ks))"

definition legal_order :: "message_kind list \<Rightarrow> bool" where
  "legal_order ks \<longleftrightarrow> legal_core (filter (\<lambda>k. k \<noteq> Ping) ks) \<and> nothing_after_close ks"

text \<open>What a sequence may still hold, seen from each state.\<close>

fun legal_from :: "connection_state \<Rightarrow> message_kind list \<Rightarrow> bool" where
  "legal_from AwaitHello ks = legal_core ks"
| "legal_from AwaitAuth ks = legal_core (Hello # ks)"
| "legal_from AwaitAttachOrResume ks = legal_core (Hello # Auth # ks)"
| "legal_from ConnAttached ks = legal_tail ks"
| "legal_from ConnClosed ks = (ks = [])"

lemma nothing_after_close_Cons:
  "nothing_after_close (k # ks) \<longleftrightarrow> ks = [] \<or> k \<noteq> Close \<and> nothing_after_close ks"
  by (auto simp: nothing_after_close_def)

lemma legal_from_Ping_closed: "legal_from ConnClosed ks \<Longrightarrow> ks = []"
  by simp

lemma dispatch_Ping:
  "disp_state d \<noteq> ConnClosed \<Longrightarrow> dispatch d Ping = Inr d"
  "disp_state d = ConnClosed \<Longrightarrow> dispatch d k = Inl ProtocolOrder"
  by (cases "disp_state d"; simp add: dispatch_def)+

lemma dispatch_core:
  assumes "k \<noteq> Ping"
  shows "legal_from (disp_state d) (k # ks) \<longleftrightarrow>
    (\<exists>d'. dispatch d k = Inr d' \<and> legal_from (disp_state d') ks)"
  using assms
  by (cases "disp_state d"; cases k; cases ks; cases "tl ks") (auto simp: dispatch_def)

lemma dispatch_closes: "dispatch d k = Inr d' \<Longrightarrow> disp_state d' = ConnClosed \<longleftrightarrow> k = Close"
  by (cases "disp_state d"; cases k) (auto simp: dispatch_def)

lemma run_dispatch_legal:
  "disp_state d \<noteq> ConnClosed \<Longrightarrow>
   (\<exists>d'. run_events dispatch d ks = Inr d') \<longleftrightarrow>
   legal_from (disp_state d) (filter (\<lambda>k. k \<noteq> Ping) ks) \<and> nothing_after_close ks"
proof (induction ks arbitrary: d)
  case Nil
  then show ?case by (cases "disp_state d") (auto simp: nothing_after_close_def)
next
  case (Cons k ks)
  show ?case
  proof (cases "k = Ping")
    case True
    then show ?thesis using Cons
      by (auto simp: dispatch_Ping nothing_after_close_Cons nothing_after_close_def)
  next
    case False
    show ?thesis
    proof (cases "dispatch d k")
      case (Inl e)
      then show ?thesis using dispatch_core [OF False, of d] False by simp
    next
      case (Inr d')
      note core = dispatch_core [OF False, of d, unfolded Inr]
      show ?thesis
      proof (cases "disp_state d' = ConnClosed")
        case True
        then have "k = Close" using Inr by (simp add: dispatch_closes)
        moreover have "run_events dispatch d' ks = (if ks = [] then Inr d' else Inl ProtocolOrder)"
          using True by (cases ks) (simp_all add: dispatch_Ping)
        ultimately show ?thesis using core Inr True by (auto simp: nothing_after_close_Cons)
      next
        case False
        then have "k \<noteq> Close" using Inr by (simp add: dispatch_closes)
        with False show ?thesis using core Inr Cons.IH [of d'] \<open>k \<noteq> Ping\<close>
          by (auto simp: nothing_after_close_Cons nothing_after_close_def)
      qed
    qed
  qed
qed

text \<open>C22: \<close>

theorem dispatcher_accepts_legal_order:
  "(\<exists>d. run_events dispatch dispatcher_default ks = Inr d) \<longleftrightarrow> legal_order ks"
  using run_dispatch_legal [of dispatcher_default ks]
  by (simp add: dispatcher_default_def legal_order_def)

end
