(* ===== verification/Sessions.thy ===== *)
theory Sessions
  imports Neosh_Prelude
begin

text \<open>
  The session registry (\<open>src/src/session/manager.rs\<close>): sessions with their lifecycle state and
  exclusive attachment. After the operations come the well-formedness of the registry, the
  attachment as a lock fenced by an epoch (locale \<open>fenced_lock\<close>), and the refinement of an
  abstract lease.
\<close>

section \<open>State\<close>

datatype session_state = Created | Attached | Detached | Expired | Terminated

record session =
  session_id :: uuid
  owner_user_id :: string
  sess_quic_addr :: string
  sess_cert_fingerprint :: string
  sess_state :: session_state
  attached_conn_id :: "uuid option"
  attach_epoch :: u64

datatype session_error = NotFound | AttachDenied | InvalidState | PermissionDenied

text \<open>The \<open>HashMap\<close> of sessions.\<close>

type_synonym session_manager = "uuid \<Rightarrow> session option"

section \<open>Operations\<close>

text \<open>An operation on \<open>&mut self\<close> returns its result and the registry it leaves behind.\<close>

definition create_session_with_id ::
  "session_manager \<Rightarrow> uuid \<Rightarrow> string \<Rightarrow> string \<Rightarrow> string \<Rightarrow> session_manager" where
  "create_session_with_id m sid owner qaddr fp =
     m(sid \<mapsto> \<lparr>session_id = sid, owner_user_id = owner, sess_quic_addr = qaddr,
               sess_cert_fingerprint = fp, sess_state = Created, attached_conn_id = None,
               attach_epoch = 0\<rparr>)"

text \<open>\<open>Uuid::new_v4()\<close> supplies \<open>fresh\<close>.\<close>

definition create_session ::
  "session_manager \<Rightarrow> uuid \<Rightarrow> string \<Rightarrow> string \<Rightarrow> string \<Rightarrow> uuid \<times> session_manager" where
  "create_session m fresh owner qaddr fp =
     (fresh, create_session_with_id m fresh owner qaddr fp)"

definition get_session :: "session_manager \<Rightarrow> uuid \<Rightarrow> session option" where
  "get_session m sid = m sid"

definition assert_owner :: "session_manager \<Rightarrow> uuid \<Rightarrow> string \<Rightarrow> session_error + unit" where
  "assert_owner m sid user =
     (case m sid of
        None \<Rightarrow> Inl NotFound
      | Some s \<Rightarrow> if owner_user_id s = user then Inr () else Inl PermissionDenied)"

definition attach_exclusive ::
  "session_manager \<Rightarrow> uuid \<Rightarrow> uuid \<Rightarrow> (session_error + u64) \<times> session_manager" where
  "attach_exclusive m sid conn =
     (case m sid of
        None \<Rightarrow> (Inl NotFound, m)
      | Some s \<Rightarrow>
          if sess_state s = Expired \<or> sess_state s = Terminated then (Inl InvalidState, m)
          else if attached_conn_id s \<noteq> None then (Inl AttachDenied, m)
          else
            let e = saturating_add (attach_epoch s) 1
            in (Inr e, m(sid \<mapsto> s\<lparr>attach_epoch := e, attached_conn_id := Some conn,
                                  sess_state := Attached\<rparr>)))"

text \<open>The release shared by \<open>detach\<close> and \<open>conditional_stale_cleanup\<close>.\<close>

definition released :: "session \<Rightarrow> session" where
  "released s =
     (let s' = s\<lparr>attached_conn_id := None\<rparr>
      in if sess_state s \<noteq> Terminated \<and> sess_state s \<noteq> Expired
         then s'\<lparr>sess_state := Detached\<rparr> else s')"

definition detach ::
  "session_manager \<Rightarrow> uuid \<Rightarrow> uuid \<Rightarrow> (session_error + unit) \<times> session_manager" where
  "detach m sid conn =
     (case m sid of
        None \<Rightarrow> (Inl NotFound, m)
      | Some s \<Rightarrow>
          if attached_conn_id s \<noteq> Some conn then (Inl AttachDenied, m)
          else (Inr (), m(sid \<mapsto> released s)))"

definition conditional_stale_cleanup ::
  "session_manager \<Rightarrow> uuid \<Rightarrow> uuid \<Rightarrow> u64 \<Rightarrow> bool \<times> session_manager" where
  "conditional_stale_cleanup m sid conn epoch =
     (case m sid of
        None \<Rightarrow> (False, m)
      | Some s \<Rightarrow>
          if attached_conn_id s = Some conn \<and> attach_epoch s = epoch
          then (True, m(sid \<mapsto> released s))
          else (False, m))"

definition terminate ::
  "session_manager \<Rightarrow> uuid \<Rightarrow> (session_error + unit) \<times> session_manager" where
  "terminate m sid =
     (case m sid of
        None \<Rightarrow> (Inl NotFound, m)
      | Some s \<Rightarrow>
          (Inr (), m(sid \<mapsto> s\<lparr>sess_state := Terminated, attached_conn_id := None\<rparr>)))"

definition expire ::
  "session_manager \<Rightarrow> uuid \<Rightarrow> (session_error + unit) \<times> session_manager" where
  "expire m sid =
     (case m sid of
        None \<Rightarrow> (Inl NotFound, m)
      | Some s \<Rightarrow>
          (Inr (), m(sid \<mapsto> s\<lparr>sess_state := Expired, attached_conn_id := None\<rparr>)))"

lemmas session_ops =
  create_session_with_id_def create_session_def get_session_def assert_owner_def
  attach_exclusive_def detach_def conditional_stale_cleanup_def terminate_def expire_def

section \<open>Operations as data\<close>

text \<open>The calls other components make, so that whole histories of the registry are lists.\<close>

datatype session_op =
    OpCreate uuid string string string
  | OpAttach uuid uuid
  | OpDetach uuid uuid
  | OpStaleCleanup uuid uuid u64
  | OpTerminate uuid
  | OpExpire uuid

fun session_exec :: "session_manager \<Rightarrow> session_op \<Rightarrow> session_manager" where
  "session_exec m (OpCreate sid ow q fp) = create_session_with_id m sid ow q fp"
| "session_exec m (OpAttach sid c) = snd (attach_exclusive m sid c)"
| "session_exec m (OpDetach sid c) = snd (detach m sid c)"
| "session_exec m (OpStaleCleanup sid c e) = snd (conditional_stale_cleanup m sid c e)"
| "session_exec m (OpTerminate sid) = snd (terminate m sid)"
| "session_exec m (OpExpire sid) = snd (expire m sid)"

fun op_target :: "session_op \<Rightarrow> uuid" where
  "op_target (OpCreate sid ow q fp) = sid"
| "op_target (OpAttach sid c) = sid"
| "op_target (OpDetach sid c) = sid"
| "op_target (OpStaleCleanup sid c e) = sid"
| "op_target (OpTerminate sid) = sid"
| "op_target (OpExpire sid) = sid"

fun is_create :: "session_op \<Rightarrow> bool" where
  "is_create (OpCreate _ _ _ _) = True"
| "is_create _ = False"

lemma session_exec_other [neosh_frame]:
  "sid \<noteq> op_target oper \<Longrightarrow> session_exec m oper sid = m sid"
  by (cases oper) (auto simp: session_ops Let_def split: option.splits)

section \<open>Well-formedness\<close>

text \<open>A session is attached to a connection exactly while its state says so.\<close>

definition session_wf :: "session \<Rightarrow> bool" where
  "session_wf s \<longleftrightarrow> (sess_state s = Attached \<longleftrightarrow> attached_conn_id s \<noteq> None)"

definition manager_wf :: "session_manager \<Rightarrow> bool" where
  "manager_wf m \<longleftrightarrow> (\<forall>sid s. m sid = Some s \<longrightarrow> session_id s = sid \<and> session_wf s)"

lemma manager_wf_empty [neosh_inv]: "manager_wf (\<lambda>_. None)"
  by (simp add: manager_wf_def)

lemma manager_wf_upd:
  "manager_wf m \<Longrightarrow> session_id s = sid \<Longrightarrow> session_wf s \<Longrightarrow> manager_wf (m(sid \<mapsto> s))"
  by (auto simp: manager_wf_def)

lemma manager_wfD: "manager_wf m \<Longrightarrow> m sid = Some s \<Longrightarrow> session_id s = sid \<and> session_wf s"
  by (auto simp: manager_wf_def)

lemma released_simps [simp]:
  "attached_conn_id (released s) = None"
  "attach_epoch (released s) = attach_epoch s"
  "session_id (released s) = session_id s"
  "owner_user_id (released s) = owner_user_id s"
  "sess_quic_addr (released s) = sess_quic_addr s"
  "sess_cert_fingerprint (released s) = sess_cert_fingerprint s"
  "sess_state (released s) =
     (if sess_state s = Terminated \<or> sess_state s = Expired then sess_state s else Detached)"
  by (auto simp: released_def Let_def)

lemma session_wf_released [simp]: "session_wf s \<Longrightarrow> session_wf (released s)"
  by (cases "sess_state s") (auto simp: session_wf_def)

lemma manager_wf_exec [neosh_inv]: "manager_wf m \<Longrightarrow> manager_wf (session_exec m oper)"
  by (cases oper)
    (auto simp: session_ops Let_def session_wf_def dest: manager_wfD
      intro!: manager_wf_upd split: option.splits)

interpretation registry: guarded_machine
  "\<lambda>m oper. Inr (session_exec m oper) :: unit + session_manager" manager_wf
  by unfold_locales (auto intro: manager_wf_exec)

section \<open>The attachment as a fenced lock\<close>

text \<open>
  A lock with an epoch: acquiring needs a free lock and raises the epoch (until it saturates),
  only a release by its holder frees it without killing it, and a dead lock stays dead. Resetting
  operations (here: creating the session again) are outside the contract.
\<close>

locale fenced_lock =
  fixes exec :: "'s \<Rightarrow> 'op \<Rightarrow> 's"
    and holder :: "'s \<Rightarrow> 'c option"
    and epoch :: "'s \<Rightarrow> nat"
    and top :: nat
    and dead :: "'s \<Rightarrow> bool"
    and acquires :: "'s \<Rightarrow> 'op \<Rightarrow> 'c option"
    and releases :: "'op \<Rightarrow> 'c \<Rightarrow> bool"
    and resets :: "'op \<Rightarrow> bool"
  assumes acquire_free: "acquires s oper = Some c \<Longrightarrow>
      \<not> dead s \<and> holder s = None \<and> holder (exec s oper) = Some c"
    and acquire_epoch: "acquires s oper = Some c \<Longrightarrow>
      epoch (exec s oper) = min (Suc (epoch s)) top"
    and hold: "holder s = Some c \<Longrightarrow> \<not> releases oper c \<Longrightarrow> \<not> resets oper \<Longrightarrow>
      holder (exec s oper) = Some c \<or> dead (exec s oper)"
    and dead_stays: "dead s \<Longrightarrow> \<not> resets oper \<Longrightarrow> dead (exec s oper)"
    and epoch_mono: "\<not> resets oper \<Longrightarrow> epoch s \<le> epoch (exec s oper)"
begin

lemma dead_run: "dead s \<Longrightarrow> \<forall>oper\<in>set ops. \<not> resets oper \<Longrightarrow> dead (foldl exec s ops)"
  by (induction ops arbitrary: s) (auto intro: dead_stays)

lemma epoch_run: "\<forall>oper\<in>set ops. \<not> resets oper \<Longrightarrow> epoch s \<le> epoch (foldl exec s ops)"
proof (induction ops arbitrary: s)
  case (Cons oper ops)
  then have "epoch s \<le> epoch (exec s oper)" by (simp add: epoch_mono)
  also have "\<dots> \<le> epoch (foldl exec (exec s oper) ops)" using Cons by simp
  finally show ?case by simp
qed simp

lemma hold_run:
  "holder s = Some c \<or> dead s \<Longrightarrow> \<forall>oper\<in>set ops. \<not> releases oper c \<and> \<not> resets oper \<Longrightarrow>
   holder (foldl exec s ops) = Some c \<or> dead (foldl exec s ops)"
proof (induction ops arbitrary: s)
  case (Cons oper ops)
  then have "holder (exec s oper) = Some c \<or> dead (exec s oper)"
    by (auto intro: dead_stays dest: hold)
  with Cons show ?case by simp
qed simp

text \<open>Between two acquisitions the first holder has let go.\<close>

lemma release_between:
  assumes "acquires s op1 = Some c1" and "acquires (foldl exec (exec s op1) ops) op2 = Some c2"
  shows "\<exists>oper\<in>set ops. releases oper c1 \<or> resets oper"
proof (rule ccontr)
  assume "\<not> ?thesis"
  then have "holder (foldl exec (exec s op1) ops) = Some c1 \<or> dead (foldl exec (exec s op1) ops)"
    using acquire_free [OF assms(1)] by (intro hold_run) auto
  with acquire_free [OF assms(2)] show False by auto
qed

text \<open>A later acquisition has a larger epoch, as long as the epoch is below its top.\<close>

lemma epoch_after_reacquire:
  assumes "acquires (foldl exec s ops) op2 = Some c2"
    and "\<forall>oper\<in>set (ops @ op2 # ops'). \<not> resets oper"
    and "epoch s < top"
  shows "epoch s < epoch (foldl exec s (ops @ op2 # ops'))"
proof -
  let ?s = "foldl exec s ops"
  have "epoch s \<le> epoch ?s" using assms(2) by (intro epoch_run) auto
  then have "epoch s < epoch (exec ?s op2)" using acquire_epoch [OF assms(1)] assms(3) by auto
  also have "\<dots> \<le> epoch (foldl exec (exec ?s op2) ops')" using assms(2) by (intro epoch_run) auto
  finally show ?thesis by simp
qed

end

text \<open>The lock of one session: what each operation means for it.\<close>

definition lock_holder :: "uuid \<Rightarrow> session_manager \<Rightarrow> uuid option" where
  "lock_holder sid m = Option.bind (m sid) attached_conn_id"

definition lock_epoch :: "uuid \<Rightarrow> session_manager \<Rightarrow> nat" where
  "lock_epoch sid m = (case m sid of None \<Rightarrow> 0 | Some s \<Rightarrow> unat (attach_epoch s))"

definition lock_dead :: "uuid \<Rightarrow> session_manager \<Rightarrow> bool" where
  "lock_dead sid m =
     (case m sid of None \<Rightarrow> True | Some s \<Rightarrow> sess_state s = Expired \<or> sess_state s = Terminated)"

fun lock_acquires :: "uuid \<Rightarrow> session_manager \<Rightarrow> session_op \<Rightarrow> uuid option" where
  "lock_acquires sid m (OpAttach sid' c) =
     (if sid' = sid then (case fst (attach_exclusive m sid c) of Inl _ \<Rightarrow> None | Inr _ \<Rightarrow> Some c)
      else None)"
| "lock_acquires sid m oper = None"

fun lock_releases :: "uuid \<Rightarrow> session_op \<Rightarrow> uuid \<Rightarrow> bool" where
  "lock_releases sid (OpDetach sid' c') c = (sid' = sid \<and> c' = c)"
| "lock_releases sid (OpStaleCleanup sid' c' e) c = (sid' = sid \<and> c' = c)"
| "lock_releases sid oper c = False"

definition lock_resets :: "uuid \<Rightarrow> session_op \<Rightarrow> bool" where
  "lock_resets sid oper \<longleftrightarrow> is_create oper \<and> op_target oper = sid"

lemmas lock_defs = lock_holder_def lock_epoch_def lock_dead_def lock_resets_def

lemma lock_acquires_Some:
  "lock_acquires sid m oper = Some c \<longleftrightarrow>
   oper = OpAttach sid c \<and> (\<exists>s. m sid = Some s \<and> sess_state s \<noteq> Expired \<and> sess_state s \<noteq> Terminated
     \<and> attached_conn_id s = None)"
  by (cases oper) (auto simp: attach_exclusive_def Let_def split: option.splits if_splits)

lemma lock_other:
  "op_target oper \<noteq> sid \<Longrightarrow> lock_holder sid (session_exec m oper) = lock_holder sid m"
  "op_target oper \<noteq> sid \<Longrightarrow> lock_epoch sid (session_exec m oper) = lock_epoch sid m"
  "op_target oper \<noteq> sid \<Longrightarrow> lock_dead sid (session_exec m oper) = lock_dead sid m"
  by (simp_all add: lock_defs session_exec_other)

interpretation session_lock: fenced_lock session_exec "lock_holder sid" "lock_epoch sid"
  "2 ^ 64 - 1" "lock_dead sid" "lock_acquires sid" "lock_releases sid" "lock_resets sid"
  for sid :: uuid
proof unfold_locales
  fix m oper c
  assume "lock_acquires sid m oper = Some c"
  then show "\<not> lock_dead sid m \<and> lock_holder sid m = None \<and> lock_holder sid (session_exec m oper) = Some c"
    and "lock_epoch sid (session_exec m oper) = min (Suc (lock_epoch sid m)) (2 ^ 64 - 1)"
    by (auto simp: lock_acquires_Some lock_defs attach_exclusive_def Let_def unat_saturating_add)
next
  fix m oper c
  assume "lock_holder sid m = Some c" "\<not> lock_releases sid oper c" "\<not> lock_resets sid oper"
  then show "lock_holder sid (session_exec m oper) = Some c \<or> lock_dead sid (session_exec m oper)"
    by (cases oper)
      (auto simp: lock_defs session_ops Let_def split: option.splits if_splits)
next
  fix m oper
  assume "lock_dead sid m" "\<not> lock_resets sid oper"
  then show "lock_dead sid (session_exec m oper)"
    by (cases oper) (auto simp: lock_defs session_ops Let_def split: option.splits if_splits)
next
  fix m oper
  assume "\<not> lock_resets sid oper"
  then show "lock_epoch sid m \<le> lock_epoch sid (session_exec m oper)"
    by (cases oper)
      (auto simp: lock_defs session_ops Let_def saturating_add_le word_le_nat_alt [symmetric]
        split: option.splits if_splits)
qed

text \<open>
  Between two successful attachments of one session, the connection that attached first has
  detached or has been cleaned up (or the session was created anew): attachment is exclusive.
\<close>

theorem attach_mutual_exclusion:
  assumes "attach_exclusive m sid c1 = (Inr e1, m1)"
    and "attach_exclusive (foldl session_exec m1 ops) sid c2 = (Inr e2, m2)"
  shows "\<exists>oper\<in>set ops. lock_releases sid oper c1 \<or> lock_resets sid oper"
proof (rule session_lock.release_between)
  show "lock_acquires sid m (OpAttach sid c1) = Some c1" using assms(1) by simp
  have "session_exec m (OpAttach sid c1) = m1" using assms(1) by simp
  then show "lock_acquires sid (foldl session_exec (session_exec m (OpAttach sid c1)) ops)
      (OpAttach sid c2) = Some c2"
    using assms(2) by simp
qed

text \<open>
  C23: Fencing. Once the session has been attached again, the cleanup of an earlier attachment
  changes nothing, whatever happens in between and even if the connection id is the same; the
  epoch must not have saturated.
\<close>

theorem stale_cleanup_fenced:
  assumes "attach_exclusive m sid c1 = (Inr e1, m1)"
    and "attach_exclusive (foldl session_exec m1 ops) sid c2 = (Inr e2, m2)"
    and "\<forall>oper\<in>set (ops @ ops'). \<not> lock_resets sid oper"
    and "e1 \<noteq> - 1"
  shows "conditional_stale_cleanup (foldl session_exec m2 ops') sid c1 e1 =
    (False, foldl session_exec m2 ops')"
proof -
  let ?ops = "ops @ OpAttach sid c2 # ops'"
  have m2: "session_exec (foldl session_exec m1 ops) (OpAttach sid c2) = m2"
    using assms(2) by simp
  have e1: "lock_epoch sid m1 = unat e1"
    using assms(1) by (auto simp: attach_exclusive_def lock_defs Let_def split: option.splits if_splits)
  have "unat e1 < 2 ^ 64 - 1"
    using unat_saturating_add [of e1 1] saturating_add_one_less [OF assms(4)]
    by (simp add: word_less_nat_alt)
  then have top: "lock_epoch sid m1 < 2 ^ 64 - 1" using e1 by simp
  have acq: "lock_acquires sid (foldl session_exec m1 ops) (OpAttach sid c2) = Some c2"
    using assms(2) by simp
  have "lock_epoch sid m1 < lock_epoch sid (foldl session_exec m1 ?ops)"
    by (rule session_lock.epoch_after_reacquire [OF acq _ top])
      (use assms(3) in \<open>auto simp: lock_resets_def\<close>)
  with e1 m2 have "unat e1 < lock_epoch sid (foldl session_exec m2 ops')" by simp
  then show ?thesis
    by (auto simp: conditional_stale_cleanup_def lock_epoch_def split: option.splits)
qed

theorem attach_mutual_exclusion_witness:
  "\<exists>oper\<in>set [OpExpire 9, OpStaleCleanup 7 1 1].
     lock_releases 7 oper 1 \<or> lock_resets 7 oper"
proof (rule attach_mutual_exclusion)
  let ?m = "create_session_with_id (\<lambda>_. None) 7 ''alice'' ''q'' ''fp''"
  show "attach_exclusive ?m 7 1 = (Inr 1, snd (attach_exclusive ?m 7 1))"
    by (simp add: session_ops saturating_add_def)
  show "attach_exclusive (foldl session_exec (snd (attach_exclusive ?m 7 1))
      [OpExpire 9, OpStaleCleanup 7 1 1]) 7 2 =
    (Inr 2, snd (attach_exclusive (foldl session_exec (snd (attach_exclusive ?m 7 1))
      [OpExpire 9, OpStaleCleanup 7 1 1]) 7 2))"
    by (simp add: session_ops saturating_add_def released_def)
qed

theorem stale_cleanup_fenced_witness:
  "\<exists>m. conditional_stale_cleanup m 7 1 1 = (False, m) \<and> lock_holder 7 m = Some 1"
proof -
  let ?m = "create_session_with_id (\<lambda>_. None) 7 ''alice'' ''q'' ''fp''"
  let ?m1 = "snd (attach_exclusive ?m 7 1)"
  let ?m2 = "snd (attach_exclusive (foldl session_exec ?m1 [OpDetach 7 1]) 7 1)"
  have "conditional_stale_cleanup (foldl session_exec ?m2 []) 7 1 1 =
      (False, foldl session_exec ?m2 [])"
  proof (rule stale_cleanup_fenced)
    show "attach_exclusive ?m 7 1 = (Inr 1, ?m1)"
      by (simp add: session_ops saturating_add_def)
    show "attach_exclusive (foldl session_exec ?m1 [OpDetach 7 1]) 7 1 = (Inr 2, ?m2)"
      by (simp add: session_ops saturating_add_def released_def)
    show "\<forall>oper\<in>set ([OpDetach 7 1] @ []). \<not> lock_resets 7 oper"
      by (simp add: lock_resets_def)
    show "(1::u64) \<noteq> - 1" by simp
  qed
  moreover have "lock_holder 7 ?m2 = Some 1"
    by (simp add: session_ops saturating_add_def released_def lock_holder_def)
  ultimately have "conditional_stale_cleanup ?m2 7 1 1 = (False, ?m2) \<and> lock_holder 7 ?m2 = Some 1"
    by simp
  then show ?thesis by (rule exI [of _ ?m2])
qed

section \<open>Dead sessions\<close>

lemma session_exec_keeps: "m sid = Some s \<Longrightarrow> \<exists>s'. session_exec m oper sid = Some s'"
  by (cases oper) (auto simp: session_ops Let_def split: option.splits)

lemma session_run_keeps: "m sid = Some s \<Longrightarrow> \<exists>s'. foldl session_exec m ops sid = Some s'"
proof (induction ops arbitrary: m s)
  case (Cons oper ops)
  then obtain t where "session_exec m oper sid = Some t" using session_exec_keeps by blast
  then show ?case using Cons.IH [of "session_exec m oper" t] by simp
qed simp

text \<open>
  A session that has been terminated or has expired can never be attached again, by any
  connection and after any history that does not create it anew.
\<close>

theorem dead_session_never_attaches:
  assumes "m sid = Some s" and "sess_state s = Terminated \<or> sess_state s = Expired"
    and "\<forall>oper\<in>set ops. \<not> lock_resets sid oper"
  shows "attach_exclusive (foldl session_exec m ops) sid c =
    (Inl InvalidState, foldl session_exec m ops)"
proof -
  have "lock_dead sid (foldl session_exec m ops)"
    using assms by (intro session_lock.dead_run) (auto simp: lock_dead_def)
  moreover obtain s' where "foldl session_exec m ops sid = Some s'"
    using session_run_keeps [of m sid s] assms(1) by blast
  ultimately show ?thesis by (auto simp: lock_dead_def attach_exclusive_def)
qed

theorem dead_session_never_attaches_witness:
  "attach_exclusive (foldl session_exec
      (snd (terminate (create_session_with_id (\<lambda>_. None) 7 ''alice'' ''q'' ''fp'') 7)) [OpExpire 7]) 7 1 =
    (Inl InvalidState, foldl session_exec
      (snd (terminate (create_session_with_id (\<lambda>_. None) 7 ''alice'' ''q'' ''fp'') 7)) [OpExpire 7])"
  by (rule dead_session_never_attaches [where
        s = "\<lparr>session_id = 7, owner_user_id = ''alice'', sess_quic_addr = ''q'',
          sess_cert_fingerprint = ''fp'', sess_state = Terminated, attached_conn_id = None,
          attach_epoch = 0\<rparr>"])
    (simp_all add: session_ops lock_resets_def)

section \<open>The abstract lease\<close>

text \<open>
  What the rest of the program relies on, without the fields: a session is a lease that is free,
  held by a connection, or gone; free and held leases carry their epoch.
\<close>

datatype lease = Free u64 | Held uuid u64 | Gone

datatype op_result = RCreated | REpoch u64 | RDone | RFlag bool | RError session_error

fun lease_call :: "lease \<Rightarrow> session_op \<Rightarrow> op_result \<times> lease" where
  "lease_call l (OpCreate _ _ _ _) = (RCreated, Free 0)"
| "lease_call (Free e) (OpAttach _ c) = (REpoch (saturating_add e 1), Held c (saturating_add e 1))"
| "lease_call (Held h e) (OpAttach _ c) = (RError AttachDenied, Held h e)"
| "lease_call Gone (OpAttach _ c) = (RError InvalidState, Gone)"
| "lease_call (Held h e) (OpDetach _ c) =
     (if c = h then (RDone, Free e) else (RError AttachDenied, Held h e))"
| "lease_call l (OpDetach _ c) = (RError AttachDenied, l)"
| "lease_call (Held h e) (OpStaleCleanup _ c e') =
     (if c = h \<and> e' = e then (RFlag True, Free e) else (RFlag False, Held h e))"
| "lease_call l (OpStaleCleanup _ c e') = (RFlag False, l)"
| "lease_call l (OpTerminate _) = (RDone, Gone)"
| "lease_call l (OpExpire _) = (RDone, Gone)"

fun session_result :: "session_manager \<Rightarrow> session_op \<Rightarrow> op_result" where
  "session_result m (OpCreate sid ow q fp) = RCreated"
| "session_result m (OpAttach sid c) =
     (case fst (attach_exclusive m sid c) of Inl x \<Rightarrow> RError x | Inr e \<Rightarrow> REpoch e)"
| "session_result m (OpDetach sid c) =
     (case fst (detach m sid c) of Inl x \<Rightarrow> RError x | Inr _ \<Rightarrow> RDone)"
| "session_result m (OpStaleCleanup sid c e) = RFlag (fst (conditional_stale_cleanup m sid c e))"
| "session_result m (OpTerminate sid) =
     (case fst (terminate m sid) of Inl x \<Rightarrow> RError x | Inr _ \<Rightarrow> RDone)"
| "session_result m (OpExpire sid) =
     (case fst (expire m sid) of Inl x \<Rightarrow> RError x | Inr _ \<Rightarrow> RDone)"

definition lease_of :: "session \<Rightarrow> lease" where
  "lease_of s =
     (if sess_state s = Expired \<or> sess_state s = Terminated then Gone
      else (case attached_conn_id s of
              None \<Rightarrow> Free (attach_epoch s)
            | Some c \<Rightarrow> Held c (attach_epoch s)))"

text \<open>
  C24: The registry refines the lease: on a well-formed registry every call for an existing
  session returns what the lease returns and leaves a session whose lease is the lease's next
  state.
\<close>

theorem registry_refines_lease:
  assumes "manager_wf m" and "m (op_target oper) = Some s"
  shows "\<exists>s'. session_exec m oper (op_target oper) = Some s' \<and>
    lease_call (lease_of s) oper = (session_result m oper, lease_of s')"
proof -
  have wf: "session_wf s" using manager_wfD [OF assms] by simp
  show ?thesis
  proof (cases "attached_conn_id s")
    case None
    then show ?thesis using assms(2)
      by (cases oper) (auto simp: session_ops lease_of_def Let_def)
  next
    case (Some h)
    with wf have "sess_state s = Attached" by (simp add: session_wf_def)
    with Some show ?thesis using assms(2)
      by (cases oper) (auto simp: session_ops lease_of_def Let_def)
  qed
qed

theorem registry_refines_lease_witness:
  "\<exists>s'. session_exec (create_session_with_id (\<lambda>_. None) 7 ''alice'' ''q'' ''fp'') (OpAttach 7 1) 7 = Some s' \<and>
    lease_of s' = Held 1 1"
proof -
  let ?m = "create_session_with_id (\<lambda>_. None) 7 ''alice'' ''q'' ''fp''"
  let ?s = "\<lparr>session_id = 7, owner_user_id = ''alice'', sess_quic_addr = ''q'',
    sess_cert_fingerprint = ''fp'', sess_state = Created, attached_conn_id = None, attach_epoch = 0\<rparr>"
  have "manager_wf ?m" by (simp add: session_ops manager_wf_def session_wf_def)
  moreover have "?m (op_target (OpAttach 7 1)) = Some ?s" by (simp add: session_ops)
  ultimately have "\<exists>s'. session_exec ?m (OpAttach 7 1) (op_target (OpAttach 7 1)) = Some s' \<and>
      lease_call (lease_of ?s) (OpAttach 7 1) = (session_result ?m (OpAttach 7 1), lease_of s')"
    by (rule registry_refines_lease)
  then show ?thesis by (auto simp: lease_of_def saturating_add_def)
qed

end
