(* ===== verification/Tokens.thy ===== *)
theory Tokens
  imports Neosh_Prelude
begin

text \<open>
  The token service (\<open>src/src/token/service.rs\<close>): opaque tokens stored by hash, single-use auth
  tokens, multi-use resume tokens, revocation and the sweep of expired records. SHA-256, the
  constant-time comparison and base64 are other crates, so they are the fields of a parameter;
  the random bytes, the \<open>jti\<close> and the clock are arguments.
\<close>

section \<open>State\<close>

record crypto =
  sha256 :: "bytes \<Rightarrow> bytes"
  ct_eq :: "bytes \<Rightarrow> bytes \<Rightarrow> bool"
  b64_url :: "bytes \<Rightarrow> string"

text \<open>The documented behaviour of \<open>subtle\<close>'s comparison.\<close>

definition ct_eq_exact :: "crypto \<Rightarrow> bool" where
  "ct_eq_exact C \<longleftrightarrow> (\<forall>a b. ct_eq C a b \<longleftrightarrow> a = b)"

datatype token_type = AuthToken | ResumeToken

record token_record =
  token_hash :: bytes
  tok_type :: token_type
  tok_session_id :: uuid
  tok_user_id :: string
  jti :: uuid
  expires_at :: system_time
  consumed_at :: "system_time option"
  revoked_at :: "system_time option"
  created_at :: system_time

datatype token_error =
    TokNotFound | TokExpired | TokRevoked | TokConsumed | TokBindingMismatch | TokTypeMismatch

text \<open>The \<open>Vec\<close> of records, in the order they were issued.\<close>

type_synonym token_service = "token_record list"

section \<open>Operations\<close>

text \<open>\<open>str::as_bytes\<close>.\<close>

definition as_bytes :: "string \<Rightarrow> bytes" where
  "as_bytes s = map of_char s"

definition hash_token :: "crypto \<Rightarrow> bytes \<Rightarrow> bytes" where
  "hash_token C raw = sha256 C raw"

text \<open>\<open>rnd\<close> is what the operating system put into the 32-byte buffer.\<close>

definition random_token :: "crypto \<Rightarrow> bytes \<Rightarrow> string" where
  "random_token C rnd = b64_url C rnd"

text \<open>\<open>None\<close> is the panic of \<open>now + ttl\<close>; it precedes the push of the record.\<close>

definition issue_token ::
  "crypto \<Rightarrow> token_service \<Rightarrow> token_type \<Rightarrow> uuid \<Rightarrow> string \<Rightarrow> duration \<Rightarrow> bytes \<Rightarrow> uuid \<Rightarrow> system_time
   \<Rightarrow> (string \<times> token_service) option" where
  "issue_token C svc ty sid user ttl rnd j now =
     (let raw = random_token C rnd;
          hash = hash_token C (as_bytes raw)
      in case system_time_add now ttl of
           None \<Rightarrow> None
         | Some exp \<Rightarrow>
             Some (raw, svc @ [\<lparr>token_hash = hash, tok_type = ty, tok_session_id = sid,
                                tok_user_id = user, jti = j, expires_at = exp,
                                consumed_at = None, revoked_at = None, created_at = now\<rparr>]))"

definition issue_auth_token ::
  "crypto \<Rightarrow> token_service \<Rightarrow> uuid \<Rightarrow> string \<Rightarrow> duration \<Rightarrow> bytes \<Rightarrow> uuid \<Rightarrow> system_time
   \<Rightarrow> (string \<times> token_service) option" where
  "issue_auth_token C svc sid user ttl rnd j now = issue_token C svc AuthToken sid user ttl rnd j now"

definition issue_resume_token ::
  "crypto \<Rightarrow> token_service \<Rightarrow> uuid \<Rightarrow> string \<Rightarrow> duration \<Rightarrow> bytes \<Rightarrow> uuid \<Rightarrow> system_time
   \<Rightarrow> (string \<times> token_service) option" where
  "issue_resume_token C svc sid user ttl rnd j now =
     issue_token C svc ResumeToken sid user ttl rnd j now"

text \<open>\<open>find_record_mut\<close> borrows the first matching record; an update through it changes that one.\<close>

definition token_matches :: "crypto \<Rightarrow> string \<Rightarrow> token_record \<Rightarrow> bool" where
  "token_matches C raw r = ct_eq C (token_hash r) (hash_token C (as_bytes raw))"

definition find_record :: "crypto \<Rightarrow> token_service \<Rightarrow> string \<Rightarrow> token_record option" where
  "find_record C svc raw = List.find (token_matches C raw) svc"

fun update_first :: "('a \<Rightarrow> bool) \<Rightarrow> ('a \<Rightarrow> 'a) \<Rightarrow> 'a list \<Rightarrow> 'a list" where
  "update_first P f [] = []"
| "update_first P f (x # xs) = (if P x then f x # xs else x # update_first P f xs)"

definition validate_and_consume_auth ::
  "crypto \<Rightarrow> token_service \<Rightarrow> string \<Rightarrow> uuid \<Rightarrow> string \<Rightarrow> system_time
   \<Rightarrow> (token_error + unit) \<times> token_service" where
  "validate_and_consume_auth C svc raw sid user now =
     (case find_record C svc raw of
        None \<Rightarrow> (Inl TokNotFound, svc)
      | Some r \<Rightarrow>
          if tok_type r \<noteq> AuthToken then (Inl TokTypeMismatch, svc)
          else if tok_session_id r \<noteq> sid \<or> tok_user_id r \<noteq> user then (Inl TokBindingMismatch, svc)
          else if expires_at r \<le> now then (Inl TokExpired, svc)
          else if revoked_at r \<noteq> None then (Inl TokRevoked, svc)
          else if consumed_at r \<noteq> None then (Inl TokConsumed, svc)
          else (Inr (), update_first (token_matches C raw) (\<lambda>r. r\<lparr>consumed_at := Some now\<rparr>) svc))"

definition validate_resume ::
  "crypto \<Rightarrow> token_service \<Rightarrow> string \<Rightarrow> uuid \<Rightarrow> string \<Rightarrow> system_time
   \<Rightarrow> (token_error + unit) \<times> token_service" where
  "validate_resume C svc raw sid user now =
     (case find_record C svc raw of
        None \<Rightarrow> (Inl TokNotFound, svc)
      | Some r \<Rightarrow>
          if tok_type r \<noteq> ResumeToken then (Inl TokTypeMismatch, svc)
          else if tok_session_id r \<noteq> sid \<or> tok_user_id r \<noteq> user then (Inl TokBindingMismatch, svc)
          else if expires_at r \<le> now then (Inl TokExpired, svc)
          else if revoked_at r \<noteq> None then (Inl TokRevoked, svc)
          else (Inr (), svc))"

definition revoke_token ::
  "crypto \<Rightarrow> token_service \<Rightarrow> string \<Rightarrow> system_time \<Rightarrow> (token_error + unit) \<times> token_service" where
  "revoke_token C svc raw now =
     (case find_record C svc raw of
        None \<Rightarrow> (Inl TokNotFound, svc)
      | Some r \<Rightarrow>
          (Inr (), update_first (token_matches C raw) (\<lambda>r. r\<lparr>revoked_at := Some now\<rparr>) svc))"

text \<open>Whether a time lies at most \<open>retention\<close> in the past; a time in the future counts as no.\<close>

definition too_recent :: "system_time \<Rightarrow> duration \<Rightarrow> system_time option \<Rightarrow> bool" where
  "too_recent now retention at =
     (case Option.bind at (duration_since now) of
        None \<Rightarrow> False
      | Some elapsed \<Rightarrow> elapsed \<le> retention)"

definition keep_record :: "system_time \<Rightarrow> duration \<Rightarrow> token_record \<Rightarrow> bool" where
  "keep_record now retention r =
     (if expires_at r > now then True
      else too_recent now retention (revoked_at r) \<or> too_recent now retention (consumed_at r))"

definition cleanup_expired :: "token_service \<Rightarrow> system_time \<Rightarrow> duration \<Rightarrow> token_service" where
  "cleanup_expired svc now retention = filter (keep_record now retention) svc"

section \<open>Lookups\<close>

lemma find_update_first:
  assumes "\<And>x. P (f x) = P x"
  shows "List.find P (update_first P f xs) = map_option f (List.find P xs)"
  by (induction xs) (auto simp: assms)

lemma find_update_first_other:
  assumes "\<And>x. P x \<Longrightarrow> \<not> Q x" and "\<And>x. Q (f x) = Q x"
  shows "List.find Q (update_first P f xs) = List.find Q xs"
  by (induction xs) (auto simp: assms)

lemma set_update_first: "set (update_first P f xs) \<subseteq> set xs \<union> f ` {x \<in> set xs. P x}"
  by (induction xs) auto

lemma map_update_first: "(\<And>x. h (f x) = h x) \<Longrightarrow> map h (update_first P f xs) = map h xs"
  by (induction xs) auto

lemma filter_update_first:
  "(\<And>x. Q (f x) = Q x) \<Longrightarrow> length (filter Q (update_first P f xs)) = length (filter Q xs)"
  by (induction xs) auto

lemma token_matches_upd [simp]:
  "token_matches C raw (r\<lparr>consumed_at := a\<rparr>) = token_matches C raw r"
  "token_matches C raw (r\<lparr>revoked_at := a\<rparr>) = token_matches C raw r"
  by (simp_all add: token_matches_def)

text \<open>When hashes are distinct a raw token names at most one record.\<close>

definition hashes_distinct :: "token_service \<Rightarrow> bool" where
  "hashes_distinct svc \<longleftrightarrow> distinct (map token_hash svc)"

lemma find_record_unique:
  assumes "ct_eq_exact C" and "hashes_distinct svc" and "r \<in> set svc" and "token_matches C raw r"
  shows "find_record C svc raw = Some r"
  using assms(2-)
proof (induction svc)
  case (Cons x svc)
  then show ?case using assms(1)
    by (auto simp: find_record_def hashes_distinct_def token_matches_def ct_eq_exact_def image_iff)
qed simp

lemma find_record_SomeD: "find_record C svc raw = Some r \<Longrightarrow> r \<in> set svc \<and> token_matches C raw r"
  by (auto simp: find_record_def dest: find_SomeD)

lemma hashes_distinct_filter [simp]: "hashes_distinct svc \<Longrightarrow> hashes_distinct (filter P svc)"
  by (simp add: hashes_distinct_def distinct_map_filter)

lemma find_record_cleanup:
  assumes "ct_eq_exact C" and "hashes_distinct svc"
  shows "find_record C (cleanup_expired svc now ret) raw =
    (case find_record C svc raw of
       None \<Rightarrow> None | Some r \<Rightarrow> if keep_record now ret r then Some r else None)"
proof (cases "find_record C svc raw")
  case None
  then have "find_record C (cleanup_expired svc now ret) raw = None"
    by (auto simp: find_record_def cleanup_expired_def find_None_iff)
  with None show ?thesis by simp
next
  case (Some r)
  then have r: "r \<in> set svc" "token_matches C raw r" by (auto dest: find_record_SomeD)
  show ?thesis
  proof (cases "keep_record now ret r")
    case True
    then have "find_record C (cleanup_expired svc now ret) raw = Some r"
      using r assms by (intro find_record_unique) (auto simp: cleanup_expired_def)
    with True Some show ?thesis by simp
  next
    case False
    have "r' = r" if "r' \<in> set svc" "token_matches C raw r'" for r'
      using find_record_unique [OF assms that] Some by simp
    with False have "find_record C (cleanup_expired svc now ret) raw = None"
      by (auto simp: find_record_def cleanup_expired_def find_None_iff)
    with False Some show ?thesis by simp
  qed
qed

section \<open>Histories\<close>

datatype token_op =
    TIssue token_type uuid string duration bytes uuid system_time
  | TAuth string uuid string system_time
  | TResume string uuid string system_time
  | TRevoke string system_time
  | TSweep system_time duration

text \<open>A panic of the issuing call leaves the records as they were.\<close>

fun token_exec :: "crypto \<Rightarrow> token_service \<Rightarrow> token_op \<Rightarrow> token_service" where
  "token_exec C svc (TIssue ty sid user ttl rnd j now) =
     (case issue_token C svc ty sid user ttl rnd j now of None \<Rightarrow> svc | Some (_, svc') \<Rightarrow> svc')"
| "token_exec C svc (TAuth raw sid user now) = snd (validate_and_consume_auth C svc raw sid user now)"
| "token_exec C svc (TResume raw sid user now) = snd (validate_resume C svc raw sid user now)"
| "token_exec C svc (TRevoke raw now) = snd (revoke_token C svc raw now)"
| "token_exec C svc (TSweep now ret) = cleanup_expired svc now ret"

fun auth_accepts :: "crypto \<Rightarrow> string \<Rightarrow> token_service \<Rightarrow> token_op \<Rightarrow> bool" where
  "auth_accepts C raw svc (TAuth raw' sid user now) =
     (raw' = raw \<and> fst (validate_and_consume_auth C svc raw' sid user now) = Inr ())"
| "auth_accepts C raw svc oper = False"

fun resume_accepts :: "crypto \<Rightarrow> string \<Rightarrow> token_service \<Rightarrow> token_op \<Rightarrow> bool" where
  "resume_accepts C raw svc (TResume raw' sid user now) =
     (raw' = raw \<and> fst (validate_resume C svc raw' sid user now) = Inr ())"
| "resume_accepts C raw svc oper = False"

text \<open>How often an event happens in a run.\<close>

fun count_events :: "('s \<Rightarrow> 'op \<Rightarrow> 's) \<Rightarrow> ('s \<Rightarrow> 'op \<Rightarrow> bool) \<Rightarrow> 's \<Rightarrow> 'op list \<Rightarrow> nat" where
  "count_events exec ev s [] = 0"
| "count_events exec ev s (oper # ops) =
     (if ev s oper then 1 else 0) + count_events exec ev (exec s oper) ops"

text \<open>
  A credential with a state that excludes its acceptance for good. It is \<open>single_use\<close> when the
  acceptance itself leads into that state.
\<close>

locale excludable =
  fixes exec :: "'s \<Rightarrow> 'op \<Rightarrow> 's"
    and accepts :: "'s \<Rightarrow> 'op \<Rightarrow> bool"
    and ready :: "'s \<Rightarrow> bool"
    and spent :: "'s \<Rightarrow> bool"
    and allowed :: "'op \<Rightarrow> bool"
  assumes ready_stays: "ready s \<Longrightarrow> allowed oper \<Longrightarrow> ready (exec s oper)"
    and spent_stays: "ready s \<Longrightarrow> spent s \<Longrightarrow> allowed oper \<Longrightarrow> spent (exec s oper)"
    and spent_rejects: "spent s \<Longrightarrow> \<not> accepts s oper"
begin

lemma spent_never_accepts:
  "ready s \<Longrightarrow> spent s \<Longrightarrow> \<forall>oper\<in>set ops. allowed oper \<Longrightarrow> count_events exec accepts s ops = 0"
  by (induction ops arbitrary: s) (auto simp: spent_rejects ready_stays spent_stays)

lemma ready_run: "ready s \<Longrightarrow> \<forall>oper\<in>set ops. allowed oper \<Longrightarrow> ready (foldl exec s ops)"
  by (induction ops arbitrary: s) (auto simp: ready_stays)

lemma spent_run:
  "ready s \<Longrightarrow> spent s \<Longrightarrow> \<forall>oper\<in>set ops. allowed oper \<Longrightarrow> spent (foldl exec s ops)"
  by (induction ops arbitrary: s) (auto simp: ready_stays spent_stays)

end

locale single_use = excludable exec accepts ready spent allowed
  for exec :: "'s \<Rightarrow> 'op \<Rightarrow> 's" and accepts ready spent allowed +
  assumes accept_spends: "ready s \<Longrightarrow> allowed oper \<Longrightarrow> accepts s oper \<Longrightarrow> spent (exec s oper)"
begin

lemma accepted_at_most_once:
  "ready s \<Longrightarrow> \<forall>oper\<in>set ops. allowed oper \<Longrightarrow> count_events exec accepts s ops \<le> 1"
proof (induction ops arbitrary: s)
  case (Cons oper ops)
  then have r: "ready (exec s oper)" by (simp add: ready_stays)
  show ?case
  proof (cases "accepts s oper")
    case True
    then have "spent (exec s oper)" using Cons.prems by (simp add: accept_spends)
    then show ?thesis using True r Cons.prems by (simp add: spent_never_accepts)
  next
    case False
    then show ?thesis using Cons r by simp
  qed
qed simp

end

text \<open>
  The records of one raw token: at most one at any time, since operations that would issue the
  same hash again are excluded (32 random bytes).
\<close>

definition one_record :: "crypto \<Rightarrow> string \<Rightarrow> token_service \<Rightarrow> bool" where
  "one_record C raw svc \<longleftrightarrow> length (filter (token_matches C raw) svc) \<le> 1"

fun issues_other :: "crypto \<Rightarrow> string \<Rightarrow> token_op \<Rightarrow> bool" where
  "issues_other C raw (TIssue ty sid user ttl rnd j now) =
     (\<not> ct_eq C (hash_token C (as_bytes (random_token C rnd))) (hash_token C (as_bytes raw)))"
| "issues_other C raw oper = True"

definition all_consumed :: "crypto \<Rightarrow> string \<Rightarrow> token_service \<Rightarrow> bool" where
  "all_consumed C raw svc \<longleftrightarrow> (\<forall>r\<in>set svc. token_matches C raw r \<longrightarrow> consumed_at r \<noteq> None)"

definition all_revoked :: "crypto \<Rightarrow> string \<Rightarrow> token_service \<Rightarrow> bool" where
  "all_revoked C raw svc \<longleftrightarrow> (\<forall>r\<in>set svc. token_matches C raw r \<longrightarrow> revoked_at r \<noteq> None)"

lemmas token_ops =
  validate_and_consume_auth_def validate_resume_def revoke_token_def cleanup_expired_def

lemma issue_token_Some:
  "issue_token C svc ty sid user ttl rnd j now = Some (raw, svc') \<Longrightarrow>
   \<exists>r. svc' = svc @ [r] \<and> token_hash r = hash_token C (as_bytes (random_token C rnd)) \<and>
     raw = random_token C rnd \<and> tok_type r = ty \<and> tok_session_id r = sid \<and> tok_user_id r = user \<and>
     expires_at r = now + int ttl \<and> consumed_at r = None \<and> revoked_at r = None \<and> created_at r = now"
  by (auto simp: issue_token_def Let_def dest: system_time_add_SomeD split: option.splits)

lemma one_record_exec:
  assumes "one_record C raw svc" and "issues_other C raw oper"
  shows "one_record C raw (token_exec C svc oper)"
proof (cases oper)
  case (TIssue ty sid user ttl rnd j now)
  then show ?thesis using assms
    by (auto simp: one_record_def token_matches_def dest!: issue_token_Some split: option.splits)
next
  case (TSweep now ret)
  have "length (filter (token_matches C raw) (filter P svc)) \<le> length (filter (token_matches C raw) svc)"
    for P by (induction svc) auto
  then show ?thesis using assms(1) TSweep le_trans by (fastforce simp: one_record_def token_ops)
qed (use assms in \<open>auto simp: one_record_def token_ops filter_update_first split: option.splits\<close>)

lemma all_consumed_exec:
  assumes "all_consumed C raw svc" and "issues_other C raw oper"
  shows "all_consumed C raw (token_exec C svc oper)"
proof (cases oper)
  case (TIssue ty sid user ttl rnd j now)
  then show ?thesis using assms
    by (auto simp: all_consumed_def token_matches_def dest!: issue_token_Some split: option.splits)
qed (use assms in \<open>auto simp: all_consumed_def token_ops split: option.splits dest!: set_mp [OF set_update_first]\<close>)

lemma all_revoked_exec:
  assumes "all_revoked C raw svc" and "issues_other C raw oper"
  shows "all_revoked C raw (token_exec C svc oper)"
proof (cases oper)
  case (TIssue ty sid user ttl rnd j now)
  then show ?thesis using assms
    by (auto simp: all_revoked_def token_matches_def dest!: issue_token_Some split: option.splits)
qed (use assms in \<open>auto simp: all_revoked_def token_ops split: option.splits dest!: set_mp [OF set_update_first]\<close>)

lemma update_one_record:
  assumes "one_record C raw svc" and "r \<in> set (update_first (token_matches C raw) f svc)"
    and "token_matches C raw r" and "\<And>x. token_matches C raw (f x) = token_matches C raw x"
  shows "\<exists>x. r = f x"
  using assms(1-3)
proof (induction svc)
  case (Cons x svc)
  show ?case
  proof (cases "token_matches C raw x")
    case True
    with Cons.prems(1) have "filter (token_matches C raw) svc = []" by (simp add: one_record_def)
    with Cons.prems True show ?thesis by (auto simp: filter_empty_conv)
  next
    case False
    with Cons show ?thesis by (auto simp: one_record_def)
  qed
qed simp

interpretation auth_token_life: single_use "token_exec C" "auth_accepts C raw"
  "one_record C raw" "all_consumed C raw" "issues_other C raw"
  for C :: crypto and raw :: string
proof unfold_locales
  fix svc oper
  assume one: "one_record C raw svc" and acc: "auth_accepts C raw svc oper"
  from acc obtain sid user now where oper: "oper = TAuth raw sid user now"
    and ok: "fst (validate_and_consume_auth C svc raw sid user now) = Inr ()"
    by (cases oper) auto
  let ?f = "\<lambda>r. r\<lparr>consumed_at := Some now\<rparr>"
  from ok have "token_exec C svc oper = update_first (token_matches C raw) ?f svc"
    by (auto simp: oper validate_and_consume_auth_def split: option.splits if_splits)
  then show "all_consumed C raw (token_exec C svc oper)"
    using update_one_record [OF one, of _ ?f] by (fastforce simp: all_consumed_def)
next
  fix svc oper
  assume "all_consumed C raw svc"
  then show "\<not> auth_accepts C raw svc oper"
    by (cases oper) (auto simp: all_consumed_def validate_and_consume_auth_def
      dest!: find_record_SomeD split: option.splits if_splits)
qed (auto intro: one_record_exec all_consumed_exec)

interpretation revoked_auth: excludable "token_exec C" "auth_accepts C raw"
  "one_record C raw" "all_revoked C raw" "issues_other C raw"
  for C :: crypto and raw :: string
proof unfold_locales
  fix svc oper
  assume "all_revoked C raw svc"
  then show "\<not> auth_accepts C raw svc oper"
    by (cases oper) (auto simp: all_revoked_def validate_and_consume_auth_def
      dest!: find_record_SomeD split: option.splits if_splits)
qed (auto intro: one_record_exec all_revoked_exec)

interpretation revoked_resume: excludable "token_exec C" "resume_accepts C raw"
  "one_record C raw" "all_revoked C raw" "issues_other C raw"
  for C :: crypto and raw :: string
proof unfold_locales
  fix svc oper
  assume "all_revoked C raw svc"
  then show "\<not> resume_accepts C raw svc oper"
    by (cases oper) (auto simp: all_revoked_def validate_resume_def
      dest!: find_record_SomeD split: option.splits if_splits)
qed (auto intro: one_record_exec all_revoked_exec)

section \<open>Acceptance\<close>

lemma auth_ok_iff:
  "fst (validate_and_consume_auth C svc raw sid user now) = Inr () \<longleftrightarrow>
   (\<exists>r. find_record C svc raw = Some r \<and> tok_type r = AuthToken \<and> tok_session_id r = sid \<and>
      tok_user_id r = user \<and> now < expires_at r \<and> revoked_at r = None \<and> consumed_at r = None)"
  by (auto simp: validate_and_consume_auth_def split: option.splits)

lemma resume_ok_iff:
  "fst (validate_resume C svc raw sid user now) = Inr () \<longleftrightarrow>
   (\<exists>r. find_record C svc raw = Some r \<and> tok_type r = ResumeToken \<and> tok_session_id r = sid \<and>
      tok_user_id r = user \<and> now < expires_at r \<and> revoked_at r = None)"
  by (auto simp: validate_resume_def split: option.splits)

lemma validate_resume_keeps [simp]: "snd (validate_resume C svc raw sid user now) = svc"
  by (simp add: validate_resume_def split: option.split)

lemma auth_rejected_keeps:
  "fst (validate_and_consume_auth C svc raw sid user now) = Inl e \<Longrightarrow>
   snd (validate_and_consume_auth C svc raw sid user now) = svc"
  by (auto simp: validate_and_consume_auth_def split: option.splits if_splits)

lemma auth_ok_after:
  "fst (validate_and_consume_auth C svc raw sid user now) = Inr () \<Longrightarrow>
   snd (validate_and_consume_auth C svc raw sid user now) =
     update_first (token_matches C raw) (\<lambda>r. r\<lparr>consumed_at := Some now\<rparr>) svc"
  by (auto simp: validate_and_consume_auth_def split: option.splits if_splits)

text \<open>
  Auth tokens are single use: over any history of the service in which no other issued token
  has the same hash, a raw auth token is accepted at most once, by whatever session and user and
  at whatever times it is presented, and however records are swept in between.
\<close>

theorem auth_token_single_use:
  assumes "one_record C raw svc" and "\<forall>oper\<in>set ops. issues_other C raw oper"
  shows "count_events (token_exec C) (auth_accepts C raw) svc ops \<le> 1"
  using assms by (rule auth_token_life.accepted_at_most_once)

definition demo_crypto :: crypto where
  "demo_crypto = \<lparr>sha256 = (\<lambda>b. b), ct_eq = (=), b64_url = map (\<lambda>b. char_of (unat b))\<rparr>"

definition demo_record :: "token_type \<Rightarrow> string \<Rightarrow> token_record" where
  "demo_record ty raw = \<lparr>token_hash = as_bytes raw, tok_type = ty, tok_session_id = 7,
     tok_user_id = ''alice'', jti = 1, expires_at = 100, consumed_at = None, revoked_at = None,
     created_at = 0\<rparr>"

lemmas demo_simps = demo_crypto_def demo_record_def token_matches_def hash_token_def as_bytes_def
  find_record_def

lemma demo_ct_eq_exact [simp]: "ct_eq_exact demo_crypto"
  by (simp add: ct_eq_exact_def demo_crypto_def)

theorem auth_token_single_use_witness:
  "count_events (token_exec demo_crypto) (auth_accepts demo_crypto ''t'') [demo_record AuthToken ''t'']
     [TAuth ''t'' 7 ''alice'' 10, TSweep 200 5, TAuth ''t'' 7 ''alice'' 20] \<le> 1 \<and>
   auth_accepts demo_crypto ''t'' [demo_record AuthToken ''t''] (TAuth ''t'' 7 ''alice'' 10)"
proof
  show "count_events (token_exec demo_crypto) (auth_accepts demo_crypto ''t'') [demo_record AuthToken ''t'']
     [TAuth ''t'' 7 ''alice'' 10, TSweep 200 5, TAuth ''t'' 7 ''alice'' 20] \<le> 1"
    by (rule auth_token_single_use) (simp_all add: one_record_def)
  show "auth_accepts demo_crypto ''t'' [demo_record AuthToken ''t''] (TAuth ''t'' 7 ''alice'' 10)"
    by (simp add: auth_ok_iff) (simp add: demo_simps)
qed

text \<open>
  Revocation is final: once \<open>revoke_token\<close> has returned \<open>Ok\<close> the token is never accepted again,
  neither as an auth token nor as a resume token.
\<close>

theorem revocation_is_final:
  assumes "one_record C raw svc" and "revoke_token C svc raw now = (Inr (), svc')"
    and "\<forall>oper\<in>set ops. issues_other C raw oper"
  shows "count_events (token_exec C) (auth_accepts C raw) svc' ops = 0 \<and>
    count_events (token_exec C) (resume_accepts C raw) svc' ops = 0"
proof -
  let ?f = "\<lambda>r. r\<lparr>revoked_at := Some now\<rparr>"
  have svc': "svc' = update_first (token_matches C raw) ?f svc"
    using assms(2) by (auto simp: revoke_token_def split: option.splits)
  have one: "one_record C raw svc'"
    using assms(1) by (simp add: svc' one_record_def filter_update_first)
  have "all_revoked C raw svc'"
    using update_one_record [OF assms(1), of _ ?f] by (fastforce simp: svc' all_revoked_def)
  then show ?thesis
    using one assms(3) revoked_auth.spent_never_accepts revoked_resume.spent_never_accepts by blast
qed

theorem revocation_is_final_witness:
  "count_events (token_exec demo_crypto) (resume_accepts demo_crypto ''t'')
     (snd (revoke_token demo_crypto [demo_record ResumeToken ''t''] ''t'' 5))
     [TResume ''t'' 7 ''alice'' 10] = 0 \<and>
   resume_accepts demo_crypto ''t'' [demo_record ResumeToken ''t''] (TResume ''t'' 7 ''alice'' 10)"
proof -
  let ?svc = "[demo_record ResumeToken ''t'']"
  have "revoke_token demo_crypto ?svc ''t'' 5 = (Inr (), snd (revoke_token demo_crypto ?svc ''t'' 5))"
    by (simp add: revoke_token_def demo_simps)
  then have "count_events (token_exec demo_crypto) (resume_accepts demo_crypto ''t'')
     (snd (revoke_token demo_crypto ?svc ''t'' 5)) [TResume ''t'' 7 ''alice'' 10] = 0"
    using revocation_is_final [of demo_crypto "''t''" ?svc 5 _ "[TResume ''t'' 7 ''alice'' 10]"]
    by (simp add: one_record_def)
  moreover have "resume_accepts demo_crypto ''t'' ?svc (TResume ''t'' 7 ''alice'' 10)"
    by (simp add: resume_ok_iff) (simp add: demo_simps)
  ultimately show ?thesis by blast
qed

text \<open>
  The sweep decides nothing: at any time from the sweep on, a token is accepted after the
  sweep exactly if it would have been accepted without it. (A rejected token may be reported as
  unknown instead of expired.)
\<close>

theorem sweep_keeps_acceptance:
  assumes "ct_eq_exact C" and "hashes_distinct svc" and "now \<le> now'"
  shows "(fst (validate_and_consume_auth C (cleanup_expired svc now ret) raw sid user now') = Inr () \<longleftrightarrow>
      fst (validate_and_consume_auth C svc raw sid user now') = Inr ()) \<and>
    (fst (validate_resume C (cleanup_expired svc now ret) raw sid user now') = Inr () \<longleftrightarrow>
      fst (validate_resume C svc raw sid user now') = Inr ())"
proof -
  have "keep_record now ret r" if "now' < expires_at r" for r
    using that assms(3) by (simp add: keep_record_def)
  then show ?thesis
    by (auto simp: auth_ok_iff resume_ok_iff find_record_cleanup [OF assms(1,2)] split: option.splits)
qed

theorem sweep_keeps_acceptance_witness:
  "fst (validate_resume demo_crypto (cleanup_expired [demo_record ResumeToken ''t''] 50 5)
     ''t'' 7 ''alice'' 60) = Inr ()"
proof -
  have "hashes_distinct [demo_record ResumeToken ''t'']" by (simp add: hashes_distinct_def)
  then have "fst (validate_resume demo_crypto (cleanup_expired [demo_record ResumeToken ''t''] 50 5)
      ''t'' 7 ''alice'' 60) = Inr () \<longleftrightarrow>
    fst (validate_resume demo_crypto [demo_record ResumeToken ''t''] ''t'' 7 ''alice'' 60) = Inr ()"
    using sweep_keeps_acceptance [of demo_crypto "[demo_record ResumeToken ''t'']" 50 60 5 "''t''" 7 "''alice''"]
    by simp
  then show ?thesis by (simp add: resume_ok_iff) (simp add: demo_simps)
qed

section \<open>A token stays usable\<close>

definition usable ::
  "crypto \<Rightarrow> token_type \<Rightarrow> string \<Rightarrow> uuid \<Rightarrow> string \<Rightarrow> system_time \<Rightarrow> token_service \<Rightarrow> bool" where
  "usable C ty raw sid user exp svc \<longleftrightarrow>
     (\<exists>r. find_record C svc raw = Some r \<and> tok_type r = ty \<and> tok_session_id r = sid \<and>
        tok_user_id r = user \<and> expires_at r = exp \<and> revoked_at r = None \<and>
        (ty = AuthToken \<longrightarrow> consumed_at r = None))"

text \<open>Operations that neither use up, revoke nor outlive the token.\<close>

fun spares :: "crypto \<Rightarrow> token_type \<Rightarrow> string \<Rightarrow> system_time \<Rightarrow> token_op \<Rightarrow> bool" where
  "spares C ty raw exp (TAuth raw' sid user now) =
     (ty = ResumeToken \<or> hash_token C (as_bytes raw') \<noteq> hash_token C (as_bytes raw))"
| "spares C ty raw exp (TRevoke raw' now) =
     (hash_token C (as_bytes raw') \<noteq> hash_token C (as_bytes raw))"
| "spares C ty raw exp (TSweep now ret) = (now < exp)"
| "spares C ty raw exp oper = True"

lemma find_append_Some: "List.find P xs = Some x \<Longrightarrow> List.find P (xs @ ys) = Some x"
  by (induction xs) auto

lemma matches_other_hash:
  assumes "ct_eq_exact C" and "hash_token C (as_bytes raw') \<noteq> hash_token C (as_bytes raw)"
  shows "token_matches C raw' r \<Longrightarrow> \<not> token_matches C raw r"
  using assms by (auto simp: token_matches_def ct_eq_exact_def)

lemma find_record_update_other:
  assumes "ct_eq_exact C" and "hash_token C (as_bytes raw') \<noteq> hash_token C (as_bytes raw)"
    and "\<And>r. token_matches C raw (f r) = token_matches C raw r"
  shows "find_record C (update_first (token_matches C raw') f svc) raw = find_record C svc raw"
  unfolding find_record_def
  using matches_other_hash [OF assms(1,2)] assms(3) by (rule find_update_first_other)

lemma find_filter_keeps: "List.find P xs = Some x \<Longrightarrow> Q x \<Longrightarrow> List.find P (filter Q xs) = Some x"
  by (induction xs) (auto split: if_splits)

text \<open>An accepted auth token has another hash than a resume token that is on record.\<close>

lemma usable_resume_not_auth:
  assumes "usable C ResumeToken raw sid user exp svc"
    and "hash_token C (as_bytes raw') = hash_token C (as_bytes raw)"
  shows "snd (validate_and_consume_auth C svc raw' sid' user' now) = svc"
proof -
  have "token_matches C raw' = token_matches C raw"
    by (simp add: token_matches_def assms(2) fun_eq_iff)
  then have "find_record C svc raw' = find_record C svc raw" by (simp add: find_record_def)
  with assms(1) show ?thesis
    by (auto simp: usable_def validate_and_consume_auth_def split: option.splits)
qed

lemma usable_exec:
  assumes C: "ct_eq_exact C" and u: "usable C ty raw sid user exp svc" and sp: "spares C ty raw exp oper"
  shows "usable C ty raw sid user exp (token_exec C svc oper)"
proof (cases oper)
  case (TIssue ty' sid' user' ttl rnd j now)
  then show ?thesis using u
    by (auto simp: usable_def find_record_def dest!: issue_token_Some
      split: option.splits intro!: find_append_Some)
next
  case (TAuth raw' sid' user' now)
  show ?thesis
  proof (cases "hash_token C (as_bytes raw') = hash_token C (as_bytes raw)")
    case True
    with sp TAuth have "ty = ResumeToken" by simp
    with u True TAuth show ?thesis by (simp add: usable_resume_not_auth)
  next
    case False
    then show ?thesis using u TAuth find_record_update_other [OF C False]
      by (auto simp: validate_and_consume_auth_def usable_def split: option.split)
  qed
next
  case (TRevoke raw' now)
  with sp have "hash_token C (as_bytes raw') \<noteq> hash_token C (as_bytes raw)" by simp
  then show ?thesis using u TRevoke find_record_update_other [OF C]
    by (auto simp: revoke_token_def usable_def split: option.split)
next
  case (TSweep now ret)
  then show ?thesis using u sp
    by (auto simp: usable_def find_record_def cleanup_expired_def keep_record_def
      intro!: find_filter_keeps)
qed (use u in simp)

lemma usable_run:
  assumes "ct_eq_exact C" and "usable C ty raw sid user exp svc"
    and "\<forall>oper\<in>set ops. spares C ty raw exp oper"
  shows "usable C ty raw sid user exp (foldl (token_exec C) svc ops)"
  using assms(2,3) by (induction ops arbitrary: svc) (auto intro: usable_exec [OF assms(1)])

lemma usable_issued:
  assumes "issue_token C svc ty sid user ttl rnd j now = Some (raw, svc')"
    and "ct_eq_exact C" and "find_record C svc raw = None"
  shows "usable C ty raw sid user (now + int ttl) svc'"
proof -
  obtain r where r: "svc' = svc @ [r]" "token_hash r = hash_token C (as_bytes raw)"
      "tok_type r = ty" "tok_session_id r = sid" "tok_user_id r = user"
      "expires_at r = now + int ttl" "consumed_at r = None" "revoked_at r = None"
    using issue_token_Some [OF assms(1)] by auto
  have "token_matches C raw r" using assms(2) r(2) by (simp add: token_matches_def ct_eq_exact_def)
  moreover have "List.find P (svc @ [r]) = (if P r then Some r else None)" if "List.find P svc = None" for P
    using that by (induction svc) (auto split: if_splits)
  ultimately have "find_record C svc' raw = Some r"
    using assms(3) r(1) by (simp add: find_record_def)
  with r show ?thesis by (simp add: usable_def)
qed

text \<open>
  A fresh token works: an issued token is accepted for its session and user at any time before
  its expiry, whatever else the service did since, unless the history revoked it, swept at or
  after its expiry or (auth tokens) presented it before.
\<close>

theorem issued_token_accepted:
  assumes "issue_token C svc ty sid user ttl rnd j now = Some (raw, svc')"
    and "ct_eq_exact C" and "find_record C svc raw = None"
    and "\<forall>oper\<in>set ops. spares C ty raw (now + int ttl) oper"
    and "now' < now + int ttl"
  shows "(case ty of
      AuthToken \<Rightarrow> fst (validate_and_consume_auth C (foldl (token_exec C) svc' ops) raw sid user now')
    | ResumeToken \<Rightarrow> fst (validate_resume C (foldl (token_exec C) svc' ops) raw sid user now')) = Inr ()"
proof -
  have "usable C ty raw sid user (now + int ttl) (foldl (token_exec C) svc' ops)"
    by (rule usable_run [OF assms(2) usable_issued [OF assms(1-3)] assms(4)])
  then show ?thesis using assms(5)
    by (auto simp: usable_def auth_ok_iff resume_ok_iff split: token_type.split)
qed

theorem issued_token_accepted_witness:
  "\<exists>svc'. issue_token demo_crypto [demo_record AuthToken ''t''] ResumeToken 7 ''alice'' 60 [65] 2 10 =
      Some (''A'', svc') \<and>
    fst (validate_resume demo_crypto
      (foldl (token_exec demo_crypto) svc' [TAuth ''t'' 7 ''alice'' 20, TSweep 69 0]) ''A'' 7 ''alice'' 69) = Inr ()"
proof -
  let ?svc = "[demo_record AuthToken ''t'']"
  obtain svc' where i: "issue_token demo_crypto ?svc ResumeToken 7 ''alice'' 60 [65] 2 10 = Some (''A'', svc')"
    by (simp add: issue_token_def random_token_def system_time_add_def nanos_per_sec_def
        demo_crypto_def Let_def char_of_def bit_0)
  have "(case ResumeToken of
      AuthToken \<Rightarrow> fst (validate_and_consume_auth demo_crypto
        (foldl (token_exec demo_crypto) svc' [TAuth ''t'' 7 ''alice'' 20, TSweep 69 0]) ''A'' 7 ''alice'' 69)
    | ResumeToken \<Rightarrow> fst (validate_resume demo_crypto
        (foldl (token_exec demo_crypto) svc' [TAuth ''t'' 7 ''alice'' 20, TSweep 69 0]) ''A'' 7 ''alice'' 69)) = Inr ()"
    by (rule issued_token_accepted [OF i]) (simp_all add: demo_simps ct_eq_exact_def)
  with i show ?thesis by auto
qed

end
