(* ===== verification/Runtime.thy ===== *)
theory Runtime
  imports Sessions Tokens
begin

text \<open>
  The in-memory runtime of the library crate (\<open>src/src/runtime.rs\<close>): it owns a session registry and
  a token service and hands out bootstrap data. The fresh identifiers, random bytes and clock
  readings of a call are grouped in a record.
\<close>

record runtime_config =
  cfg_auth_token_ttl :: duration
  cfg_bind_addr :: string

definition runtime_config_default :: runtime_config where
  "runtime_config_default =
     \<lparr>cfg_auth_token_ttl = duration_from_secs 60, cfg_bind_addr = ''127.0.0.1:30000''\<rparr>"

record bootstrap_output =
  bo_session_id :: uuid
  bo_auth_token :: string
  bo_auth_token_expires_in_seconds :: u64
  bo_quic_addr :: string
  bo_cert_fingerprint :: string

datatype runtime_error = SessionErr session_error | TokenErr token_error

record neoshd_runtime =
  rt_sessions :: session_manager
  rt_tokens :: token_service
  rt_config :: runtime_config

text \<open>What the environment supplies to one issuing call.\<close>

record issue_env =
  env_rnd :: bytes
  env_jti :: uuid
  env_now :: system_time

definition with_config :: "runtime_config \<Rightarrow> neoshd_runtime" where
  "with_config cfg = \<lparr>rt_sessions = (\<lambda>_. None), rt_tokens = [], rt_config = cfg\<rparr>"

text \<open>The token is issued before the session is looked up. \<open>None\<close> is a panic.\<close>

definition issue_bootstrap_for_session ::
  "crypto \<Rightarrow> issue_env \<Rightarrow> neoshd_runtime \<Rightarrow> uuid \<Rightarrow> string
   \<Rightarrow> ((runtime_error + bootstrap_output) \<times> neoshd_runtime) option" where
  "issue_bootstrap_for_session C env rt sid user =
     (case issue_auth_token C (rt_tokens rt) sid user (cfg_auth_token_ttl (rt_config rt))
             (env_rnd env) (env_jti env) (env_now env) of
        None \<Rightarrow> None
      | Some (auth_token, svc) \<Rightarrow>
          let rt' = rt\<lparr>rt_tokens := svc\<rparr>
          in case get_session (rt_sessions rt') sid of
               None \<Rightarrow> Some (Inl (SessionErr NotFound), rt')
             | Some s \<Rightarrow>
                 Some (Inr \<lparr>bo_session_id = sid, bo_auth_token = auth_token,
                            bo_auth_token_expires_in_seconds =
                              duration_as_secs (cfg_auth_token_ttl (rt_config rt)),
                            bo_quic_addr = sess_quic_addr s,
                            bo_cert_fingerprint = sess_cert_fingerprint s\<rparr>, rt'))"

text \<open>The \<open>expect\<close> on the result is the other panic.\<close>

definition new_session ::
  "crypto \<Rightarrow> issue_env \<Rightarrow> uuid \<Rightarrow> neoshd_runtime \<Rightarrow> string
   \<Rightarrow> (bootstrap_output \<times> neoshd_runtime) option" where
  "new_session C env fresh rt user =
     (let (sid, m) = create_session (rt_sessions rt) fresh user (cfg_bind_addr (rt_config rt))
                       ''sha256:local-dev-fingerprint'';
          rt1 = rt\<lparr>rt_sessions := m\<rparr>
      in case issue_bootstrap_for_session C env rt1 sid user of
           None \<Rightarrow> None
         | Some (Inl e, rt2) \<Rightarrow> None
         | Some (Inr out, rt2) \<Rightarrow> Some (out, rt2))"

definition renew_auth ::
  "crypto \<Rightarrow> issue_env \<Rightarrow> neoshd_runtime \<Rightarrow> uuid \<Rightarrow> string
   \<Rightarrow> ((runtime_error + bootstrap_output) \<times> neoshd_runtime) option" where
  "renew_auth C env rt sid user =
     (case assert_owner (rt_sessions rt) sid user of
        Inl e \<Rightarrow> Some (Inl (SessionErr e), rt)
      | Inr _ \<Rightarrow> issue_bootstrap_for_session C env rt sid user)"

lemmas runtime_ops = issue_bootstrap_for_session_def new_session_def renew_auth_def

section \<open>What the calls hand out\<close>

lemma issue_bootstrap_result:
  assumes "issue_bootstrap_for_session C env rt sid user = Some (Inr out, rt')"
  shows "\<exists>s. rt_sessions rt sid = Some s \<and> rt_sessions rt' = rt_sessions rt \<and> rt_config rt' = rt_config rt \<and>
    issue_token C (rt_tokens rt) AuthToken sid user (cfg_auth_token_ttl (rt_config rt))
      (env_rnd env) (env_jti env) (env_now env) = Some (bo_auth_token out, rt_tokens rt') \<and>
    bo_session_id out = sid \<and> bo_quic_addr out = sess_quic_addr s \<and>
    bo_cert_fingerprint out = sess_cert_fingerprint s"
  using assms
  by (auto simp: issue_bootstrap_for_session_def issue_auth_token_def get_session_def Let_def
      split: option.splits)

text \<open>
  A renewal is granted to the owner of an existing session only, and it keeps the session:
  the output names the same session with the address and fingerprint on record, and nothing but
  the token service changes. Everyone else is refused without any token being issued.
\<close>

theorem renew_auth_owner_only:
  "(\<forall>out rt'. renew_auth C env rt sid user = Some (Inr out, rt') \<longrightarrow>
      (\<exists>s. rt_sessions rt sid = Some s \<and> owner_user_id s = user \<and> bo_session_id out = sid \<and>
        bo_quic_addr out = sess_quic_addr s \<and> bo_cert_fingerprint out = sess_cert_fingerprint s \<and>
        rt_sessions rt' = rt_sessions rt)) \<and>
   (\<forall>e rt'. renew_auth C env rt sid user = Some (Inl e, rt') \<longrightarrow>
      rt' = rt \<and> e = SessionErr (if rt_sessions rt sid = None then NotFound else PermissionDenied))"
proof (cases "assert_owner (rt_sessions rt) sid user")
  case (Inl e)
  then show ?thesis by (auto simp: renew_auth_def assert_owner_def split: option.splits if_splits)
next
  case (Inr u)
  then obtain s where s: "rt_sessions rt sid = Some s" "owner_user_id s = user"
    by (auto simp: assert_owner_def split: option.splits if_splits)
  have r: "renew_auth C env rt sid user = issue_bootstrap_for_session C env rt sid user"
    using Inr by (simp add: renew_auth_def)
  have "issue_bootstrap_for_session C env rt sid user \<noteq> Some (Inl e, rt')" for e rt'
    using s(1) by (auto simp: issue_bootstrap_for_session_def get_session_def Let_def split: option.splits)
  then show ?thesis using s by (auto simp: r dest: issue_bootstrap_result)
qed

definition demo_runtime :: neoshd_runtime where
  "demo_runtime = (with_config runtime_config_default)\<lparr>rt_sessions :=
     create_session_with_id (\<lambda>_. None) 7 ''alice'' ''q'' ''fp''\<rparr>"

theorem renew_auth_owner_only_witness:
  "(\<exists>out rt'. renew_auth demo_crypto \<lparr>env_rnd = [65], env_jti = 1, env_now = 0\<rparr> demo_runtime 7 ''alice'' =
      Some (Inr out, rt') \<and> bo_session_id out = 7) \<and>
   renew_auth demo_crypto \<lparr>env_rnd = [65], env_jti = 1, env_now = 0\<rparr> demo_runtime 7 ''bob'' =
      Some (Inl (SessionErr PermissionDenied), demo_runtime)"
proof -
  let ?env = "\<lparr>env_rnd = [65], env_jti = 1, env_now = 0\<rparr>"
  obtain out rt' where o: "renew_auth demo_crypto ?env demo_runtime 7 ''alice'' = Some (Inr out, rt')"
    by (simp add: renew_auth_def demo_runtime_def assert_owner_def session_ops issue_bootstrap_for_session_def
        issue_auth_token_def issue_token_def system_time_add_def with_config_def runtime_config_default_def
        duration_from_secs_def nanos_per_sec_def Let_def)
  moreover have "bo_session_id out = 7" using renew_auth_owner_only o by blast
  moreover obtain e rt'' where "renew_auth demo_crypto ?env demo_runtime 7 ''bob'' = Some (Inl e, rt'')"
    by (simp add: renew_auth_def demo_runtime_def session_ops)
  moreover from this have "rt'' = demo_runtime \<and>
      e = SessionErr (if rt_sessions demo_runtime 7 = None then NotFound else PermissionDenied)"
    using renew_auth_owner_only by blast
  ultimately show ?thesis by (auto simp: demo_runtime_def session_ops)
qed

text \<open>
  The token in a bootstrap output authenticates: for a new session and for a renewal, the
  auth token that is handed out is accepted for the session and the user at any time before the
  advertised lifetime is over.
\<close>

theorem bootstrap_token_authenticates:
  assumes "renew_auth C env rt sid user = Some (Inr out, rt') \<or>
      new_session C env sid rt user = Some (out, rt')"
    and "ct_eq_exact C" and "find_record C (rt_tokens rt) (bo_auth_token out) = None"
    and "now < env_now env + int (cfg_auth_token_ttl (rt_config rt))"
  shows "fst (validate_and_consume_auth C (rt_tokens rt') (bo_auth_token out) sid user now) = Inr ()"
proof -
  have "issue_token C (rt_tokens rt) AuthToken sid user (cfg_auth_token_ttl (rt_config rt))
      (env_rnd env) (env_jti env) (env_now env) = Some (bo_auth_token out, rt_tokens rt')"
    using assms(1)
    by (auto simp: renew_auth_def new_session_def create_session_def Let_def
        dest!: issue_bootstrap_result split: sum.splits option.splits prod.splits)
  from issued_token_accepted [OF this assms(2,3), of "[]" now] assms(4) show ?thesis by simp
qed

theorem bootstrap_token_authenticates_witness:
  "\<exists>out rt'. renew_auth demo_crypto \<lparr>env_rnd = [65], env_jti = 1, env_now = 0\<rparr> demo_runtime 7 ''alice'' =
      Some (Inr out, rt') \<and>
    fst (validate_and_consume_auth demo_crypto (rt_tokens rt') (bo_auth_token out) 7 ''alice'' 59) = Inr ()"
proof -
  let ?env = "\<lparr>env_rnd = [65], env_jti = 1, env_now = 0\<rparr>"
  obtain out rt' where o: "renew_auth demo_crypto ?env demo_runtime 7 ''alice'' = Some (Inr out, rt')"
    by (simp add: renew_auth_def demo_runtime_def assert_owner_def session_ops issue_bootstrap_for_session_def
        issue_auth_token_def issue_token_def system_time_add_def with_config_def runtime_config_default_def
        duration_from_secs_def nanos_per_sec_def Let_def)
  have "fst (validate_and_consume_auth demo_crypto (rt_tokens rt') (bo_auth_token out) 7 ''alice'' 59) = Inr ()"
  proof (rule bootstrap_token_authenticates)
    show "renew_auth demo_crypto ?env demo_runtime 7 ''alice'' = Some (Inr out, rt') \<or>
        new_session demo_crypto ?env 7 demo_runtime ''alice'' = Some (out, rt')"
      using o by simp
    show "find_record demo_crypto (rt_tokens demo_runtime) (bo_auth_token out) = None"
      by (simp add: demo_runtime_def with_config_def find_record_def)
  qed (simp_all add: demo_runtime_def with_config_def runtime_config_default_def
        duration_from_secs_def nanos_per_sec_def)
  with o show ?thesis by blast
qed

end
