(* ===== verification/Shell_Quote.thy ===== *)
theory Shell_Quote
  imports Rust_Text
begin

text \<open>
  The two quoting functions of the program: \<open>shell_single_quote\<close> (\<open>src/src/terminal/pty.rs\<close>) and
  \<open>shell_double_quote\<close> (\<open>src/src/bin/neosh.rs\<close>). Their correctness is stated against the quoting
  rules of the POSIX shell, which are the specification here: \<open>sh_word\<close> reads one word of a
  command line.
\<close>

section \<open>The quoting functions\<close>

definition sq :: char where "sq = CHR 0x27"
definition dq :: char where "dq = CHR 0x22"
definition bs :: char where "bs = CHR 0x5C"
definition dollar :: char where "dollar = CHR ''$''"
definition backtick :: char where "backtick = CHR 0x60"

lemmas quote_chars = sq_def dq_def bs_def dollar_def backtick_def

definition shell_single_quote :: "string \<Rightarrow> string" where
  "shell_single_quote input =
     (if input = [] then [sq, sq]
      else [sq] @ replace_char sq [sq, bs, sq, sq] input @ [sq])"

definition shell_double_quote :: "string \<Rightarrow> string" where
  "shell_double_quote input =
     (if input = [] then [dq, dq]
      else
        let escaped =
          replace_char backtick [bs, backtick]
            (replace_char dollar [bs, dollar]
              (replace_char dq [bs, dq]
                (replace_char bs [bs, bs] input)))
        in [dq] @ escaped @ [dq])"

section \<open>The shell's quoting rules\<close>

text \<open>
  Reading one word: outside quotes a backslash keeps the next character, a single quote starts
  literal text up to the next single quote, a double quote starts text in which a backslash
  escapes only \<open>$\<close>, backtick, the double quote, backslash and newline. An expansion (\<open>$\<close> or a
  backtick that is not quoted) has no fixed value, so reading it is \<open>None\<close>; so is a missing
  closing quote. \<open>sh_single\<close>, \<open>sh_double\<close> return the text of the quotation and what follows it.
\<close>

fun sh_single :: "string \<Rightarrow> (string \<times> string) option" where
  "sh_single [] = None"
| "sh_single (c # cs) =
     (if c = sq then Some ([], cs) else map_option (\<lambda>(w, r). (c # w, r)) (sh_single cs))"

fun sh_double :: "string \<Rightarrow> (string \<times> string) option" where
  "sh_double [] = None"
| "sh_double [c] = (if c = dq then Some ([], []) else None)"
| "sh_double (c # d # cs) =
     (if c = dq then Some ([], d # cs)
      else if c = bs then
        (if d \<in> {dollar, backtick, dq, bs} then map_option (\<lambda>(w, r). (d # w, r)) (sh_double cs)
         else if d = CHR 0x0A then sh_double cs
         else map_option (\<lambda>(w, r). (c # w, r)) (sh_double (d # cs)))
      else if c = dollar \<or> c = backtick then None
      else map_option (\<lambda>(w, r). (c # w, r)) (sh_double (d # cs)))"

lemma sh_single_shorter: "sh_single cs = Some (w, r) \<Longrightarrow> length r < length cs"
proof (induction cs arbitrary: w)
  case (Cons c cs)
  show ?case
  proof (cases "c = sq")
    case False
    then obtain v where "sh_single cs = Some (v, r)" using Cons.prems by auto
    then show ?thesis using Cons.IH by (simp add: less_SucI)
  qed (use Cons.prems in simp)
qed simp

lemma sh_double_shorter: "sh_double cs = Some (w, r) \<Longrightarrow> length r < length cs"
proof (induction cs arbitrary: w rule: sh_double.induct)
  case (3 c d cs)
  consider "c = dq" | "c \<noteq> dq" "c = bs" | "c \<noteq> dq" "c \<noteq> bs" by blast
  then show ?case
  proof cases
    case 2
    then show ?thesis
      using "3.prems" "3.IH"(1) [OF 2] "3.IH"(2) [OF 2] "3.IH"(3) [OF 2]
      by (fastforce simp: less_Suc_eq split: if_splits)
  next
    case 3
    then show ?thesis using "3.prems" "3.IH"(4) [OF 3] by (fastforce simp: less_Suc_eq split: if_splits)
  qed (use "3.prems" in simp)
qed (auto split: if_splits)

text \<open>One word up to a blank or the end; \<open>None\<close> also for a character with another meaning.\<close>

function sh_word :: "string \<Rightarrow> (string \<times> string) option" where
  "sh_word s =
     (case s of
        [] \<Rightarrow> Some ([], [])
      | c # cs \<Rightarrow>
          if c = CHR '' '' then Some ([], s)
          else if c = sq then
            (case sh_single cs of
               None \<Rightarrow> None
             | Some (w, r) \<Rightarrow> map_option (\<lambda>(v, r'). (w @ v, r')) (sh_word r))
          else if c = dq then
            (case sh_double cs of
               None \<Rightarrow> None
             | Some (w, r) \<Rightarrow> map_option (\<lambda>(v, r'). (w @ v, r')) (sh_word r))
          else if c = bs then
            (case cs of
               [] \<Rightarrow> None
             | d # ds \<Rightarrow> map_option (\<lambda>(v, r'). (d # v, r')) (sh_word ds))
          else if c \<in> set ''$;&|<>()#*?[~'' \<or> c = backtick \<or> c = CHR 0x0A then None
          else map_option (\<lambda>(v, r'). (c # v, r')) (sh_word cs))"
  by pat_completeness auto
termination
  by (relation "measure length") (auto dest: sh_single_shorter sh_double_shorter)

declare sh_word.simps [simp del]

section \<open>Single quotes\<close>

lemma sh_single_free: "sq \<notin> set s \<Longrightarrow> sh_single (s @ sq # r) = Some (s, r)"
  by (induction s) auto

lemma sh_word_sq: "sh_word (sq # cs) =
    (case sh_single cs of None \<Rightarrow> None
     | Some (w, r) \<Rightarrow> map_option (\<lambda>(v, r'). (w @ v, r')) (sh_word r))"
  by (subst sh_word.simps) (simp add: quote_chars)

lemma sh_word_dq: "sh_word (dq # cs) =
    (case sh_double cs of None \<Rightarrow> None
     | Some (w, r) \<Rightarrow> map_option (\<lambda>(v, r'). (w @ v, r')) (sh_word r))"
  by (subst sh_word.simps) (simp add: quote_chars)

lemma sh_word_bs: "sh_word (bs # d # ds) = map_option (\<lambda>(v, r'). (d # v, r')) (sh_word ds)"
  by (subst sh_word.simps) (simp add: quote_chars)

lemma sh_word_blank: "sh_word [] = Some ([], [])" "sh_word (CHR '' '' # r) = Some ([], CHR '' '' # r)"
  by (subst sh_word.simps; simp)+

text \<open>Quoting only removes characters: a word as long as its source has no quotes in it.\<close>

lemma sh_single_length: "sh_single cs = Some (w, r) \<Longrightarrow> length w + length r < length cs"
proof (induction cs arbitrary: w)
  case (Cons c cs)
  show ?case
  proof (cases "c = sq")
    case False
    then obtain v where "sh_single cs = Some (v, r)" "w = c # v" using Cons.prems by auto
    then show ?thesis using Cons.IH by fastforce
  qed (use Cons.prems in simp)
qed simp

lemma sh_double_length: "sh_double cs = Some (w, r) \<Longrightarrow> length w + length r < length cs"
proof (induction cs arbitrary: w rule: sh_double.induct)
  case (3 c d cs)
  consider "c = dq" | "c \<noteq> dq" "c = bs" | "c \<noteq> dq" "c \<noteq> bs" by blast
  then show ?case
  proof cases
    case 2
    then show ?thesis
      using "3.prems" "3.IH"(1) [OF 2] "3.IH"(2) [OF 2] "3.IH"(3) [OF 2]
      by (fastforce simp: less_Suc_eq split: if_splits)
  next
    case 3
    then show ?thesis using "3.prems" "3.IH"(4) [OF 3] by (fastforce simp: less_Suc_eq split: if_splits)
  qed (use "3.prems" in simp)
qed (auto split: if_splits)

lemma sh_word_length:
  "sh_word s = Some (w, r) \<Longrightarrow> length w + length r \<le> length s \<and>
     (length w + length r = length s \<longrightarrow> s = w @ r \<and> sq \<notin> set w)"
proof (induction s arbitrary: w rule: sh_word.induct)
  case (1 s)
  show ?case
  proof (cases s)
    case Nil
    then show ?thesis using "1.prems" by (simp add: sh_word_blank)
  next
    case (Cons c cs)
    note eq = sh_word.simps [of s, unfolded Cons list.case]
    consider "c = CHR '' ''" | "c \<noteq> CHR '' ''" "c = sq" | "c \<noteq> CHR '' ''" "c \<noteq> sq" "c = dq"
      | "c \<noteq> CHR '' ''" "c \<noteq> sq" "c \<noteq> dq" "c = bs"
      | "c \<noteq> CHR '' ''" "c \<noteq> sq" "c \<noteq> dq" "c \<noteq> bs" by blast
    then show ?thesis
    proof cases
      case 1
      then show ?thesis using "1.prems" eq Cons by simp
    next
      case 2
      have "sh_word (sq # cs) = Some (w, r)" using "1.prems" Cons 2 by simp
      then obtain a b v where q: "sh_single cs = Some (a, b)"
        "sh_word b = Some (v, r)" "w = a @ v" by (auto simp: sh_word_sq split: option.splits)
      have "length v + length r \<le> length b" using "1.IH"(1) [OF Cons 2 q(1) _ q(2)] by simp
      then show ?thesis using sh_single_length [OF q(1)] q(3) Cons by simp
    next
      case 3
      have "sh_word (dq # cs) = Some (w, r)" using "1.prems" Cons 3 by simp
      then obtain a b v where q: "sh_double cs = Some (a, b)"
        "sh_word b = Some (v, r)" "w = a @ v" by (auto simp: sh_word_dq split: option.splits)
      have "length v + length r \<le> length b" using "1.IH"(2) [OF Cons 3 q(1) _ q(2)] by simp
      then show ?thesis using sh_double_length [OF q(1)] q(3) Cons by simp
    next
      case 4
      have e: "sh_word (bs # cs) = Some (w, r)" using "1.prems" Cons 4 by simp
      then have "cs \<noteq> []" using sh_word.simps [of "[bs]"] by (auto simp: quote_chars)
      then obtain d ds where ds: "cs = d # ds" by (cases cs) auto
      with e obtain v where q: "cs = d # ds" "sh_word ds = Some (v, r)" "w = d # v"
        by (auto simp: sh_word_bs)
      have "length v + length r \<le> length ds" using "1.IH"(3) [OF Cons 4 q(1,2)] by simp
      then show ?thesis using q Cons by simp
    next
      case 5
      have "(if c \<in> set ''$;&|<>()#*?[~'' \<or> c = backtick \<or> c = CHR 0x0A then None
          else map_option (\<lambda>(v, r'). (c # v, r')) (sh_word cs)) = Some (w, r)"
        using "1.prems" eq Cons 5 by simp
      then obtain v where q: "sh_word cs = Some (v, r)" "w = c # v"
        "\<not> (c \<in> set ''$;&|<>()#*?[~'' \<or> c = backtick \<or> c = CHR 0x0A)"
        by (auto split: if_splits)
      note ih = "1.IH"(4) [OF Cons 5 q(3,1)]
      then show ?thesis using q(2) Cons 5 by auto
    qed
  qed
qed

text \<open>What stands between the outer quotes of \<open>shell_single_quote\<close>, read from inside them.\<close>

lemma sh_word_quoted_body:
  "sh_word (sq # replace_char sq [sq, bs, sq, sq] s @ sq # r) =
   map_option (\<lambda>(v, r'). (s @ v, r')) (sh_word r)"
proof (induction s rule: length_induct)
  case (1 s)
  show ?case
  proof (cases "sq \<in> set s")
    case False
    then show ?thesis by (simp add: replace_char_free sh_word_sq sh_single_free)
  next
    case True
    then obtain a b where s: "s = a @ sq # b" and a: "sq \<notin> set a"
      by (meson split_list_first)
    have "sh_word (sq # replace_char sq [sq, bs, sq, sq] s @ sq # r) =
        map_option (\<lambda>(v, r'). (a @ v, r'))
          (sh_word (bs # sq # sq # replace_char sq [sq, bs, sq, sq] b @ sq # r))"
      using sh_single_free [OF a] by (simp add: s replace_char_free [OF a] sh_word_sq)
    also have "\<dots> = map_option (\<lambda>(v, r'). (s @ v, r')) (sh_word r)"
      using 1 s by (simp add: sh_word_bs option.map_comp comp_def split_def)
    finally show ?thesis .
  qed
qed

lemma sh_word_single_quote:
  "sh_word (shell_single_quote s @ r) = map_option (\<lambda>(v, r'). (s @ v, r')) (sh_word r)"
proof (cases "s = []")
  case True
  have "sh_word (sq # sq # r) = map_option (\<lambda>(v, r'). (v, r')) (sh_word r)"
    using sh_word_quoted_body [of "[]" r] by simp
  then show ?thesis using True by (simp add: shell_single_quote_def)
next
  case False
  then show ?thesis using sh_word_quoted_body [of s r] by (simp add: shell_single_quote_def)
qed

section \<open>Double quotes\<close>

definition dq_escape :: "string \<Rightarrow> string" where
  "dq_escape s = concat (map (\<lambda>c. if c \<in> {bs, dq, dollar, backtick} then [bs, c] else [c]) s)"

lemma dq_escape_Cons [simp]:
  "dq_escape [] = []"
  "dq_escape (c # s) = (if c \<in> {bs, dq, dollar, backtick} then [bs, c] else [c]) @ dq_escape s"
  by (simp_all add: dq_escape_def)

lemma shell_double_quote_alt: "shell_double_quote s = dq # dq_escape s @ [dq]"
proof -
  have "replace_char backtick [bs, backtick] (replace_char dollar [bs, dollar]
      (replace_char dq [bs, dq] (replace_char bs [bs, bs] s))) = dq_escape s"
    by (induction s) (auto simp: quote_chars)
  then show ?thesis by (simp add: shell_double_quote_def)
qed

lemma sh_double_escape: "sh_double (dq_escape s @ dq # r) = Some (s, r)"
proof (induction s)
  case Nil
  then show ?case by (cases r) auto
next
  case (Cons c s)
  show ?case
  proof (cases "c \<in> {bs, dq, dollar, backtick}")
    case True
    then show ?thesis using Cons by (auto simp: quote_chars)
  next
    case False
    obtain x xs where x: "dq_escape s @ dq # r = x # xs" by (cases "dq_escape s") auto
    then show ?thesis using Cons False by auto
  qed
qed

lemma sh_word_double_quote:
  "sh_word (shell_double_quote s @ r) = map_option (\<lambda>(v, r'). (s @ v, r')) (sh_word r)"
  by (simp add: shell_double_quote_alt sh_word_dq sh_double_escape)

text \<open>
  C25: Quoting is exact: the shell reads the output of either quoting function back as one word
  that is the input, whatever characters the input holds, up to the blank or the end that
  follows it.
\<close>

theorem quoting_roundtrip:
  "sh_word (shell_single_quote s) = Some (s, []) \<and>
   sh_word (shell_double_quote s) = Some (s, []) \<and>
   sh_word (shell_single_quote s @ '' '' @ rest) = Some (s, '' '' @ rest) \<and>
   sh_word (shell_double_quote s @ '' '' @ rest) = Some (s, '' '' @ rest)"
  using sh_word_single_quote [of s "[]"] sh_word_single_quote [of s "'' '' @ rest"]
    sh_word_double_quote [of s "[]"] sh_word_double_quote [of s "'' '' @ rest"]
  by (simp add: sh_word_blank)

end
