(* ===== verification/Pty.thy ===== *)
theory Pty
  imports Shell_Quote Neosh_Prelude
begin

text \<open>
  The pseudo terminal (\<open>src/src/terminal/pty.rs\<close>): how the shell is started on it and the operations
  on the running terminal. The crate \<open>portable_pty\<close> and the operating system behind it are a
  record of functions, one for each call the code makes; handles (masters, writers, readers,
  children) are numbers of the caller's choice.
\<close>

datatype pty_error =
    PtyOpen string | PtySpawn string | PtyRead string | PtyWrite string | PtyResize string
  | PtyWait string | ReaderTaken

fun pty_error_text :: "pty_error \<Rightarrow> string" where
  "pty_error_text (PtyOpen e) = ''open pty failed: '' @ e"
| "pty_error_text (PtySpawn e) = ''spawn command failed: '' @ e"
| "pty_error_text (PtyRead e) = ''read output failed: '' @ e"
| "pty_error_text (PtyWrite e) = ''write input failed: '' @ e"
| "pty_error_text (PtyResize e) = ''resize failed: '' @ e"
| "pty_error_text (PtyWait e) = ''wait command failed: '' @ e"
| "pty_error_text ReaderTaken = ''pty reader already taken''"

record pty_size =
  sz_rows :: u16
  sz_cols :: u16
  sz_pixel_width :: u16
  sz_pixel_height :: u16

text \<open>The fields a \<open>CommandBuilder\<close> is given.\<close>

record command_builder =
  cmd_program :: string
  cmd_args :: "string list"
  cmd_cwd :: "string option"
  cmd_env :: "(string \<times> string) list"

record pty_system =
  os_openpty :: "pty_size \<Rightarrow> string + nat"
  os_spawn_command :: "nat \<Rightarrow> command_builder \<Rightarrow> string + nat"
  os_take_writer :: "nat \<Rightarrow> string + nat"
  os_clone_reader :: "nat \<Rightarrow> string + nat"
  os_resize :: "nat \<Rightarrow> pty_size \<Rightarrow> string + unit"
  os_wait :: "nat \<Rightarrow> string + nat"
  os_read_to_string :: "nat \<Rightarrow> string + string"
  os_term :: "string option"

record live_pty =
  pty_master :: nat
  pty_writer_handle :: nat
  pty_reader :: "nat option"
  pty_child :: nat

definition cell_size :: "u16 \<Rightarrow> u16 \<Rightarrow> pty_size" where
  "cell_size rows cols =
     \<lparr>sz_rows = rows, sz_cols = cols, sz_pixel_width = 0, sz_pixel_height = 0\<rparr>"

text \<open>The command of \<open>spawn\<close>: the start-up command, if any, and then an interactive shell.\<close>

definition startup_line :: "string \<Rightarrow> string \<Rightarrow> string" where
  "startup_line command shell = command @ ''; exec '' @ shell_single_quote shell @ '' -li''"

definition shell_command ::
  "pty_system \<Rightarrow> string \<Rightarrow> string option \<Rightarrow> string option \<Rightarrow> command_builder" where
  "shell_command os shell working_directory startup_command =
     \<lparr>cmd_program = shell,
      cmd_args =
        (case startup_command of
           Some command \<Rightarrow> [''-lc'', startup_line command shell]
         | None \<Rightarrow> [''-li'']),
      cmd_cwd = working_directory,
      cmd_env = [(''TERM'', case os_term os of Some t \<Rightarrow> t | None \<Rightarrow> ''xterm-256color'')]\<rparr>"

definition pty_spawn ::
  "pty_system \<Rightarrow> u16 \<Rightarrow> u16 \<Rightarrow> string \<Rightarrow> string option \<Rightarrow> string option
   \<Rightarrow> pty_error + live_pty" where
  "pty_spawn os rows cols shell working_directory startup_command =
     (case os_openpty os (cell_size rows cols) of
        Inl e \<Rightarrow> Inl (PtyOpen e)
      | Inr master \<Rightarrow>
          (case os_spawn_command os master
                  (shell_command os shell working_directory startup_command) of
             Inl e \<Rightarrow> Inl (PtySpawn e)
           | Inr child \<Rightarrow>
               (case os_take_writer os master of
                  Inl e \<Rightarrow> Inl (PtyWrite e)
                | Inr writer \<Rightarrow>
                    (case os_clone_reader os master of
                       Inl e \<Rightarrow> Inl (PtyRead e)
                     | Inr reader \<Rightarrow>
                         Inr \<lparr>pty_master = master, pty_writer_handle = writer,
                              pty_reader = Some reader, pty_child = child\<rparr>))))"

definition take_reader :: "live_pty \<Rightarrow> (pty_error + nat) \<times> live_pty" where
  "take_reader p =
     (case pty_reader p of
        None \<Rightarrow> (Inl ReaderTaken, p)
      | Some r \<Rightarrow> (Inr r, p\<lparr>pty_reader := None\<rparr>))"

definition writer :: "live_pty \<Rightarrow> nat" where
  "writer p = pty_writer_handle p"

definition resize :: "pty_system \<Rightarrow> live_pty \<Rightarrow> u16 \<Rightarrow> u16 \<Rightarrow> pty_error + unit" where
  "resize os p rows cols =
     (case os_resize os (pty_master p) (cell_size rows cols) of
        Inl e \<Rightarrow> Inl (PtyResize e)
      | Inr _ \<Rightarrow> Inr ())"

definition wait :: "pty_system \<Rightarrow> live_pty \<Rightarrow> pty_error + unit" where
  "wait os p =
     (case os_wait os (pty_child p) of Inl e \<Rightarrow> Inl (PtyWait e) | Inr _ \<Rightarrow> Inr ())"

section \<open>Capturing the output of a script\<close>

record pty_runtime =
  ptr_rows :: u16
  ptr_cols :: u16

definition pty_runtime_new :: "u16 \<Rightarrow> u16 \<Rightarrow> pty_error + pty_runtime" where
  "pty_runtime_new rows cols = Inr \<lparr>ptr_rows = rows, ptr_cols = cols\<rparr>"

definition run_shell_capture :: "pty_system \<Rightarrow> pty_runtime \<Rightarrow> string \<Rightarrow> pty_error + string" where
  "run_shell_capture os rt script =
     (case os_openpty os (cell_size (ptr_rows rt) (ptr_cols rt)) of
        Inl e \<Rightarrow> Inl (PtyOpen e)
      | Inr master \<Rightarrow>
          (case os_spawn_command os master
                  \<lparr>cmd_program = ''sh'', cmd_args = [''-lc'', script], cmd_cwd = None,
                   cmd_env = []\<rparr> of
             Inl e \<Rightarrow> Inl (PtySpawn e)
           | Inr child \<Rightarrow>
               (case os_clone_reader os master of
                  Inl e \<Rightarrow> Inl (PtyRead e)
                | Inr reader \<Rightarrow>
                    (case os_read_to_string os reader of
                       Inl e \<Rightarrow> Inl (PtyRead e)
                     | Inr output \<Rightarrow>
                         (case os_wait os child of
                            Inl e \<Rightarrow> Inl (PtyWait e)
                          | Inr _ \<Rightarrow> Inr output)))))"

section \<open>The reader is taken once\<close>

lemma take_reader_once:
  assumes "take_reader p = (Inr r, p')"
  shows "take_reader p' = (Inl ReaderTaken, p')"
  using assms by (auto simp: take_reader_def split: option.splits)

lemma pty_spawn_reader: "pty_spawn os r c sh wd sc = Inr p \<Longrightarrow> \<exists>h. pty_reader p = Some h"
  by (auto simp: pty_spawn_def split: sum.splits)

lemma pty_spawn_writer: "pty_spawn os r c sh wd sc = Inr p \<Longrightarrow> os_take_writer os (pty_master p) = Inr (pty_writer_handle p)"
  by (auto simp: pty_spawn_def split: sum.splits)

section \<open>What the child runs\<close>

lemma pty_spawn_command:
  "pty_spawn os rows cols shell wd sc = Inr p \<Longrightarrow>
   os_spawn_command os (pty_master p) (shell_command os shell wd sc) = Inr (pty_child p)"
  by (auto simp: pty_spawn_def split: sum.splits)

text \<open>
  A terminal that starts has run one child, the login shell in the requested directory: with
  a start-up command the child reads that command and then an \<open>exec\<close> whose operand the shell
  parses to exactly the path of the login shell, whatever characters that path holds; without one
  it is the interactive login shell itself.
\<close>

theorem pty_runs_login_shell:
  assumes "pty_spawn os rows cols shell wd sc = Inr p"
  shows "\<exists>cmd. os_spawn_command os (pty_master p) cmd = Inr (pty_child p) \<and>
    cmd_program cmd = shell \<and> cmd_cwd cmd = wd \<and>
    (case sc of
       None \<Rightarrow> cmd_args cmd = [''-li'']
     | Some command \<Rightarrow>
         (\<exists>w. cmd_args cmd = [''-lc'', command @ ''; exec '' @ w] \<and>
              sh_word w = Some (shell, '' -li'')))"
proof (intro exI conjI)
  show "os_spawn_command os (pty_master p) (shell_command os shell wd sc) = Inr (pty_child p)"
    using assms by (rule pty_spawn_command)
  show "case sc of None \<Rightarrow> cmd_args (shell_command os shell wd sc) = [''-li'']
    | Some command \<Rightarrow> (\<exists>w. cmd_args (shell_command os shell wd sc) =
          [''-lc'', command @ ''; exec '' @ w] \<and> sh_word w = Some (shell, '' -li''))"
    by (cases sc)
      (auto simp: shell_command_def startup_line_def sh_word_single_quote sh_word_blank
        intro!: exI [of _ "shell_single_quote shell @ '' -li''"])
qed (simp_all add: shell_command_def)

definition demo_pty_system :: pty_system where
  "demo_pty_system =
     \<lparr>os_openpty = (\<lambda>_. Inr 3), os_spawn_command = (\<lambda>_ _. Inr 4), os_take_writer = (\<lambda>_. Inr 5),
      os_clone_reader = (\<lambda>_. Inr 6), os_resize = (\<lambda>_ _. Inr ()), os_wait = (\<lambda>_. Inr 0),
      os_read_to_string = (\<lambda>_. Inr []), os_term = None\<rparr>"

lemma demo_pty_spawn:
  "pty_spawn demo_pty_system r c sh wd sc =
     Inr \<lparr>pty_master = 3, pty_writer_handle = 5, pty_reader = Some 6, pty_child = 4\<rparr>"
  by (simp add: pty_spawn_def demo_pty_system_def)

theorem pty_runs_login_shell_witness:
  "\<exists>cmd. os_spawn_command demo_pty_system 3 cmd = Inr 4 \<and> cmd_program cmd = ''/bin/a b'' \<and>
     cmd_cwd cmd = Some ''/srv'' \<and>
     (\<exists>w. cmd_args cmd = [''-lc'', ''make'' @ ''; exec '' @ w] \<and>
          sh_word w = Some (''/bin/a b'', '' -li''))"
  using pty_runs_login_shell
    [of demo_pty_system 24 80 "''/bin/a b''" "Some ''/srv''" "Some ''make''", OF demo_pty_spawn]
  by simp

end
