(* ===== verification/Server_State.thy ===== *)
theory Server_State
  imports Messages Runtime Pty Rust_Text
begin

text \<open>
  The state of the server process (\<open>ServerState\<close> in \<open>src/src/bin/neoshd.rs\<close>) and the operations on
  it that need no connection: construction, token issue, the replay buffer, the two timeouts, the
  reason to stop, the cleanup after a connection, and the mapping of errors to protocol frames.
\<close>

section \<open>Constants and errors\<close>

definition server_version :: string where "server_version = ''neoshd/0.1.0''"

definition max_control_frame :: nat where "max_control_frame = 64 * 1024"

datatype neoshd_error =
    NeConfig string | NeIo string | NeQuinn string | NeProtocol string | NeAuthFailed
  | NeSessionNotFound | NeSessionExpired | NeAttachDenied | NeInternal string

fun neoshd_error_text :: "neoshd_error \<Rightarrow> string" where
  "neoshd_error_text (NeConfig e) = ''config error: '' @ e"
| "neoshd_error_text (NeIo e) = ''io error: '' @ e"
| "neoshd_error_text (NeQuinn e) = ''quic error: '' @ e"
| "neoshd_error_text (NeProtocol e) = ''protocol error: '' @ e"
| "neoshd_error_text NeAuthFailed = ''auth failed''"
| "neoshd_error_text NeSessionNotFound = ''session not found''"
| "neoshd_error_text NeSessionExpired = ''session expired''"
| "neoshd_error_text NeAttachDenied = ''attach denied''"
| "neoshd_error_text (NeInternal e) = ''internal error: '' @ e"

fun error_code :: "neoshd_error \<Rightarrow> string \<times> bool" where
  "error_code NeAuthFailed = (''AUTH_FAILED'', False)"
| "error_code NeSessionNotFound = (''SESSION_NOT_FOUND'', False)"
| "error_code NeSessionExpired = (''SESSION_EXPIRED'', False)"
| "error_code NeAttachDenied = (''ATTACH_DENIED'', False)"
| "error_code (NeProtocol e) = (''PROTOCOL_ERROR'', False)"
| "error_code (NeInternal e) = (''INTERNAL_ERROR'', True)"
| "error_code (NeIo e) = (''INTERNAL_ERROR'', True)"
| "error_code (NeQuinn e) = (''INTERNAL_ERROR'', True)"
| "error_code (NeConfig e) = (''INTERNAL_ERROR'', True)"

definition error_frame_for :: "neoshd_error \<Rightarrow> error_message" where
  "error_frame_for err =
     (let (code, retryable) = error_code err
      in \<lparr>em_type = ''ERROR'', em_code = code, em_message = neoshd_error_text err,
          em_retryable = retryable\<rparr>)"

fun map_token_auth_error :: "token_error \<Rightarrow> neoshd_error" where
  "map_token_auth_error TokBindingMismatch = NeAuthFailed"
| "map_token_auth_error TokConsumed = NeAuthFailed"
| "map_token_auth_error TokExpired = NeAuthFailed"
| "map_token_auth_error TokNotFound = NeAuthFailed"
| "map_token_auth_error TokRevoked = NeAuthFailed"
| "map_token_auth_error TokTypeMismatch = NeAuthFailed"

fun map_token_resume_error :: "token_error \<Rightarrow> neoshd_error" where
  "map_token_resume_error TokExpired = NeSessionExpired"
| "map_token_resume_error TokRevoked = NeSessionExpired"
| "map_token_resume_error TokBindingMismatch = NeAuthFailed"
| "map_token_resume_error TokConsumed = NeAuthFailed"
| "map_token_resume_error TokNotFound = NeAuthFailed"
| "map_token_resume_error TokTypeMismatch = NeAuthFailed"

fun map_session_error :: "session_error \<Rightarrow> neoshd_error" where
  "map_session_error NotFound = NeSessionNotFound"
| "map_session_error AttachDenied = NeAttachDenied"
| "map_session_error InvalidState = NeSessionExpired"
| "map_session_error PermissionDenied = NeAuthFailed"

section \<open>State\<close>

text \<open>The command line of \<open>neoshd new\<close>; \<open>usize\<close> is \<open>nat\<close>.\<close>

record new_args =
  arg_user :: string
  arg_port_range :: string
  arg_bind_server :: string
  arg_tls_cert :: string
  arg_tls_key :: string
  arg_working_directory :: string
  arg_command :: string
  arg_session_timeout :: u64
  arg_initial_attach_timeout :: u64
  arg_auth_token_ttl :: u64
  arg_resume_token_ttl :: u64
  arg_quic_idle_timeout_seconds :: u64
  arg_replay_buffer_bytes :: nat

definition non_empty_arg :: "string \<Rightarrow> string option" where
  "non_empty_arg value =
     (let trimmed = trim value in if trimmed = [] then None else Some trimmed)"

text \<open>
  \<open>srv_pty_exited\<close> is the value of the atomic flag that the state and the reader thread share;
  \<open>srv_output_tx\<close> names the broadcast channel the reader thread sends to.
\<close>

record server_state =
  srv_session_id :: uuid
  srv_owner_user :: string
  srv_owner_uid :: u32
  srv_quic_addr :: string
  srv_cert_fingerprint :: string
  srv_working_directory :: "string option"
  srv_startup_command :: "string option"
  srv_created_at :: system_time
  srv_initial_attach_timeout :: duration
  srv_session_timeout :: duration
  srv_auth_token_ttl :: duration
  srv_resume_token_ttl :: duration
  srv_replay_cap :: nat
  srv_sessions :: session_manager
  srv_tokens :: token_service
  srv_pty :: "live_pty option"
  srv_pty_writer :: "nat option"
  srv_output_tx :: "nat option"
  srv_replay :: bytes
  srv_detached_at :: "system_time option"
  srv_pty_exited :: bool

definition server_state_new ::
  "uuid \<Rightarrow> string \<Rightarrow> u32 \<Rightarrow> string \<Rightarrow> string \<Rightarrow> new_args \<Rightarrow> system_time \<Rightarrow> server_state" where
  "server_state_new sid owner uid qaddr fp cfg now =
     \<lparr>srv_session_id = sid, srv_owner_user = owner, srv_owner_uid = uid, srv_quic_addr = qaddr,
      srv_cert_fingerprint = fp,
      srv_working_directory = non_empty_arg (arg_working_directory cfg),
      srv_startup_command = non_empty_arg (arg_command cfg),
      srv_created_at = now,
      srv_initial_attach_timeout = duration_from_secs (arg_initial_attach_timeout cfg),
      srv_session_timeout = duration_from_secs (arg_session_timeout cfg),
      srv_auth_token_ttl = duration_from_secs (arg_auth_token_ttl cfg),
      srv_resume_token_ttl = duration_from_secs (arg_resume_token_ttl cfg),
      srv_replay_cap = arg_replay_buffer_bytes cfg,
      srv_sessions = create_session_with_id (\<lambda>_. None) sid owner qaddr fp,
      srv_tokens = [], srv_pty = None, srv_pty_writer = None, srv_output_tx = None,
      srv_replay = [], srv_detached_at = None, srv_pty_exited = False\<rparr>"

section \<open>Tokens\<close>

text \<open>\<open>None\<close> is the panic of \<open>issue_token\<close>.\<close>

definition srv_issue_auth_token ::
  "crypto \<Rightarrow> issue_env \<Rightarrow> server_state \<Rightarrow> (string \<times> server_state) option" where
  "srv_issue_auth_token C env st =
     map_option (\<lambda>(raw, svc). (raw, st\<lparr>srv_tokens := svc\<rparr>))
       (issue_auth_token C (srv_tokens st) (srv_session_id st) (srv_owner_user st)
          (srv_auth_token_ttl st) (env_rnd env) (env_jti env) (env_now env))"

definition srv_issue_resume_token ::
  "crypto \<Rightarrow> issue_env \<Rightarrow> server_state \<Rightarrow> (string \<times> server_state) option" where
  "srv_issue_resume_token C env st =
     map_option (\<lambda>(raw, svc). (raw, st\<lparr>srv_tokens := svc\<rparr>))
       (issue_resume_token C (srv_tokens st) (srv_session_id st) (srv_owner_user st)
          (srv_resume_token_ttl st) (env_rnd env) (env_jti env) (env_now env))"

definition srv_bootstrap_output ::
  "crypto \<Rightarrow> issue_env \<Rightarrow> server_state \<Rightarrow> (bootstrap_output \<times> server_state) option" where
  "srv_bootstrap_output C env st =
     (case srv_issue_auth_token C env st of
        None \<Rightarrow> None
      | Some (raw, st') \<Rightarrow>
          Some (\<lparr>bo_session_id = srv_session_id st, bo_auth_token = raw,
                 bo_auth_token_expires_in_seconds = duration_as_secs (srv_auth_token_ttl st),
                 bo_quic_addr = srv_quic_addr st,
                 bo_cert_fingerprint = srv_cert_fingerprint st\<rparr>, st'))"

definition sweep_tokens :: "server_state \<Rightarrow> system_time \<Rightarrow> duration \<Rightarrow> server_state" where
  "sweep_tokens st now retention =
     st\<lparr>srv_tokens := cleanup_expired (srv_tokens st) now retention\<rparr>"

section \<open>The replay buffer\<close>

definition append_replay :: "server_state \<Rightarrow> bytes \<Rightarrow> server_state" where
  "append_replay st chunk =
     (let replay = srv_replay st @ chunk
      in if length replay > srv_replay_cap st
         then let overflow = length replay - srv_replay_cap st
              in st\<lparr>srv_replay := drop overflow replay\<rparr>
         else st\<lparr>srv_replay := replay\<rparr>)"

section \<open>Timeouts and the reason to stop\<close>

text \<open>The result of \<open>expire\<close> is discarded in both.\<close>

definition expire_if_detached_timeout :: "server_state \<Rightarrow> system_time \<Rightarrow> bool \<times> server_state" where
  "expire_if_detached_timeout st now =
     (if srv_session_timeout st = 0 then (False, st)
      else
        case srv_detached_at st of
          None \<Rightarrow> (False, st)
        | Some detached_at \<Rightarrow>
            (case duration_since now detached_at of
               None \<Rightarrow> (False, st)
             | Some elapsed \<Rightarrow>
                 if elapsed \<ge> srv_session_timeout st then
                   let st' = st\<lparr>srv_sessions := snd (expire (srv_sessions st) (srv_session_id st))\<rparr>
                   in case get_session (srv_sessions st') (srv_session_id st') of
                        None \<Rightarrow> (False, st')
                      | Some s \<Rightarrow> (sess_state s = Expired, st')
                 else (False, st)))"

definition expire_if_initial_attach_timeout ::
  "server_state \<Rightarrow> system_time \<Rightarrow> bool \<times> server_state" where
  "expire_if_initial_attach_timeout st now =
     (if srv_initial_attach_timeout st = 0 then (False, st)
      else
        case get_session (srv_sessions st) (srv_session_id st) of
          None \<Rightarrow> (False, st)
        | Some s \<Rightarrow>
            if sess_state s \<noteq> Created then (False, st)
            else
              (case duration_since now (srv_created_at st) of
                 None \<Rightarrow> (False, st)
               | Some elapsed \<Rightarrow>
                   if elapsed \<ge> srv_initial_attach_timeout st
                   then (True, st\<lparr>srv_sessions := snd (expire (srv_sessions st) (srv_session_id st))\<rparr>)
                   else (False, st)))"

datatype accept_loop_stop_reason =
    InitialAttachTimeout | DetachedSessionTimeout | StopSessionExpired | StopSessionTerminated
  | EndpointClosed

fun stop_reason_str :: "accept_loop_stop_reason \<Rightarrow> string" where
  "stop_reason_str InitialAttachTimeout = ''initial_attach_timeout''"
| "stop_reason_str DetachedSessionTimeout = ''detached_session_timeout''"
| "stop_reason_str StopSessionExpired = ''session_expired''"
| "stop_reason_str StopSessionTerminated = ''session_terminated''"
| "stop_reason_str EndpointClosed = ''endpoint_closed''"

fun is_auto_shutdown :: "accept_loop_stop_reason \<Rightarrow> bool" where
  "is_auto_shutdown InitialAttachTimeout = True"
| "is_auto_shutdown DetachedSessionTimeout = True"
| "is_auto_shutdown StopSessionExpired = True"
| "is_auto_shutdown _ = False"

definition server_stop_reason :: "server_state \<Rightarrow> accept_loop_stop_reason option" where
  "server_stop_reason st =
     (case map_option sess_state (get_session (srv_sessions st) (srv_session_id st)) of
        Some Terminated \<Rightarrow> Some StopSessionTerminated
      | Some Expired \<Rightarrow> Some StopSessionExpired
      | _ \<Rightarrow> None)"

section \<open>The end of a connection\<close>

datatype cleanup_reason = ConnectionEnd | ExplicitDetach

text \<open>The conditional release of both branches.\<close>

definition release_if_current ::
  "server_state \<Rightarrow> uuid \<Rightarrow> u64 \<Rightarrow> system_time \<Rightarrow> server_state" where
  "release_if_current st conn epoch now =
     (case conditional_stale_cleanup (srv_sessions st) (srv_session_id st) conn epoch of
        (True, m) \<Rightarrow> st\<lparr>srv_sessions := m, srv_detached_at := Some now\<rparr>
      | (False, m) \<Rightarrow> st\<lparr>srv_sessions := m\<rparr>)"

definition finalize_connection_cleanup ::
  "server_state \<Rightarrow> uuid \<Rightarrow> u64 \<Rightarrow> cleanup_reason \<Rightarrow> system_time \<Rightarrow> server_state" where
  "finalize_connection_cleanup st conn epoch reason now =
     (if reason = ExplicitDetach then release_if_current st conn epoch now
      else if srv_pty_exited st then
        st\<lparr>srv_sessions := snd (terminate (srv_sessions st) (srv_session_id st)),
           srv_detached_at := None\<rparr>
      else release_if_current st conn epoch now)"

section \<open>Invariant\<close>

text \<open>The session of the process; it exists from the start and is never removed.\<close>

definition srv_session :: "server_state \<Rightarrow> session option" where
  "srv_session st = srv_sessions st (srv_session_id st)"

fun detached_ok :: "session option \<Rightarrow> system_time option \<Rightarrow> bool" where
  "detached_ok None d = False"
| "detached_ok (Some s) d =
     (session_wf s \<and> (d \<noteq> None \<longrightarrow> sess_state s \<in> {Detached, Expired, Terminated}))"

text \<open>
  The time of detachment is set only in a session without a connection, the terminal and its
  writer and output channel come together, an exited terminal exists, and the replay buffer keeps
  its bound.
\<close>

fun terminal_ok :: "live_pty option \<Rightarrow> nat option \<Rightarrow> nat option \<Rightarrow> bool \<Rightarrow> bool" where
  "terminal_ok None w tx exited = (w = None \<and> tx = None \<and> \<not> exited)"
| "terminal_ok (Some p) w tx exited = (w \<noteq> None \<and> tx \<noteq> None)"

definition server_wf :: "server_state \<Rightarrow> bool" where
  "server_wf st \<longleftrightarrow>
     detached_ok (srv_session st) (srv_detached_at st) \<and>
     terminal_ok (srv_pty st) (srv_pty_writer st) (srv_output_tx st) (srv_pty_exited st) \<and>
     length (srv_replay st) \<le> srv_replay_cap st"

lemma detached_okE:
  assumes "detached_ok so d"
  obtains s where "so = Some s" "session_wf s"
    "d \<noteq> None \<Longrightarrow> sess_state s \<in> {Detached, Expired, Terminated}"
  using assms by (cases so) auto

lemmas server_wf_unfold = server_wf_def srv_session_def

lemma server_state_new_wf [neosh_inv]: "server_wf (server_state_new sid owner uid q fp cfg now)"
  by (simp add: server_wf_unfold server_state_new_def create_session_with_id_def session_wf_def)

lemma issue_keeps_wf [neosh_inv]:
  "server_wf st \<Longrightarrow> srv_issue_auth_token C env st = Some (raw, st') \<Longrightarrow> server_wf st'"
  "server_wf st \<Longrightarrow> srv_issue_resume_token C env st = Some (raw, st') \<Longrightarrow> server_wf st'"
  by (auto simp: srv_issue_auth_token_def srv_issue_resume_token_def server_wf_unfold)

lemma bootstrap_output_keeps_wf [neosh_inv]:
  "server_wf st \<Longrightarrow> srv_bootstrap_output C env st = Some (out, st') \<Longrightarrow> server_wf st'"
  by (auto simp: srv_bootstrap_output_def split: option.splits dest: issue_keeps_wf)

lemma sweep_tokens_keeps_wf [neosh_inv]: "server_wf st \<Longrightarrow> server_wf (sweep_tokens st now r)"
  by (simp add: sweep_tokens_def server_wf_unfold)

lemma append_replay_alt:
  "append_replay st chunk =
     st\<lparr>srv_replay := take_last (srv_replay_cap st) (srv_replay st @ chunk)\<rparr>"
  by (simp add: append_replay_def take_last_def Let_def)

lemma append_replay_keeps_wf [neosh_inv]: "server_wf st \<Longrightarrow> server_wf (append_replay st chunk)"
  by (auto simp: append_replay_alt server_wf_unfold)

lemma server_wf_expire:
  assumes "server_wf st"
  shows "server_wf (st\<lparr>srv_sessions := snd (expire (srv_sessions st) (srv_session_id st))\<rparr>)"
  using assms
  by (auto simp: server_wf_unfold expire_def session_wf_def elim!: detached_okE)

lemma detached_timeout_keeps_wf [neosh_inv]:
  "server_wf st \<Longrightarrow> server_wf (snd (expire_if_detached_timeout st now))"
  using server_wf_expire [of st]
  by (simp add: expire_if_detached_timeout_def Let_def split: option.split)

lemma initial_timeout_keeps_wf [neosh_inv]:
  "server_wf st \<Longrightarrow> server_wf (snd (expire_if_initial_attach_timeout st now))"
  using server_wf_expire [of st]
  by (simp add: expire_if_initial_attach_timeout_def split: option.split)

lemma released_state [simp]:
  "sess_state (released s) =
     (if sess_state s \<in> {Terminated, Expired} then sess_state s else Detached)"
  "attached_conn_id (released s) = None"
  by (auto simp: released_def Let_def)

lemma release_if_current_keeps_wf [neosh_inv]:
  assumes "server_wf st"
  shows "server_wf (release_if_current st conn epoch now)"
proof -
  from assms obtain s where s: "srv_sessions st (srv_session_id st) = Some s" and
    ok: "detached_ok (Some s) (srv_detached_at st)"
    by (auto simp: server_wf_unfold elim!: detached_okE)
  show ?thesis
  proof (cases "attached_conn_id s = Some conn \<and> attach_epoch s = epoch")
    case True
    then show ?thesis using assms s
      by (simp add: release_if_current_def conditional_stale_cleanup_def server_wf_unfold
          session_wf_def)
  next
    case False
    then show ?thesis using assms s
      by (auto simp: release_if_current_def conditional_stale_cleanup_def)
  qed
qed

lemma terminate_keeps_wf:
  assumes "server_wf st"
  shows "server_wf (st\<lparr>srv_sessions := snd (terminate (srv_sessions st) (srv_session_id st)),
                       srv_detached_at := None\<rparr>)"
  using assms
  by (auto simp: server_wf_unfold terminate_def session_wf_def elim!: detached_okE)

lemma finalize_keeps_wf [neosh_inv]:
  "server_wf st \<Longrightarrow> server_wf (finalize_connection_cleanup st conn epoch reason now)"
  by (simp add: finalize_connection_cleanup_def release_if_current_keeps_wf terminate_keeps_wf)

section \<open>The replay buffer keeps the last bytes\<close>

text \<open>What a bounded log promises: an append keeps the last bytes of everything so far.\<close>

locale bounded_log =
  fixes append :: "'s \<Rightarrow> 'a list \<Rightarrow> 's"
    and contents :: "'s \<Rightarrow> 'a list"
    and cap :: "'s \<Rightarrow> nat"
  assumes contents_append: "contents (append s xs) = take_last (cap s) (contents s @ xs)"
    and cap_append: "cap (append s xs) = cap s"
begin

lemma cap_run: "cap (foldl append s xss) = cap s"
  by (induction xss arbitrary: s) (simp_all add: cap_append)

lemma contents_run:
  "length (contents s) \<le> cap s \<Longrightarrow>
   contents (foldl append s xss) = take_last (cap s) (contents s @ concat xss)"
proof (induction xss arbitrary: s)
  case Nil
  then show ?case by simp
next
  case (Cons xs xss)
  have "length (contents (append s xs)) \<le> cap (append s xs)"
    by (simp add: contents_append cap_append)
  with Cons.IH have "contents (foldl append (append s xs) xss) =
      take_last (cap s) (contents (append s xs) @ concat xss)"
    by (simp add: cap_append)
  then show ?case by (simp add: contents_append take_last_append_take_last)
qed

lemma contents_bounded: "length (contents s) \<le> cap s \<Longrightarrow> length (contents (foldl append s xss)) \<le> cap s"
  by (simp add: contents_run)

end

interpretation replay_log: bounded_log append_replay srv_replay srv_replay_cap
  by unfold_locales (simp_all add: append_replay_alt)

lemma append_replay_run:
  "foldl append_replay st chunks = st\<lparr>srv_replay := srv_replay (foldl append_replay st chunks)\<rparr>"
proof (induction chunks arbitrary: st)
  case (Cons c chunks)
  let ?st = "append_replay st c"
  have "foldl append_replay ?st chunks = ?st\<lparr>srv_replay := srv_replay (foldl append_replay ?st chunks)\<rparr>"
    by (rule Cons.IH)
  also have "\<dots> = st\<lparr>srv_replay := srv_replay (foldl append_replay ?st chunks)\<rparr>"
    by (simp add: append_replay_alt)
  finally show ?case by simp
qed simp

text \<open>
  Whatever chunks of output the server appends, its replay buffer then holds the last bytes
  of the whole output up to the configured bound, in order, and nothing else of the server
  changes.
\<close>

theorem replay_keeps_last_output:
  "(let st = server_state_new sid owner uid q fp cfg now in
      foldl append_replay st chunks =
        st\<lparr>srv_replay := take_last (arg_replay_buffer_bytes cfg) (concat chunks)\<rparr>)"
proof -
  let ?st = "server_state_new sid owner uid q fp cfg now"
  have "srv_replay (foldl append_replay ?st chunks) =
      take_last (srv_replay_cap ?st) (srv_replay ?st @ concat chunks)"
    by (rule replay_log.contents_run) (simp add: server_state_new_def)
  then have "srv_replay (foldl append_replay ?st chunks) =
      take_last (arg_replay_buffer_bytes cfg) (concat chunks)"
    by (simp add: server_state_new_def)
  with append_replay_run [of ?st chunks] show ?thesis by simp
qed

section \<open>When a session times out\<close>

lemma duration_since_ge:
  "(\<exists>d. duration_since now t = Some d \<and> d \<ge> k) \<longleftrightarrow> t + int k \<le> now"
  by (auto simp: duration_since_def)

lemma timeouts_frame:
  "server_wf st \<Longrightarrow> expire_if_detached_timeout st now = (False, st') \<Longrightarrow> st' = st"
  "expire_if_initial_attach_timeout st now = (False, st') \<Longrightarrow> st' = st"
  by (auto simp: expire_if_detached_timeout_def expire_if_initial_attach_timeout_def expire_def
      get_session_def server_wf_unfold Let_def elim!: detached_okE split: option.splits if_splits)

lemma timeouts_exact_eqs:
  assumes "server_wf st"
  shows "expire_if_detached_timeout st now =
      (if srv_session_timeout st \<noteq> 0 \<and>
          (\<exists>t. srv_detached_at st = Some t \<and> t + int (srv_session_timeout st) \<le> now)
       then (True, st\<lparr>srv_sessions := snd (expire (srv_sessions st) (srv_session_id st))\<rparr>)
       else (False, st))"
    and "expire_if_initial_attach_timeout st now =
      (if srv_initial_attach_timeout st \<noteq> 0 \<and> map_option sess_state (srv_session st) = Some Created \<and>
          srv_created_at st + int (srv_initial_attach_timeout st) \<le> now
       then (True, st\<lparr>srv_sessions := snd (expire (srv_sessions st) (srv_session_id st))\<rparr>)
       else (False, st))"
    and "map_option sess_state (srv_session st) = Some Attached \<Longrightarrow> srv_detached_at st = None"
proof -
  obtain s where s: "srv_sessions st (srv_session_id st) = Some s" and
    d: "srv_detached_at st \<noteq> None \<Longrightarrow> sess_state s \<in> {Detached, Expired, Terminated}"
    using assms by (auto simp: server_wf_unfold elim!: detached_okE)
  show "expire_if_detached_timeout st now =
      (if srv_session_timeout st \<noteq> 0 \<and>
          (\<exists>t. srv_detached_at st = Some t \<and> t + int (srv_session_timeout st) \<le> now)
       then (True, st\<lparr>srv_sessions := snd (expire (srv_sessions st) (srv_session_id st))\<rparr>)
       else (False, st))"
    using s by (cases "srv_detached_at st")
      (auto simp: expire_if_detached_timeout_def duration_since_def expire_def get_session_def
        Let_def)
  show "expire_if_initial_attach_timeout st now =
      (if srv_initial_attach_timeout st \<noteq> 0 \<and> map_option sess_state (srv_session st) = Some Created \<and>
          srv_created_at st + int (srv_initial_attach_timeout st) \<le> now
       then (True, st\<lparr>srv_sessions := snd (expire (srv_sessions st) (srv_session_id st))\<rparr>)
       else (False, st))"
    using s by (auto simp: expire_if_initial_attach_timeout_def duration_since_def
        get_session_def srv_session_def)
  show "map_option sess_state (srv_session st) = Some Attached \<Longrightarrow> srv_detached_at st = None"
    using s d by (cases "srv_detached_at st") (auto simp: srv_session_def)
qed

text \<open>
  C26: The two timeouts fire exactly when they should: the detachment timeout when it is enabled
  and the session has been without a connection for at least that long, the initial one when it
  is enabled and no connection has attached since the server was created that long ago. Firing
  expires the session and cuts nothing else; otherwise the state is untouched. In particular an
  attached session is never expired by either.
\<close>

theorem timeouts_exact:
  assumes "server_wf st"
  shows "expire_if_detached_timeout st now =
      (if srv_session_timeout st \<noteq> 0 \<and>
          (\<exists>t. srv_detached_at st = Some t \<and> t + int (srv_session_timeout st) \<le> now)
       then (True, st\<lparr>srv_sessions := snd (expire (srv_sessions st) (srv_session_id st))\<rparr>)
       else (False, st)) \<and>
    expire_if_initial_attach_timeout st now =
      (if srv_initial_attach_timeout st \<noteq> 0 \<and> map_option sess_state (srv_session st) = Some Created \<and>
          srv_created_at st + int (srv_initial_attach_timeout st) \<le> now
       then (True, st\<lparr>srv_sessions := snd (expire (srv_sessions st) (srv_session_id st))\<rparr>)
       else (False, st)) \<and>
    (map_option sess_state (srv_session st) = Some Attached \<longrightarrow>
      expire_if_detached_timeout st now = (False, st) \<and>
      expire_if_initial_attach_timeout st now = (False, st))"
  using timeouts_exact_eqs [OF assms] by (auto simp: srv_session_def)

definition demo_args :: new_args where
  "demo_args =
     \<lparr>arg_user = ''ann'', arg_port_range = ''30000:39999'', arg_bind_server = ''ssh'',
      arg_tls_cert = [], arg_tls_key = [], arg_working_directory = '' /srv '', arg_command = [],
      arg_session_timeout = 600, arg_initial_attach_timeout = 300, arg_auth_token_ttl = 60,
      arg_resume_token_ttl = 86400, arg_quic_idle_timeout_seconds = 60,
      arg_replay_buffer_bytes = 8\<rparr>"

definition demo_server :: server_state where
  "demo_server = server_state_new 1 ''ann'' 1000 ''127.0.0.1:30000'' ''sha256:00'' demo_args 0"

lemma demo_server_wf: "server_wf demo_server"
  by (simp add: demo_server_def server_state_new_wf)

theorem timeouts_exact_witness:
  "expire_if_initial_attach_timeout demo_server (int (300 * nanos_per_sec)) =
     (True, demo_server\<lparr>srv_sessions := snd (expire (srv_sessions demo_server) 1)\<rparr>) \<and>
   expire_if_initial_attach_timeout demo_server (int (300 * nanos_per_sec) - 1) =
     (False, demo_server)"
proof -
  have "srv_session demo_server \<noteq> None" "srv_initial_attach_timeout demo_server = 300 * nanos_per_sec"
    "map_option sess_state (srv_session demo_server) = Some Created"
    "srv_created_at demo_server = 0" "srv_session_id demo_server = 1"
    by (simp_all add: demo_server_def server_state_new_def demo_args_def duration_from_secs_def
        srv_session_def create_session_with_id_def)
  then show ?thesis
    using timeouts_exact [OF demo_server_wf, of "int (300 * nanos_per_sec)"]
      timeouts_exact [OF demo_server_wf, of "int (300 * nanos_per_sec) - 1"]
    by (simp add: nanos_per_sec_def)
qed

end
