(* ===== verification/Data_Plane.thy ===== *)
theory Data_Plane
  imports Server_State
begin

text \<open>
  Terminal input and output of the server (\<open>ensure_pty_runtime\<close> and \<open>start_data_plane\<close> of
  \<open>src/src/bin/neoshd.rs\<close>): the start of the terminal with its reader thread, and the two tasks of
  an attached connection. A thread or task is a function of what its calls return, one entry for
  each round of its loop; a list that ends leaves it waiting for the next.
\<close>

section \<open>Starting the terminal\<close>

text \<open>The outside of one call: the terminal crate, the variable \<open>SHELL\<close>, a fresh channel.\<close>

record pty_env =
  pe_os :: pty_system
  pe_shell_var :: "string option"
  pe_channel :: nat

definition resolve_login_shell :: "string option \<Rightarrow> string" where
  "resolve_login_shell shell_var =
     (case shell_var of
        Some v \<Rightarrow> if trim v \<noteq> [] then v else ''sh''
      | None \<Rightarrow> ''sh'')"

definition ensure_pty_runtime ::
  "pty_env \<Rightarrow> server_state \<Rightarrow> (neoshd_error + unit) \<times> server_state" where
  "ensure_pty_runtime pe st =
     (if srv_pty st \<noteq> None then (Inr (), st)
      else
        let shell = resolve_login_shell (pe_shell_var pe)
        in case pty_spawn (pe_os pe) 24 80 shell (srv_working_directory st)
                  (srv_startup_command st) of
             Inl e \<Rightarrow> (Inl (NeInternal (pty_error_text e)), st)
           | Inr p \<Rightarrow>
               (case take_reader p of
                  (Inl e, p') \<Rightarrow> (Inl (NeInternal (pty_error_text e)), st)
                | (Inr reader, p') \<Rightarrow>
                    (Inr (), st\<lparr>srv_pty_writer := Some (writer p'),
                                srv_output_tx := Some (pe_channel pe),
                                srv_pty := Some p', srv_pty_exited := False\<rparr>)))"

text \<open>
  The reader thread: what it does with what its reads return, up to 4096 bytes each. Its last two
  actions are the flag and then the empty chunk.
\<close>

datatype reader_action = SendChunk bytes | MarkExited

fun reader_thread :: "(string + bytes) list \<Rightarrow> reader_action list" where
  "reader_thread [] = []"
| "reader_thread (Inl e # reads) = [MarkExited, SendChunk []]"
| "reader_thread (Inr buf # reads) =
     (if buf = [] then [MarkExited, SendChunk []] else SendChunk buf # reader_thread reads)"

section \<open>The data plane of a connection\<close>

record data_plane =
  dp_writer :: nat
  dp_tx :: nat
  dp_stdout :: bytes

text \<open>What the locked block takes from the state; a connection that attaches gets no replay.\<close>

definition data_plane_snapshot :: "server_state \<Rightarrow> bool \<Rightarrow> neoshd_error + data_plane" where
  "data_plane_snapshot st resume =
     (case srv_pty_writer st of
        None \<Rightarrow> Inl (NeInternal ''PTY writer missing'')
      | Some w \<Rightarrow>
          (case srv_output_tx st of
             None \<Rightarrow> Inl (NeInternal ''PTY output channel missing'')
           | Some tx \<Rightarrow>
               Inr \<lparr>dp_writer = w, dp_tx = tx,
                    dp_stdout = (if resume then srv_replay st else [])\<rparr>))"

text \<open>
  \<open>opened\<close> is the result of opening the \<open>STDOUT\<close> stream, \<open>written\<close> that of writing to it. The result
  carries what has been written to the stream when the tasks start.
\<close>

definition start_data_plane ::
  "string + unit \<Rightarrow> (bytes \<Rightarrow> string + unit) \<Rightarrow> server_state \<Rightarrow> bool \<Rightarrow> neoshd_error + data_plane" where
  "start_data_plane opened written st resume =
     (case opened of
        Inl e \<Rightarrow> Inl (NeProtocol (''open STDOUT stream failed: '' @ e))
      | Inr _ \<Rightarrow>
          (case data_plane_snapshot st resume of
             Inl e \<Rightarrow> Inl e
           | Inr dp \<Rightarrow>
               if dp_stdout dp \<noteq> [] then
                 (case written (dp_stdout dp) of
                    Inl e \<Rightarrow> Inl (NeInternal (''write replay failed: '' @ e))
                  | Inr _ \<Rightarrow> Inr dp)
               else Inr dp))"

text \<open>
  One round of the output task: \<open>recv\<close> on the broadcast channel returned a chunk, or told the
  receiver that it had fallen behind by \<open>n\<close> chunks, or that the channel is closed. The result is
  the state, what reached the stream, and whether the task goes on.
\<close>

datatype recv_result = RecvOk bytes | RecvLagged u64 | RecvClosed

definition out_task_step ::
  "server_state \<Rightarrow> recv_result \<Rightarrow> bool \<Rightarrow> server_state \<times> bytes \<times> bool" where
  "out_task_step st r write_ok =
     (case r of
        RecvOk chunk \<Rightarrow>
          if chunk = [] then (st, [], False)
          else
            let st' = append_replay st chunk
            in if write_ok then (st', chunk, True) else (st', [], False)
      | RecvLagged n \<Rightarrow> (st, [], False)
      | RecvClosed \<Rightarrow> (st, [], False))"

text \<open>The task: the state, the stream, and whether the task has ended and finished the stream.\<close>

fun out_task :: "server_state \<Rightarrow> (recv_result \<times> bool) list \<Rightarrow> server_state \<times> bytes \<times> bool" where
  "out_task st [] = (st, [], False)"
| "out_task st ((r, write_ok) # rs) =
     (case out_task_step st r write_ok of
        (st', written, goes_on) \<Rightarrow>
          if goes_on then (case out_task st' rs of (st'', later, ended) \<Rightarrow> (st'', written @ later, ended))
          else (st', written, True))"

text \<open>
  One round of the input task: the read from the \<open>STDIN\<close> stream, the lock of the writer (\<open>None\<close>
  when it is poisoned), and the write to the terminal. The result is what the terminal was given
  and whether the task goes on.
\<close>

datatype stdin_read = StdinData bytes | StdinEnd | StdinError string

definition in_task_step :: "stdin_read \<Rightarrow> (bytes \<Rightarrow> string + unit) option \<Rightarrow> bytes \<times> bool" where
  "in_task_step r lock =
     (case r of
        StdinData buf \<Rightarrow>
          (case lock of
             Some write_all \<Rightarrow>
               (case write_all buf of Inl e \<Rightarrow> ([], False) | Inr _ \<Rightarrow> (buf, True))
           | None \<Rightarrow> ([], False))
      | StdinEnd \<Rightarrow> ([], False)
      | StdinError e \<Rightarrow> ([], False))"

text \<open>\<open>accepted\<close> is the result of waiting for the client's \<open>STDIN\<close> stream.\<close>

fun in_task_loop :: "(stdin_read \<times> (bytes \<Rightarrow> string + unit) option) list \<Rightarrow> bytes \<times> bool" where
  "in_task_loop [] = ([], False)"
| "in_task_loop ((r, lock) # rs) =
     (case in_task_step r lock of
        (given, True) \<Rightarrow> (case in_task_loop rs of (later, ended) \<Rightarrow> (given @ later, ended))
      | (given, False) \<Rightarrow> (given, True))"

definition in_task ::
  "string + unit \<Rightarrow> (stdin_read \<times> (bytes \<Rightarrow> string + unit) option) list \<Rightarrow> bytes \<times> bool" where
  "in_task accepted rounds =
     (case accepted of Inl e \<Rightarrow> ([], True) | Inr _ \<Rightarrow> in_task_loop rounds)"

section \<open>The terminal is started once\<close>

lemma take_reader_spawned:
  "pty_spawn os r c sh wd sc = Inr p \<Longrightarrow>
   \<exists>h. take_reader p = (Inr h, p\<lparr>pty_reader := None\<rparr>)"
  by (auto simp: take_reader_def dest: pty_spawn_reader)

lemma ensure_pty_frame [neosh_frame]:
  assumes "ensure_pty_runtime pe st = (res, st')"
  shows "srv_sessions st' = srv_sessions st" "srv_tokens st' = srv_tokens st"
    "srv_session_id st' = srv_session_id st" "srv_owner_user st' = srv_owner_user st"
    "srv_replay st' = srv_replay st" "srv_replay_cap st' = srv_replay_cap st"
    "srv_detached_at st' = srv_detached_at st"
  using assms
  by (auto simp: ensure_pty_runtime_def Let_def split: if_splits sum.splits prod.splits)

lemma ensure_pty_error_keeps: "ensure_pty_runtime pe st = (Inl e, st') \<Longrightarrow> st' = st"
  by (auto simp: ensure_pty_runtime_def Let_def split: if_splits sum.splits prod.splits)

lemma ensure_pty_ok:
  assumes "ensure_pty_runtime pe st = (Inr (), st')" and "server_wf st"
  shows "srv_pty st' \<noteq> None \<and> srv_pty_writer st' \<noteq> None \<and> srv_output_tx st' \<noteq> None"
  using assms
  by (cases "srv_pty st")
    (auto simp: ensure_pty_runtime_def server_wf_def Let_def split: sum.splits prod.splits)

lemma ensure_pty_keeps_wf [neosh_inv]:
  assumes "server_wf st"
  shows "server_wf (snd (ensure_pty_runtime pe st))"
proof (cases "srv_pty st")
  case None
  then show ?thesis using assms
    by (auto simp: ensure_pty_runtime_def server_wf_unfold Let_def split: sum.splits prod.splits)
qed (simp add: ensure_pty_runtime_def assms)

lemma ensure_pty_idem:
  "ensure_pty_runtime pe st = (Inr (), st') \<Longrightarrow> ensure_pty_runtime pe' st' = (Inr (), st')"
  by (auto simp: ensure_pty_runtime_def Let_def split: if_splits sum.splits prod.splits)

text \<open>A state with a terminal always has what a data plane needs.\<close>

lemma data_plane_snapshot_ok:
  "server_wf st \<Longrightarrow> srv_pty st \<noteq> None \<Longrightarrow>
   \<exists>w tx. data_plane_snapshot st resume =
     Inr \<lparr>dp_writer = w, dp_tx = tx, dp_stdout = (if resume then srv_replay st else [])\<rparr>"
  by (cases "srv_pty st") (auto simp: server_wf_def data_plane_snapshot_def)

lemma start_data_plane_stdout:
  "start_data_plane opened written st resume = Inr dp \<Longrightarrow>
   dp_stdout dp = (if resume then srv_replay st else [])"
  by (auto simp: start_data_plane_def data_plane_snapshot_def split: sum.splits option.splits if_splits)

section \<open>The reader thread\<close>

fun is_data :: "string + bytes \<Rightarrow> bool" where
  "is_data (Inl e) = False"
| "is_data (Inr b) = (b \<noteq> [])"

text \<open>
  The reader thread sends every chunk it read, in order and unchanged, and once a read ends
  the output or fails it first raises the exit flag and then sends one empty chunk, and nothing
  after: whoever sees the end of the output sees the flag raised.
\<close>

theorem reader_thread_flags_then_ends:
  "reader_thread reads =
     map (\<lambda>r. SendChunk (projr r)) (takeWhile is_data reads) @
     (if takeWhile is_data reads = reads then [] else [MarkExited, SendChunk []])"
  by (induction reads rule: reader_thread.induct) auto

section \<open>Output and replay\<close>

lemma out_task_step_frame:
  assumes "out_task_step st r ok = (st', w, go)"
  shows "st' = st\<lparr>srv_replay := srv_replay st'\<rparr>"
  using assms
  by (auto simp: out_task_step_def append_replay_alt Let_def split: recv_result.splits if_splits)

lemma out_task_frame [neosh_frame]:
  "out_task st rs = (st', w, ended) \<Longrightarrow> st' = st\<lparr>srv_replay := srv_replay st'\<rparr>"
proof (induction rs arbitrary: st w)
  case (Cons a rs)
  obtain r ok where a: "a = (r, ok)" by fastforce
  obtain t v go where t: "out_task_step st r ok = (t, v, go)" by (cases "out_task_step st r ok")
  note f = out_task_step_frame [OF t]
  show ?case
  proof (cases go)
    case True
    then obtain u where "out_task t rs = (st', u, ended)"
      using Cons.prems a t by (auto split: prod.splits)
    then have "st' = t\<lparr>srv_replay := srv_replay st'\<rparr>" by (rule Cons.IH)
    also have "\<dots> = st\<lparr>srv_replay := srv_replay st'\<rparr>" by (subst f) simp
    finally show ?thesis .
  qed (use Cons.prems a t f in auto)
qed simp

text \<open>Everything a task wrote to its client is in the buffer, and at most one chunk more.\<close>

lemma out_task_replay:
  assumes "out_task st rs = (st', w, ended)" and "length (srv_replay st) \<le> srv_replay_cap st"
  shows "\<exists>x. srv_replay st' = take_last (srv_replay_cap st) (srv_replay st @ w @ x) \<and>
    ((\<forall>r\<in>set rs. snd r) \<longrightarrow> x = []) \<and> (x = [] \<or> (\<exists>r\<in>set rs. fst r = RecvOk x))"
  using assms
proof (induction st rs arbitrary: w rule: out_task.induct)
  case (1 st)
  then show ?case by auto
next
  case (2 st r ok rs)
  show ?case
  proof (cases "\<exists>c. r = RecvOk c \<and> c \<noteq> []")
    case False
    then have "st' = st" "w = []" using 2(2) by (cases r; auto simp: out_task_step_def)+
    then show ?thesis using 2(3) by (intro exI [of _ "[]"]) simp
  next
    case True
    then obtain c where r: "r = RecvOk c" and c: "c \<noteq> []" by blast
    let ?t = "append_replay st c"
    have rep: "srv_replay ?t = take_last (srv_replay_cap st) (srv_replay st @ c)"
      and cap: "srv_replay_cap ?t = srv_replay_cap st"
      by (simp_all add: append_replay_alt)
    show ?thesis
    proof (cases ok)
      case False
      then have "st' = ?t" "w = []" using 2(2) r c by (auto simp: out_task_step_def Let_def)
      with rep False r show ?thesis by (intro exI [of _ c]) auto
    next
      case True
      with 2(2) r c obtain v where v: "out_task ?t rs = (st', v, ended)" and w: "w = c @ v"
        by (auto simp: out_task_step_def Let_def split: prod.splits)
      have "\<exists>x. srv_replay st' = take_last (srv_replay_cap ?t) (srv_replay ?t @ v @ x) \<and>
          ((\<forall>r\<in>set rs. snd r) \<longrightarrow> x = []) \<and> (x = [] \<or> (\<exists>r\<in>set rs. fst r = RecvOk x))"
        by (rule 2(1)) (use v r c True rep cap in \<open>auto simp: out_task_step_def Let_def\<close>)
      then show ?thesis using rep cap w
        by (auto simp: take_last_append_take_last)
    qed
  qed
qed

text \<open>
  A resumed connection continues the output where the previous one stood: what is written to
  its stream, the replay and then the new chunks, ends the sequence of all output, earlier and
  later; it starts no later than the configured bound allows, and when that bound was not exceeded
  it repeats every byte the previous connection was sent. The chunk whose delivery failed on the
  previous connection is repeated too.
\<close>

theorem resume_continues_output:
  assumes "server_wf st"
    and "out_task st rs = (st1, w1, ended1)"
    and "start_data_plane opened written st1 True = Inr dp"
    and "out_task st1 rs2 = (st2, w2, ended2)"
  shows "\<exists>x. dp_stdout dp @ w2 =
      take_last (srv_replay_cap st) (srv_replay st @ w1 @ x) @ w2 \<and>
    suffix (dp_stdout dp @ w2) (srv_replay st @ w1 @ x @ w2) \<and>
    (length (srv_replay st @ w1 @ x) \<le> srv_replay_cap st \<longrightarrow>
      dp_stdout dp = srv_replay st @ w1 @ x) \<and>
    ((\<forall>r\<in>set rs. snd r) \<longrightarrow> x = [])"
proof -
  have "length (srv_replay st) \<le> srv_replay_cap st" using assms(1) by (simp add: server_wf_def)
  then obtain x where x: "srv_replay st1 = take_last (srv_replay_cap st) (srv_replay st @ w1 @ x)"
    and ok: "(\<forall>r\<in>set rs. snd r) \<longrightarrow> x = []"
    using out_task_replay [OF assms(2)] by blast
  have dp: "dp_stdout dp = srv_replay st1" using start_data_plane_stdout [OF assms(3)] by simp
  have "suffix (dp_stdout dp) (srv_replay st @ w1 @ x)" by (simp add: dp x take_last_suffix)
  then have "suffix (dp_stdout dp @ w2) (srv_replay st @ w1 @ x @ w2)"
    by (auto simp: suffix_def)
  with dp x ok show ?thesis by auto
qed

theorem resume_continues_output_witness:
  "let st = demo_server\<lparr>srv_pty := Some \<lparr>pty_master = 3, pty_writer_handle = 5, pty_reader = None,
                            pty_child = 4\<rparr>,
                          srv_pty_writer := Some 5, srv_output_tx := Some 1\<rparr>;
       st1 = fst (out_task st [(RecvOk [1, 2], True), (RecvOk [3], False)])
   in start_data_plane (Inr ()) (\<lambda>_. Inr ()) st1 True =
        Inr \<lparr>dp_writer = 5, dp_tx = 1, dp_stdout = [1, 2, 3]\<rparr> \<and>
      (\<exists>x. [1, 2, 3] @ [4] = take_last 8 ([] @ [1, 2] @ x) @ ([4] :: bytes))"
proof -
  let ?p = "\<lparr>pty_master = 3, pty_writer_handle = 5, pty_reader = None, pty_child = 4\<rparr>"
  let ?st = "demo_server\<lparr>srv_pty := Some ?p, srv_pty_writer := Some 5, srv_output_tx := Some 1\<rparr>"
  let ?st1 = "?st\<lparr>srv_replay := [1, 2, 3]\<rparr>"
  have demo: "srv_replay demo_server = []" "srv_replay_cap demo_server = 8"
    by (simp_all add: demo_server_def server_state_new_def demo_args_def)
  have wf: "server_wf ?st" using demo_server_wf
    by (simp add: server_wf_unfold)
  have o1: "out_task ?st [(RecvOk [1, 2], True), (RecvOk [3], False)] = (?st1, [1, 2], True)"
    by (simp add: out_task_step_def append_replay_def demo Let_def)
  have dp: "start_data_plane (Inr ()) (\<lambda>_. Inr ()) ?st1 True =
      Inr \<lparr>dp_writer = 5, dp_tx = 1, dp_stdout = [1, 2, 3]\<rparr>"
    by (simp add: start_data_plane_def data_plane_snapshot_def)
  have o2: "out_task ?st1 [(RecvOk [4], True)] = (append_replay ?st1 [4], [4], False)"
    by (simp add: out_task_step_def Let_def)
  show ?thesis
    using resume_continues_output [OF wf o1 dp o2] o1 dp by (auto simp: demo Let_def)
qed

end
