(* ===== verification/Connection.thy ===== *)
theory Connection
  imports Framing Dispatcher Data_Plane
begin

text \<open>
  One connection of the server (\<open>handle_connection\<close> and its helpers in \<open>src/src/bin/neoshd.rs\<close>):
  reading and writing control frames, one definition for the branch of each message kind, the
  loop over frames and the cleanup at its end. A branch is a function of what its calls into the
  outside return (\<open>conn_env\<close>); \<open>serde_json\<close> and the message schemas it derives are the record
  \<open>codec\<close>.
\<close>

section \<open>Messages and their codec\<close>

text \<open>The JSON objects the server writes, by their fields other than the type.\<close>

datatype 'v server_msg =
    HelloAck string string "string list" u64
  | AuthOk uuid string u64
  | AttachOk uuid
  | ResumeOk uuid nat
  | PongReply 'v
  | ErrorFrame error_message

record auth_req = aq_token :: string

record attach_req = tq_session_id :: uuid

record resume_req =
  rq_session_id :: uuid
  rq_resume_token :: string

record resize_req =
  zq_rows :: u16
  zq_cols :: u16

record 'v codec =
  de_type :: "bytes \<Rightarrow> string option"
  de_auth :: "bytes \<Rightarrow> string + auth_req"
  de_attach :: "bytes \<Rightarrow> string + attach_req"
  de_resume :: "bytes \<Rightarrow> string + resume_req"
  de_resize :: "bytes \<Rightarrow> string + resize_req"
  de_nonce :: "bytes \<Rightarrow> 'v option"
  empty_nonce :: 'v
  ser_msg :: "'v server_msg \<Rightarrow> string + bytes"

section \<open>Control frames\<close>

fun framing_error_text :: "framing_error \<Rightarrow> string" where
  "framing_error_text TooShort = ''frame too short''"
| "framing_error_text LengthMismatch = ''frame length mismatch''"
| "framing_error_text TooLarge = ''frame too large''"

text \<open>\<open>e\<close> is the text of the stream's error when it ends or fails.\<close>

definition read_control_frame :: "string \<Rightarrow> bytes \<Rightarrow> neoshd_error + (bytes \<times> bytes)" where
  "read_control_frame e s =
     (case read_exact 4 s of
        None \<Rightarrow> Inl (NeProtocol (''read frame length failed: '' @ e))
      | Some (len_buf, s1) \<Rightarrow>
          let payload_len =
            unat (from_be_bytes (len_buf ! 0) (len_buf ! 1) (len_buf ! 2) (len_buf ! 3))
          in if payload_len > max_control_frame
             then Inl (NeProtocol ''control frame too large'')
             else
               (case read_exact payload_len s1 of
                  None \<Rightarrow> Inl (NeProtocol (''read frame payload failed: '' @ e))
                | Some (payload, s2) \<Rightarrow>
                    (case decode_frame (len_buf @ payload) max_control_frame of
                       Inl fe \<Rightarrow> Inl (NeProtocol (''decode frame failed: '' @ framing_error_text fe))
                     | Inr decoded \<Rightarrow> Inr (decoded, s2))))"

lemma read_control_frame_alt:
  "read_control_frame e s =
     (if length s < 4 then Inl (NeProtocol (''read frame length failed: '' @ e))
      else if header_len s > max_control_frame then Inl (NeProtocol ''control frame too large'')
      else if length s < 4 + header_len s
        then Inl (NeProtocol (''read frame payload failed: '' @ e))
      else Inr (take (header_len s) (drop 4 s), drop (4 + header_len s) s))"
proof (cases "length s < 4 \<or> header_len s > max_control_frame \<or> length s < 4 + header_len s")
  case True
  then show ?thesis
    by (auto simp: read_control_frame_def read_exact_def header_len_def Let_def)
next
  case False
  then have hl: "header_len (take 4 s @ x) = header_len s" for x
    by (simp add: header_len_def nth_append)
  have d: "decode_frame (take 4 s @ take (header_len s) (drop 4 s)) max_control_frame =
      Inr (take (header_len s) (drop 4 s))"
    using False by (simp add: decode_frame_alt hl) linarith
  have h: "unat (from_be_bytes (take 4 s ! 0) (take 4 s ! 1) (take 4 s ! 2) (take 4 s ! 3)) = header_len s"
    by (simp add: header_len_def)
  have 1: "read_exact 4 s = Some (take 4 s, drop 4 s)"
    and 2: "read_exact (header_len s) (drop 4 s) =
      Some (take (header_len s) (drop 4 s), drop (header_len s) (drop 4 s))"
    using False by (simp_all add: read_exact_def) linarith
  show ?thesis using False
    by (simp only: read_control_frame_def 1 2 d h Let_def option.case prod.case sum.case drop_drop)
      (simp add: add.commute)
qed

interpretation server_frames: frame_reader "read_control_frame e" max_control_frame for e
  by (rule frame_readerI [OF read_control_frame_alt]) (simp add: max_control_frame_def)

definition write_control_json ::
  "'v codec \<Rightarrow> (bytes \<Rightarrow> string + unit) \<Rightarrow> 'v server_msg \<Rightarrow> neoshd_error + bytes" where
  "write_control_json cd write_all msg =
     (case ser_msg cd msg of
        Inl e \<Rightarrow> Inl (NeInternal e)
      | Inr payload \<Rightarrow>
          let frame = encode_frame payload
          in case write_all frame of
               Inl e \<Rightarrow> Inl (NeProtocol (''write frame failed: '' @ e))
             | Inr _ \<Rightarrow> Inr frame)"

definition write_error_frame ::
  "'v codec \<Rightarrow> (bytes \<Rightarrow> string + unit) \<Rightarrow> neoshd_error \<Rightarrow> neoshd_error + bytes" where
  "write_error_frame cd write_all err =
     write_control_json cd write_all (ErrorFrame (error_frame_for err))"

section \<open>The state of a connection\<close>

text \<open>The local variables of \<open>handle_connection\<close>.\<close>

record conn =
  cn_id :: uuid
  cn_dispatcher :: dispatcher
  cn_attached_epoch :: "u64 option"
  cn_authed :: bool
  cn_cleanup_reason :: cleanup_reason

definition conn_new :: "uuid \<Rightarrow> conn" where
  "conn_new cid =
     \<lparr>cn_id = cid, cn_dispatcher = dispatcher_default, cn_attached_epoch = None, cn_authed = False,
      cn_cleanup_reason = ConnectionEnd\<rparr>"

text \<open>
  What one round of the loop gets from outside: two readings of the clock (one for the checks and
  the detachment, one inside the token service with its random bytes), the writes to the control
  stream, the terminal, and the \<open>STDOUT\<close> stream.
\<close>

record conn_env =
  ce_now :: system_time
  ce_issue :: issue_env
  ce_write :: "bytes \<Rightarrow> string + unit"
  ce_pty :: pty_env
  ce_open_uni :: "string + unit"
  ce_write_uni :: "bytes \<Rightarrow> string + unit"

text \<open>
  How a branch leaves: on to the next frame, out of the loop, out of the function through \<open>?\<close>,
  by a panic, or, for an attachment, past its locked block with the reply and the data plane still
  to come.
\<close>

datatype flow =
    NextFrame | BreakLoop | ReturnErr neoshd_error | Panicked | Attaching bool uuid nat

type_synonym branch_result = "flow \<times> bytes \<times> conn \<times> server_state"

text \<open>A write followed by \<open>?\<close>.\<close>

definition send_then ::
  "neoshd_error + bytes \<Rightarrow> flow \<Rightarrow> conn \<Rightarrow> server_state \<Rightarrow> branch_result" where
  "send_then w k c st =
     (case w of Inl e \<Rightarrow> (ReturnErr e, [], c, st) | Inr frame \<Rightarrow> (k, frame, c, st))"

text \<open>Every refusal writes an error frame and leaves the loop.\<close>

definition refuse ::
  "'v codec \<Rightarrow> conn_env \<Rightarrow> neoshd_error \<Rightarrow> conn \<Rightarrow> server_state \<Rightarrow> branch_result" where
  "refuse cd env err c st = send_then (write_error_frame cd (ce_write env) err) BreakLoop c st"

section \<open>The branches\<close>

definition handle_hello ::
  "'v codec \<Rightarrow> conn_env \<Rightarrow> conn \<Rightarrow> server_state \<Rightarrow> branch_result" where
  "handle_hello cd env c st =
     (let timeout = duration_as_secs (srv_session_timeout st)
      in send_then
           (write_control_json cd (ce_write env)
              (HelloAck ''0.1.0'' server_version [''stdin-bytes'', ''resume-v1''] timeout))
           NextFrame c st)"

definition handle_auth ::
  "'v codec \<Rightarrow> crypto \<Rightarrow> conn_env \<Rightarrow> bytes \<Rightarrow> conn \<Rightarrow> server_state \<Rightarrow> branch_result" where
  "handle_auth cd C env payload c st =
     (case de_auth cd payload of
        Inl e \<Rightarrow> refuse cd env (NeProtocol (''bad AUTH payload: '' @ e)) c st
      | Inr req \<Rightarrow>
          (case validate_and_consume_auth C (srv_tokens st) (aq_token req) (srv_session_id st)
                  (srv_owner_user st) (ce_now env) of
             (Inl err, svc) \<Rightarrow>
               refuse cd env (map_token_auth_error err) c (st\<lparr>srv_tokens := svc\<rparr>)
           | (Inr _, svc) \<Rightarrow>
               let st1 = st\<lparr>srv_tokens := svc\<rparr>
               in case srv_issue_resume_token C (ce_issue env) st1 of
                    None \<Rightarrow> (Panicked, [], c, st1)
                  | Some (resume, st2) \<Rightarrow>
                      send_then
                        (write_control_json cd (ce_write env)
                           (AuthOk (srv_session_id st) resume
                              (duration_as_secs (srv_resume_token_ttl st))))
                        NextFrame (c\<lparr>cn_authed := True\<rparr>) st2))"

text \<open>
  The end of the locked block that \<open>ATTACH\<close> and \<open>RESUME\<close> share: \<open>detached_at\<close> is reset and the
  terminal started; an error there leaves the function.
\<close>

definition attach_locked ::
  "conn_env \<Rightarrow> bool \<Rightarrow> uuid \<Rightarrow> u64 \<Rightarrow> conn \<Rightarrow> server_state \<Rightarrow> branch_result" where
  "attach_locked env resume sid epoch c st =
     (case ensure_pty_runtime (ce_pty env) (st\<lparr>srv_detached_at := None\<rparr>) of
        (Inl e, st') \<Rightarrow> (ReturnErr e, [], c, st')
      | (Inr _, st') \<Rightarrow>
          (Attaching resume sid (length (srv_replay st')), [],
           c\<lparr>cn_attached_epoch := Some epoch\<rparr>, st'))"

definition handle_attach ::
  "'v codec \<Rightarrow> conn_env \<Rightarrow> bytes \<Rightarrow> conn \<Rightarrow> server_state \<Rightarrow> branch_result" where
  "handle_attach cd env payload c st =
     (if \<not> cn_authed c then refuse cd env (NeProtocol ''ATTACH before AUTH'') c st
      else
        case de_attach cd payload of
          Inl e \<Rightarrow> refuse cd env (NeProtocol (''bad ATTACH payload: '' @ e)) c st
        | Inr req \<Rightarrow>
            if tq_session_id req \<noteq> srv_session_id st then refuse cd env NeSessionNotFound c st
            else
              (case attach_exclusive (srv_sessions st) (srv_session_id st) (cn_id c) of
                 (Inl err, m) \<Rightarrow>
                   refuse cd env (map_session_error err) c (st\<lparr>srv_sessions := m\<rparr>)
               | (Inr epoch, m) \<Rightarrow>
                   attach_locked env False (tq_session_id req) epoch c (st\<lparr>srv_sessions := m\<rparr>)))"

definition handle_resume ::
  "'v codec \<Rightarrow> crypto \<Rightarrow> conn_env \<Rightarrow> bytes \<Rightarrow> conn \<Rightarrow> server_state \<Rightarrow> branch_result" where
  "handle_resume cd C env payload c st =
     (if \<not> cn_authed c then refuse cd env (NeProtocol ''RESUME before AUTH'') c st
      else
        case de_resume cd payload of
          Inl e \<Rightarrow> refuse cd env (NeProtocol (''bad RESUME payload: '' @ e)) c st
        | Inr req \<Rightarrow>
            if rq_session_id req \<noteq> srv_session_id st then refuse cd env NeSessionNotFound c st
            else
              (case validate_resume C (srv_tokens st) (rq_resume_token req) (srv_session_id st)
                      (srv_owner_user st) (ce_now env) of
                 (Inl err, svc) \<Rightarrow>
                   refuse cd env (map_token_resume_error err) c (st\<lparr>srv_tokens := svc\<rparr>)
               | (Inr _, svc) \<Rightarrow>
                   let st1 = st\<lparr>srv_tokens := svc\<rparr>
                   in case attach_exclusive (srv_sessions st1) (srv_session_id st1) (cn_id c) of
                        (Inl err, m) \<Rightarrow>
                          refuse cd env (map_session_error err) c (st1\<lparr>srv_sessions := m\<rparr>)
                      | (Inr epoch, m) \<Rightarrow>
                          attach_locked env True (rq_session_id req) epoch c
                            (st1\<lparr>srv_sessions := m\<rparr>)))"

text \<open>After the locked block of either: the reply, then the data plane.\<close>

definition finish_attach ::
  "'v codec \<Rightarrow> conn_env \<Rightarrow> bool \<Rightarrow> uuid \<Rightarrow> nat \<Rightarrow> conn \<Rightarrow> server_state \<Rightarrow> branch_result" where
  "finish_attach cd env resume sid replay_len c st =
     (case write_control_json cd (ce_write env)
             (if resume then ResumeOk sid replay_len else AttachOk sid) of
        Inl e \<Rightarrow> (ReturnErr e, [], c, st)
      | Inr frame \<Rightarrow>
          (case start_data_plane (ce_open_uni env) (ce_write_uni env) st resume of
             Inl e \<Rightarrow> (ReturnErr e, frame, c, st)
           | Inr dp \<Rightarrow> (NextFrame, frame, c, st)))"

definition handle_resize ::
  "'v codec \<Rightarrow> conn_env \<Rightarrow> bytes \<Rightarrow> conn \<Rightarrow> server_state \<Rightarrow> branch_result" where
  "handle_resize cd env payload c st =
     (case de_resize cd payload of
        Inl e \<Rightarrow> refuse cd env (NeProtocol (''bad RESIZE payload: '' @ e)) c st
      | Inr req \<Rightarrow>
          (case srv_pty st of
             None \<Rightarrow> (NextFrame, [], c, st)
           | Some p \<Rightarrow>
               (case resize (pe_os (ce_pty env)) p (zq_rows req) (zq_cols req) of
                  Inl e \<Rightarrow> (ReturnErr (NeInternal (pty_error_text e)), [], c, st)
                | Inr _ \<Rightarrow> (NextFrame, [], c, st))))"

definition handle_detach :: "conn_env \<Rightarrow> conn \<Rightarrow> server_state \<Rightarrow> branch_result" where
  "handle_detach env c st =
     (case detach (srv_sessions st) (srv_session_id st) (cn_id c) of
        (Inl err, m) \<Rightarrow> (ReturnErr (map_session_error err), [], c, st\<lparr>srv_sessions := m\<rparr>)
      | (Inr _, m) \<Rightarrow>
          (BreakLoop, [], c\<lparr>cn_cleanup_reason := ExplicitDetach\<rparr>,
           st\<lparr>srv_sessions := m, srv_detached_at := Some (ce_now env)\<rparr>))"

definition handle_close :: "conn \<Rightarrow> server_state \<Rightarrow> branch_result" where
  "handle_close c st =
     (case terminate (srv_sessions st) (srv_session_id st) of
        (Inl err, m) \<Rightarrow> (ReturnErr (map_session_error err), [], c, st\<lparr>srv_sessions := m\<rparr>)
      | (Inr _, m) \<Rightarrow> (BreakLoop, [], c, st\<lparr>srv_sessions := m\<rparr>))"

definition handle_ping ::
  "'v codec \<Rightarrow> conn_env \<Rightarrow> bytes \<Rightarrow> conn \<Rightarrow> server_state \<Rightarrow> branch_result" where
  "handle_ping cd env payload c st =
     (let nonce = (case de_nonce cd payload of Some v \<Rightarrow> v | None \<Rightarrow> empty_nonce cd)
      in send_then (write_control_json cd (ce_write env) (PongReply nonce)) NextFrame c st)"

fun handle_kind ::
  "'v codec \<Rightarrow> crypto \<Rightarrow> conn_env \<Rightarrow> bytes \<Rightarrow> message_kind \<Rightarrow> conn \<Rightarrow> server_state \<Rightarrow> branch_result" where
  "handle_kind cd C env payload Hello c st = handle_hello cd env c st"
| "handle_kind cd C env payload Auth c st = handle_auth cd C env payload c st"
| "handle_kind cd C env payload Attach c st = handle_attach cd env payload c st"
| "handle_kind cd C env payload Resume c st = handle_resume cd C env payload c st"
| "handle_kind cd C env payload Resize c st = handle_resize cd env payload c st"
| "handle_kind cd C env payload Detach c st = handle_detach env c st"
| "handle_kind cd C env payload Close c st = handle_close c st"
| "handle_kind cd C env payload Ping c st = handle_ping cd env payload c st"
| "handle_kind cd C env payload Pong c st = (NextFrame, [], c, st)"
| "handle_kind cd C env payload ErrorMsg c st = (NextFrame, [], c, st)"

text \<open>One frame: its kind, the dispatcher, the branch.\<close>

definition on_control_frame ::
  "'v codec \<Rightarrow> crypto \<Rightarrow> conn_env \<Rightarrow> bytes \<Rightarrow> conn \<Rightarrow> server_state \<Rightarrow> branch_result" where
  "on_control_frame cd C env payload c st =
     (case parse_message_kind (de_type cd) payload of
        None \<Rightarrow> refuse cd env (NeProtocol ''unknown control message'') c st
      | Some kind \<Rightarrow>
          (case on_message (cn_dispatcher c) kind of
             (Inl _, d) \<Rightarrow>
               refuse cd env (NeProtocol ''out-of-order control message'') (c\<lparr>cn_dispatcher := d\<rparr>) st
           | (Inr _, d) \<Rightarrow> handle_kind cd C env payload kind (c\<lparr>cn_dispatcher := d\<rparr>) st))"

text \<open>What follows the loop.\<close>

definition conn_cleanup :: "system_time \<Rightarrow> conn \<Rightarrow> server_state \<Rightarrow> server_state" where
  "conn_cleanup now c st =
     (case cn_attached_epoch c of
        None \<Rightarrow> st
      | Some epoch \<Rightarrow> finalize_connection_cleanup st (cn_id c) epoch (cn_cleanup_reason c) now)"

section \<open>A connection on its own\<close>

text \<open>
  The whole function when no other task touches the state between its steps: one entry for each
  round of the loop, \<open>Inl\<close> when reading the frame fails. The first component of the result is
  \<open>NextFrame\<close> while the function waits for more, \<open>BreakLoop\<close> when it has returned \<open>Ok\<close>, and the
  failure otherwise.
\<close>

definition conn_round ::
  "'v codec \<Rightarrow> crypto \<Rightarrow> conn_env \<Rightarrow> bytes \<Rightarrow> conn \<Rightarrow> server_state \<Rightarrow> branch_result" where
  "conn_round cd C env payload c st =
     (case on_control_frame cd C env payload c st of
        (Attaching resume sid n, out, c', st') \<Rightarrow>
          (case finish_attach cd env resume sid n c' st' of
             (fl, out', c'', st'') \<Rightarrow> (fl, out @ out', c'', st''))
      | r \<Rightarrow> r)"

fun conn_loop ::
  "'v codec \<Rightarrow> crypto \<Rightarrow> (conn_env \<times> (neoshd_error + bytes)) list \<Rightarrow> conn \<Rightarrow> server_state \<Rightarrow> branch_result" where
  "conn_loop cd C [] c st = (NextFrame, [], c, st)"
| "conn_loop cd C ((env, Inl e) # rs) c st = (BreakLoop, [], c, conn_cleanup (ce_now env) c st)"
| "conn_loop cd C ((env, Inr payload) # rs) c st =
     (case conn_round cd C env payload c st of
        (NextFrame, out, c', st') \<Rightarrow>
          (case conn_loop cd C rs c' st' of (fl, out', c'', st'') \<Rightarrow> (fl, out @ out', c'', st''))
      | (BreakLoop, out, c', st') \<Rightarrow> (BreakLoop, out, c', conn_cleanup (ce_now env) c' st')
      | r \<Rightarrow> r)"

definition handle_connection ::
  "'v codec \<Rightarrow> crypto \<Rightarrow> uuid \<Rightarrow> string + unit \<Rightarrow> (conn_env \<times> (neoshd_error + bytes)) list
   \<Rightarrow> server_state \<Rightarrow> branch_result" where
  "handle_connection cd C conn_id accepted rounds st =
     (case accepted of
        Inl e \<Rightarrow> (ReturnErr (NeProtocol (''control stream missing: '' @ e)), [], conn_new conn_id, st)
      | Inr _ \<Rightarrow> conn_loop cd C rounds (conn_new conn_id) st)"

section \<open>What a branch can do\<close>

lemma send_then_cases:
  assumes "send_then w k c st = (fl, out, c', st')"
  shows "c' = c \<and> st' = st \<and> (w = Inr out \<and> fl = k \<or> out = [] \<and> (\<exists>e. w = Inl e \<and> fl = ReturnErr e))"
  using assms by (auto simp: send_then_def split: sum.splits)

lemma refuse_cases:
  assumes "refuse cd env err c st = (fl, out, c', st')"
  shows "c' = c \<and> st' = st \<and> (fl = BreakLoop \<or> (\<exists>e. fl = ReturnErr e))"
  using send_then_cases assms unfolding refuse_def by blast

text \<open>The operations a connection performs on the session of the process, always in its own name.\<close>

definition own_ops :: "uuid \<Rightarrow> uuid \<Rightarrow> session_op set" where
  "own_ops sid cid =
     {OpAttach sid cid, OpDetach sid cid, OpTerminate sid} \<union> range (OpStaleCleanup sid cid)"

text \<open>
  A step of a connection as a history of the two stores: what it did to them is a sequence of
  their operations, and the identity of the server and its replay buffer are untouched.
\<close>

definition store_step ::
  "crypto \<Rightarrow> uuid \<Rightarrow> session_op list \<Rightarrow> token_op list \<Rightarrow> server_state \<Rightarrow> server_state \<Rightarrow> bool" where
  "store_step C cid sops tops st st' \<longleftrightarrow>
     srv_sessions st' = foldl session_exec (srv_sessions st) sops \<and>
     srv_tokens st' = foldl (token_exec C) (srv_tokens st) tops \<and>
     set sops \<subseteq> own_ops (srv_session_id st) cid \<and>
     srv_session_id st' = srv_session_id st \<and> srv_owner_user st' = srv_owner_user st \<and>
     srv_replay st' = srv_replay st \<and> srv_replay_cap st' = srv_replay_cap st"

lemma store_step_refl [simp]: "store_step C cid [] [] st st"
  by (simp add: store_step_def)

lemma attach_locked_store:
  assumes "attach_locked env resume sid epoch c st = (fl, out, c', st')"
  shows "store_step C cid [] [] st st'"
  using assms by (auto simp: attach_locked_def store_step_def split: prod.splits sum.splits
      dest: ensure_pty_frame)

lemma store_step_trans:
  "store_step C cid s1 t1 st st1 \<Longrightarrow> store_step C cid s2 t2 st1 st2 \<Longrightarrow>
   store_step C cid (s1 @ s2) (t1 @ t2) st st2"
  by (simp add: store_step_def)

lemma store_step_session:
  "oper \<in> own_ops (srv_session_id st) cid \<Longrightarrow> session_exec (srv_sessions st) oper = m \<Longrightarrow>
   store_step C cid [oper] [] st (st\<lparr>srv_sessions := m\<rparr>)"
  by (simp add: store_step_def)

lemma store_step_token:
  "token_exec C (srv_tokens st) oper = svc \<Longrightarrow> store_step C cid [] [oper] st (st\<lparr>srv_tokens := svc\<rparr>)"
  by (simp add: store_step_def)

text \<open>What a step issues carries the random bytes of its environment.\<close>

definition issues_from :: "crypto \<Rightarrow> bytes \<Rightarrow> token_op list \<Rightarrow> bool" where
  "issues_from C rnd tops \<longleftrightarrow>
     (\<forall>raw. \<not> ct_eq C (hash_token C (as_bytes (random_token C rnd))) (hash_token C (as_bytes raw)) \<longrightarrow>
       (\<forall>oper\<in>set tops. issues_other C raw oper))"

lemma issues_from_Nil [simp]: "issues_from C rnd []"
  by (simp add: issues_from_def)

lemma handle_auth_store:
  assumes "handle_auth cd C env payload c st = (fl, out, c', st')"
  shows "\<exists>tops. store_step C cid [] tops st st' \<and> cn_id c' = cn_id c \<and>
    cn_attached_epoch c' = cn_attached_epoch c \<and> issues_from C (env_rnd (ce_issue env)) tops \<and>
    (cn_authed c' \<and> \<not> cn_authed c \<longrightarrow>
       (\<exists>req. de_auth cd payload = Inr req \<and>
         tops \<noteq> [] \<and> auth_accepts C (aq_token req) (srv_tokens st) (hd tops)))"
proof (cases "de_auth cd payload")
  case (Inl e)
  with assms show ?thesis
    by (intro exI [of _ "[]"]) (auto simp: handle_auth_def dest!: refuse_cases)
next
  case (Inr req)
  let ?op = "TAuth (aq_token req) (srv_session_id st) (srv_owner_user st) (ce_now env)"
  let ?v = "validate_and_consume_auth C (srv_tokens st) (aq_token req) (srv_session_id st)
    (srv_owner_user st) (ce_now env)"
  let ?st1 = "st\<lparr>srv_tokens := snd ?v\<rparr>"
  have s1: "store_step C cid [] [?op] st ?st1" by (rule store_step_token) simp
  show ?thesis
  proof (cases "fst ?v")
    case (Inl err)
    with assms Inr have "c' = c \<and> st' = ?st1"
      by (cases ?v) (auto simp: handle_auth_def dest!: refuse_cases)
    with s1 show ?thesis by (auto simp: issues_from_def)
  next
    case ok: (Inr u)
    show ?thesis
    proof (cases "srv_issue_resume_token C (ce_issue env) ?st1")
      case None
      with assms Inr ok have "c' = c \<and> st' = ?st1"
        by (cases ?v) (auto simp: handle_auth_def Let_def)
      with s1 show ?thesis by (auto simp: issues_from_def)
    next
      case (Some rt)
      obtain raw st2 where rt: "rt = (raw, st2)" by fastforce
      with assms Inr ok Some have c': "c' = c\<lparr>cn_authed := True\<rparr>" and st': "st' = st2"
        by (cases ?v; auto simp: handle_auth_def Let_def dest!: send_then_cases)+
      let ?op2 = "TIssue ResumeToken (srv_session_id st) (srv_owner_user st)
        (srv_resume_token_ttl st) (env_rnd (ce_issue env)) (env_jti (ce_issue env))
        (env_now (ce_issue env))"
      have "store_step C cid [] [?op2] ?st1 st2"
        using Some rt by (auto simp: srv_issue_resume_token_def issue_resume_token_def store_step_def)
      with s1 have "store_step C cid [] [?op, ?op2] st st'"
        using store_step_trans [OF s1, of "[]" "[?op2]" st2] st' by simp
      moreover have "auth_accepts C (aq_token req) (srv_tokens st) ?op" using ok by simp
      moreover have "issues_from C (env_rnd (ce_issue env)) [?op, ?op2]" by (simp add: issues_from_def)
      ultimately show ?thesis using Inr c' by (intro exI [of _ "[?op, ?op2]"]) simp
    qed
  qed
qed

lemma attach_locked_cases:
  assumes "attach_locked env resume sid epoch c st = (fl, out, c', st')"
  shows "out = [] \<and>
    (fl = Attaching resume sid (length (srv_replay st)) \<and> c' = c\<lparr>cn_attached_epoch := Some epoch\<rparr> \<and>
       ensure_pty_runtime (ce_pty env) (st\<lparr>srv_detached_at := None\<rparr>) = (Inr (), st') \<or>
     (\<exists>e. fl = ReturnErr e \<and> c' = c \<and> st' = st\<lparr>srv_detached_at := None\<rparr> \<and>
       fst (ensure_pty_runtime (ce_pty env) (st\<lparr>srv_detached_at := None\<rparr>)) = Inl e))"
  using assms
  by (auto simp: attach_locked_def split: prod.splits sum.splits
      dest: ensure_pty_error_keeps ensure_pty_frame)

lemma attach_error_keeps: "attach_exclusive m sid c = (Inl e, m') \<Longrightarrow> m' = m"
  by (auto simp: attach_exclusive_def Let_def split: option.splits if_splits)

lemma validate_resume_state: "validate_resume C svc raw sid user now = (r, svc') \<Longrightarrow> svc' = svc"
  using validate_resume_keeps [of C svc raw sid user now] by simp

lemma auth_error_keeps: "validate_and_consume_auth C svc raw sid user now = (Inl e, svc') \<Longrightarrow> svc' = svc"
  using auth_rejected_keeps [of C svc raw sid user now e] by simp

text \<open>Either request is refused without a change, or takes the session for this connection.\<close>

definition takes_session ::
  "conn_env \<Rightarrow> bool \<Rightarrow> uuid \<Rightarrow> conn \<Rightarrow> server_state \<Rightarrow> branch_result \<Rightarrow> bool" where
  "takes_session env resume sid c st r \<longleftrightarrow>
     cn_authed c \<and>
     (\<exists>epoch m. attach_exclusive (srv_sessions st) (srv_session_id st) (cn_id c) = (Inr epoch, m) \<and>
        sid = srv_session_id st \<and>
        r = attach_locked env resume sid epoch c (st\<lparr>srv_sessions := m\<rparr>))"

lemma handle_attach_cases:
  assumes "handle_attach cd env payload c st = (fl, out, c', st')"
  shows "c' = c \<and> st' = st \<and> (fl = BreakLoop \<or> (\<exists>e. fl = ReturnErr e)) \<or>
    takes_session env False (srv_session_id st) c st (fl, out, c', st')"
  using assms
  by (auto simp: handle_attach_def takes_session_def
      dest!: refuse_cases split: if_splits sum.splits prod.splits dest: attach_error_keeps)

lemma handle_resume_cases:
  assumes "handle_resume cd C env payload c st = (fl, out, c', st')"
  shows "c' = c \<and> st' = st \<and> (fl = BreakLoop \<or> (\<exists>e. fl = ReturnErr e)) \<or>
    takes_session env True (srv_session_id st) c st (fl, out, c', st') \<and>
    (\<exists>req. de_resume cd payload = Inr req \<and>
       fst (validate_resume C (srv_tokens st) (rq_resume_token req) (srv_session_id st)
         (srv_owner_user st) (ce_now env)) = Inr ())"
  using assms
  by (auto simp: handle_resume_def takes_session_def Let_def
      dest!: refuse_cases validate_resume_state split: if_splits sum.splits prod.splits
      dest: attach_error_keeps)

lemma takes_session_cases:
  assumes "takes_session env resume sid c st (fl, out, c', st')"
  obtains epoch m where
    "attach_exclusive (srv_sessions st) (srv_session_id st) (cn_id c) = (Inr epoch, m)"
    "cn_authed c" "out = []"
    "fl = Attaching resume sid (length (srv_replay st)) \<and> c' = c\<lparr>cn_attached_epoch := Some epoch\<rparr> \<and>
       ensure_pty_runtime (ce_pty env) (st\<lparr>srv_sessions := m, srv_detached_at := None\<rparr>) = (Inr (), st') \<or>
     (\<exists>e. fl = ReturnErr e \<and> c' = c \<and> st' = st\<lparr>srv_sessions := m, srv_detached_at := None\<rparr> \<and>
       fst (ensure_pty_runtime (ce_pty env) (st\<lparr>srv_sessions := m, srv_detached_at := None\<rparr>)) = Inl e)"
proof -
  from assms obtain epoch m where
    m: "attach_exclusive (srv_sessions st) (srv_session_id st) (cn_id c) = (Inr epoch, m)"
      "cn_authed c" and
    l: "attach_locked env resume sid epoch c (st\<lparr>srv_sessions := m\<rparr>) = (fl, out, c', st')"
    by (auto simp: takes_session_def)
  from attach_locked_cases [OF l] show ?thesis
    by (intro that [OF m]) auto
qed

lemma takes_session_store:
  assumes "takes_session env resume sid c st (fl, out, c', st')"
  shows "store_step C (cn_id c) [OpAttach (srv_session_id st) (cn_id c)] [] st st'"
proof -
  from assms obtain epoch m where
    m: "attach_exclusive (srv_sessions st) (srv_session_id st) (cn_id c) = (Inr epoch, m)" and
    l: "attach_locked env resume sid epoch c (st\<lparr>srv_sessions := m\<rparr>) = (fl, out, c', st')"
    by (auto simp: takes_session_def)
  have "store_step C (cn_id c) [OpAttach (srv_session_id st) (cn_id c)] [] st (st\<lparr>srv_sessions := m\<rparr>)"
    using m by (intro store_step_session) (auto simp: own_ops_def)
  from store_step_trans [OF this attach_locked_store [OF l]] show ?thesis by simp
qed

lemma handle_detach_cases:
  assumes "handle_detach env c st = (fl, out, c', st')"
  shows "out = [] \<and> (c' = c \<and> (\<exists>e. fl = ReturnErr e) \<and> st' = st \<or>
    fl = BreakLoop \<and> c' = c\<lparr>cn_cleanup_reason := ExplicitDetach\<rparr> \<and>
    (\<exists>m. detach (srv_sessions st) (srv_session_id st) (cn_id c) = (Inr (), m) \<and>
       st' = st\<lparr>srv_sessions := m, srv_detached_at := Some (ce_now env)\<rparr>))"
  using assms
  by (auto simp: handle_detach_def detach_def split: option.splits if_splits)

lemma handle_detach_store:
  assumes "handle_detach env c st = (fl, out, c', st')"
  shows "\<exists>sops. store_step C (cn_id c) sops [] st st'"
proof -
  let ?m = "snd (detach (srv_sessions st) (srv_session_id st) (cn_id c))"
  from handle_detach_cases [OF assms] consider "st' = st" |
    "st' = st\<lparr>srv_sessions := ?m, srv_detached_at := Some (ce_now env)\<rparr>" by auto
  then show ?thesis
  proof cases
    case 1
    then show ?thesis using store_step_refl by metis
  next
    case 2
    then have "store_step C (cn_id c) [OpDetach (srv_session_id st) (cn_id c)] [] st st'"
      by (simp add: store_step_def own_ops_def)
    then show ?thesis ..
  qed
qed

lemma handle_close_cases:
  assumes "handle_close c st = (fl, out, c', st')"
  shows "out = [] \<and> c' = c \<and> ((\<exists>e. fl = ReturnErr e) \<and> st' = st \<or>
    fl = BreakLoop \<and> st' = st\<lparr>srv_sessions := snd (terminate (srv_sessions st) (srv_session_id st))\<rparr>)"
  using assms by (auto simp: handle_close_def terminate_def split: option.splits)

lemma handle_close_store:
  assumes "handle_close c st = (fl, out, c', st')"
  shows "\<exists>sops. store_step C cid sops [] st st'"
proof -
  have "st' = st\<lparr>srv_sessions := snd (terminate (srv_sessions st) (srv_session_id st))\<rparr>"
    using assms by (auto simp: handle_close_def terminate_def split: option.splits)
  then have "store_step C cid [OpTerminate (srv_session_id st)] [] st st'"
    by (simp add: store_step_def own_ops_def)
  then show ?thesis ..
qed

lemma handle_quiet_cases:
  "handle_hello cd env c st = (fl, out, c', st') \<Longrightarrow> c' = c \<and> st' = st \<and> fl \<in> {NextFrame} \<union> range ReturnErr"
  "handle_ping cd env payload c st = (fl, out, c', st') \<Longrightarrow>
     c' = c \<and> st' = st \<and> fl \<in> {NextFrame} \<union> range ReturnErr"
  "handle_resize cd env payload c st = (fl, out, c', st') \<Longrightarrow>
     c' = c \<and> st' = st \<and> fl \<in> {NextFrame, BreakLoop} \<union> range ReturnErr"
  by (auto simp: handle_hello_def handle_ping_def handle_resize_def Let_def
      dest!: send_then_cases refuse_cases split: sum.splits option.splits)

text \<open>Any frame: a history of the stores, with the auth token that lets a connection in.\<close>

lemma kind_store:
  assumes "handle_kind cd C env payload k c st = (fl, out, c', st')"
  shows "\<exists>sops tops. store_step C (cn_id c) sops tops st st' \<and> cn_id c' = cn_id c \<and>
    issues_from C (env_rnd (ce_issue env)) tops \<and>
    (cn_authed c' \<and> \<not> cn_authed c \<longrightarrow>
       (\<exists>req. de_auth cd payload = Inr req \<and>
         tops \<noteq> [] \<and> auth_accepts C (aq_token req) (srv_tokens st) (hd tops)))"
    (is "\<exists>sops tops. ?P sops tops")
proof -
  have taken_or_not: "\<exists>sops tops. ?P sops tops"
    if "c' = c \<and> st' = st \<and> F \<or> takes_session env resume sid c st (fl, out, c', st')" for F resume sid
    using that
  proof
    assume "c' = c \<and> st' = st \<and> F"
    then have "?P [] []" by simp
    then show ?thesis by blast
  next
    assume t: "takes_session env resume sid c st (fl, out, c', st')"
    then have "cn_id c' = cn_id c \<and> (cn_authed c' \<longrightarrow> cn_authed c)"
      by (rule takes_session_cases) auto
    then have "?P [OpAttach (srv_session_id st) (cn_id c)] []"
      using takes_session_store [OF t, of C] by simp
    then show ?thesis by blast
  qed
  show ?thesis
  proof (cases k)
    case Auth
    then show ?thesis using handle_auth_store [of cd C env payload c st fl out c' st' "cn_id c"] assms
      by simp blast
  next
    case Attach
    then have "handle_attach cd env payload c st = (fl, out, c', st')" using assms by simp
    then show ?thesis by (rule handle_attach_cases [THEN taken_or_not])
  next
    case Resume
    then have "handle_resume cd C env payload c st = (fl, out, c', st')" using assms by simp
    then show ?thesis using handle_resume_cases taken_or_not by blast
  next
    case Detach
    then have h: "handle_detach env c st = (fl, out, c', st')" using assms by simp
    obtain sops where "store_step C (cn_id c) sops [] st st'" using handle_detach_store [OF h] ..
    then have "?P sops []" using handle_detach_cases [OF h] by auto
    then show ?thesis by blast
  next
    case Close
    then have h: "handle_close c st = (fl, out, c', st')" using assms by simp
    obtain sops where "store_step C (cn_id c) sops [] st st'"
      using handle_close_store [OF h] by blast
    then have "?P sops []" using handle_close_cases [OF h] by auto
    then show ?thesis by blast
  qed (use assms handle_quiet_cases in \<open>fastforce intro: exI [of _ "[]"]\<close>)+
qed

text \<open>
  The local variables agree with the dispatcher while the loop runs: authenticated exactly from
  the reply to \<open>AUTH\<close> on, attached exactly after \<open>ATTACH\<close> or \<open>RESUME\<close>.
\<close>

definition conn_ok :: "conn \<Rightarrow> bool" where
  "conn_ok c \<longleftrightarrow>
     (cn_authed c \<longleftrightarrow> disp_state (cn_dispatcher c) \<in> {AwaitAttachOrResume, ConnAttached}) \<and>
     (cn_attached_epoch c \<noteq> None \<longleftrightarrow> disp_state (cn_dispatcher c) = ConnAttached) \<and>
     disp_state (cn_dispatcher c) \<noteq> ConnClosed \<and>
     cn_cleanup_reason c = ConnectionEnd"

lemma conn_new_ok: "conn_ok (conn_new cid)"
  by (simp add: conn_ok_def conn_new_def dispatcher_default_def)

definition running :: "flow \<Rightarrow> bool" where
  "running fl \<longleftrightarrow> fl = NextFrame \<or> (\<exists>r sid n. fl = Attaching r sid n)"

lemma running_simps [simp]:
  "running NextFrame" "running (Attaching r sid n)" "\<not> running BreakLoop"
  "\<not> running (ReturnErr e)" "\<not> running Panicked"
  by (simp_all add: running_def)

lemma kind_running:
  assumes "handle_kind cd C env payload k c st = (fl, out, c', st')" and "running fl"
  shows "cn_dispatcher c' = cn_dispatcher c \<and> cn_cleanup_reason c' = cn_cleanup_reason c \<and>
    k \<notin> {Detach, Close} \<and> cn_authed c' = (k = Auth \<or> cn_authed c) \<and>
    (k \<notin> {Attach, Resume} \<longrightarrow> cn_attached_epoch c' = cn_attached_epoch c) \<and>
    (k \<in> {Attach, Resume} \<longrightarrow> cn_authed c \<and> cn_attached_epoch c' \<noteq> None)"
proof (cases k)
  case Auth
  then show ?thesis using assms
    by (auto simp: handle_auth_def Let_def dest!: refuse_cases send_then_cases
        split: sum.splits prod.splits option.splits)
next
  case Attach
  then show ?thesis
    using handle_attach_cases [of cd env payload c st fl out c' st'] assms
    by (auto elim!: takes_session_cases)
next
  case Resume
  then show ?thesis
    using handle_resume_cases [of cd C env payload c st fl out c' st'] assms
    by (auto elim!: takes_session_cases)
next
  case Detach
  then show ?thesis using handle_detach_cases [of env c st fl out c' st'] assms by auto
next
  case Close
  then show ?thesis using handle_close_cases [of c st fl out c' st'] assms by auto
qed (use assms handle_quiet_cases in fastforce)+

lemma on_message_cases:
  assumes "on_message d k = (Inr r, d')"
  shows "(case disp_state d of
      AwaitHello \<Rightarrow> k = Hello \<and> disp_state d' = AwaitAuth \<or> k = Ping \<and> d' = d
    | AwaitAuth \<Rightarrow> k = Auth \<and> disp_state d' = AwaitAttachOrResume \<or> k = Ping \<and> d' = d
    | AwaitAttachOrResume \<Rightarrow> k \<in> {Attach, Resume} \<and> disp_state d' = ConnAttached \<or>
        k = Close \<and> disp_state d' = ConnClosed \<or> k = Ping \<and> d' = d
    | ConnAttached \<Rightarrow> k \<in> {Resize, Detach, Ping} \<and> d' = d \<or> k = Close \<and> disp_state d' = ConnClosed
    | ConnClosed \<Rightarrow> False)"
  using assms by (cases "disp_state d"; cases k) auto

lemma frame_cases:
  assumes "on_control_frame cd C env payload c st = (fl, out, c', st')"
  obtains (refused) d err where "refuse cd env err (c\<lparr>cn_dispatcher := d\<rparr>) st = (fl, out, c', st')"
    | (handled) k d r where "parse_message_kind (de_type cd) payload = Some k"
      "on_message (cn_dispatcher c) k = (Inr r, d)"
      "handle_kind cd C env payload k (c\<lparr>cn_dispatcher := d\<rparr>) st = (fl, out, c', st')"
proof (cases "parse_message_kind (de_type cd) payload")
  case None
  with assms have "refuse cd env (NeProtocol ''unknown control message'')
      (c\<lparr>cn_dispatcher := cn_dispatcher c\<rparr>) st = (fl, out, c', st')"
    by (simp add: on_control_frame_def)
  then show ?thesis by (rule refused)
next
  case (Some k)
  obtain r d where d: "on_message (cn_dispatcher c) k = (r, d)" by fastforce
  with Some assms refused handled show ?thesis
    by (cases r) (auto simp: on_control_frame_def)
qed

lemma frame_conn_ok [neosh_inv]:
  assumes "conn_ok c" and "on_control_frame cd C env payload c st = (fl, out, c', st')" and "running fl"
  shows "conn_ok c'"
  using assms(2)
proof (cases rule: frame_cases)
  case (refused d err)
  then show ?thesis using assms(3) by (auto dest!: refuse_cases)
next
  case (handled k d r)
  note kr = kind_running [OF handled(3) assms(3)]
  show ?thesis using on_message_cases [OF handled(2)] kr assms(1)
    by (cases "disp_state (cn_dispatcher c)") (auto simp: conn_ok_def)
qed

section \<open>The invariant of the server\<close>

lemma server_wf_tokens [simp]: "server_wf (st\<lparr>srv_tokens := svc\<rparr>) = server_wf st"
  by (simp add: server_wf_unfold)

lemma server_wf_attach:
  assumes "server_wf st"
    and "attach_exclusive (srv_sessions st) (srv_session_id st) cid = (Inr epoch, m)"
  shows "server_wf (st\<lparr>srv_sessions := m, srv_detached_at := None\<rparr>)"
  using assms
  by (auto simp: server_wf_unfold attach_exclusive_def session_wf_def Let_def
      split: option.splits if_splits)

lemma server_wf_detach:
  assumes "server_wf st"
    and "detach (srv_sessions st) (srv_session_id st) cid = (Inr (), m)"
  shows "server_wf (st\<lparr>srv_sessions := m, srv_detached_at := Some now\<rparr>)"
  using assms
  by (auto simp: server_wf_unfold detach_def session_wf_def split: option.splits if_splits)

lemma server_wf_terminate:
  assumes "server_wf st"
  shows "server_wf (st\<lparr>srv_sessions := snd (terminate (srv_sessions st) (srv_session_id st))\<rparr>)"
  using assms
  by (auto simp: server_wf_unfold terminate_def session_wf_def elim!: detached_okE)

lemma takes_session_wf:
  assumes "server_wf st" and "takes_session env resume sid c st (fl, out, c', st')"
  shows "server_wf st'"
  using assms(2)
proof (rule takes_session_cases)
  fix epoch m
  let ?st = "st\<lparr>srv_sessions := m, srv_detached_at := None\<rparr>"
  assume m: "attach_exclusive (srv_sessions st) (srv_session_id st) (cn_id c) = (Inr epoch, m)"
    and cs: "fl = Attaching resume sid (length (srv_replay st)) \<and> c' = c\<lparr>cn_attached_epoch := Some epoch\<rparr> \<and>
       ensure_pty_runtime (ce_pty env) ?st = (Inr (), st') \<or>
     (\<exists>e. fl = ReturnErr e \<and> c' = c \<and> st' = ?st \<and>
       fst (ensure_pty_runtime (ce_pty env) ?st) = Inl e)"
  have "server_wf ?st" using assms(1) m by (rule server_wf_attach)
  then show ?thesis using cs ensure_pty_keeps_wf [of ?st "ce_pty env"] by auto
qed

lemma handle_auth_wf:
  assumes "server_wf st" and "handle_auth cd C env payload c st = (fl, out, c', st')"
  shows "server_wf st'"
  using assms
  by (auto simp: handle_auth_def srv_issue_resume_token_def Let_def
      dest!: refuse_cases send_then_cases split: sum.splits prod.splits option.splits)

lemma kind_wf:
  assumes "server_wf st" and "handle_kind cd C env payload k c st = (fl, out, c', st')"
  shows "server_wf st'"
proof (cases k)
  case Auth
  then show ?thesis using assms handle_auth_wf by simp blast
next
  case Attach
  then show ?thesis using assms handle_attach_cases takes_session_wf by simp blast
next
  case Resume
  then show ?thesis using assms handle_resume_cases takes_session_wf by simp blast
next
  case Detach
  then show ?thesis
    using handle_detach_cases [of env c st fl out c' st'] assms by (auto intro: server_wf_detach)
next
  case Close
  then show ?thesis
    using handle_close_cases [of c st fl out c' st'] assms by (auto intro: server_wf_terminate)
qed (use assms handle_quiet_cases in fastforce)+

lemma frame_wf [neosh_inv]:
  assumes "server_wf st" and "on_control_frame cd C env payload c st = (fl, out, c', st')"
  shows "server_wf st'"
  using assms(2)
  by (rule frame_cases) (use assms(1) kind_wf in \<open>auto dest!: refuse_cases\<close>)

lemma frame_store:
  assumes "on_control_frame cd C env payload c st = (fl, out, c', st')"
  shows "\<exists>sops tops. store_step C (cn_id c) sops tops st st' \<and> cn_id c' = cn_id c \<and>
    issues_from C (env_rnd (ce_issue env)) tops \<and>
    (cn_authed c' \<and> \<not> cn_authed c \<longrightarrow>
       (\<exists>req. de_auth cd payload = Inr req \<and>
         tops \<noteq> [] \<and> auth_accepts C (aq_token req) (srv_tokens st) (hd tops)))"
  using assms
proof (cases rule: frame_cases)
  case (refused d err)
  then have "st' = st" "c' = c\<lparr>cn_dispatcher := d\<rparr>" by (auto dest: refuse_cases)
  then show ?thesis by (intro exI [of _ "[]"]) simp
next
  case (handled k d r)
  then show ?thesis using kind_store [OF handled(3)] by simp
qed

lemma finish_attach_cases:
  "finish_attach cd env resume sid n c st = (fl, out, c', st') \<Longrightarrow>
   c' = c \<and> st' = st \<and> fl \<in> {NextFrame} \<union> range ReturnErr"
  by (auto simp: finish_attach_def split: sum.splits)

lemma conn_round_cases:
  assumes "conn_round cd C env payload c st = (fl, out, c', st')"
  shows "\<exists>fl0 out0. on_control_frame cd C env payload c st = (fl0, out0, c', st') \<and>
    (fl = fl0 \<and> out = out0 \<and> (\<forall>r sid n. fl0 \<noteq> Attaching r sid n) \<or>
     (\<exists>r sid n out1. fl0 = Attaching r sid n \<and> fl \<in> {NextFrame} \<union> range ReturnErr \<and> out = out0 @ out1 \<and>
       finish_attach cd env r sid n c' st' = (fl, out1, c', st')))"
  using assms
  using finish_attach_cases
  by (fastforce simp: conn_round_def split: prod.splits flow.splits)

lemma conn_cleanup_store:
  "\<exists>sops. store_step C (cn_id c) sops [] st (conn_cleanup now c st)"
proof -
  let ?sid = "srv_session_id st"
  have rel: "\<exists>sops. store_step C (cn_id c) sops [] st (release_if_current st (cn_id c) e now)" for e
  proof (cases "conditional_stale_cleanup (srv_sessions st) ?sid (cn_id c) e")
    case (Pair b m)
    then have "store_step C (cn_id c) [OpStaleCleanup ?sid (cn_id c) e] [] st
        (release_if_current st (cn_id c) e now)"
      by (cases b) (simp_all add: release_if_current_def store_step_def own_ops_def)
    then show ?thesis ..
  qed
  have "store_step C (cn_id c) [OpTerminate ?sid] [] st
      (st\<lparr>srv_sessions := snd (terminate (srv_sessions st) ?sid), srv_detached_at := None\<rparr>)"
    by (simp add: store_step_def own_ops_def)
  then have ended: "\<exists>sops. store_step C (cn_id c) sops [] st
      (st\<lparr>srv_sessions := snd (terminate (srv_sessions st) ?sid), srv_detached_at := None\<rparr>)" ..
  have none: "\<exists>sops. store_step C (cn_id c) sops [] st st" using store_step_refl by blast
  show ?thesis
    by (simp add: conn_cleanup_def finalize_connection_cleanup_def rel ended none split: option.split)
qed

lemma conn_cleanup_wf [neosh_inv]: "server_wf st \<Longrightarrow> server_wf (conn_cleanup now c st)"
  by (simp add: conn_cleanup_def finalize_keeps_wf split: option.split)

end
