(* ===== verification/Connection_Correct.thy ===== *)
theory Connection_Correct
  imports Connection
begin

text \<open>
  What a connection guarantees: its control stream is a sequence of whole frames in both
  directions, its phases follow the handshake, a refused token tells nothing, and what a failed
  start of the terminal leaves behind.
\<close>

section \<open>The control stream\<close>

text \<open>
  The server's frame reader accepts exactly the frames of payloads up to 64 KiB: what it
  returns is what the sender framed, with the rest of the stream left for the next read.
\<close>

theorem control_frame_reader_exact:
  "read_control_frame e s = Inr (p, rest) \<longleftrightarrow>
     s = encode_frame p @ rest \<and> length p \<le> max_control_frame"
proof
  assume "read_control_frame e s = Inr (p, rest)"
  then show "s = encode_frame p @ rest \<and> length p \<le> max_control_frame"
    by (rule server_frames.reader_sound)
next
  assume "s = encode_frame p @ rest \<and> length p \<le> max_control_frame"
  then show "read_control_frame e s = Inr (p, rest)"
    by (auto intro: server_frames.reader_encode)
qed

text \<open>
  A client's control messages of at most 64 KiB each, sent back to back, are read off the
  stream one by one in order, whatever follows them.
\<close>

theorem control_stream_roundtrip:
  assumes "\<forall>p\<in>set ps. length p \<le> max_control_frame"
  shows "read_frames (read_control_frame e) (length ps) (concat (map encode_frame ps) @ rest) = ps"
  using assms by (rule server_frames.read_frames_encode)

theorem control_stream_roundtrip_witness:
  "read_frames (read_control_frame ''eof'') 2 (encode_frame [1, 2] @ encode_frame [] @ [0, 0]) =
     [[1, 2], []]"
  using control_stream_roundtrip [of "[[1, 2], []]" "''eof''" "[0, 0]"]
  by (simp add: max_control_frame_def numeral_2_eq_2)

definition one_reply :: "'v codec \<Rightarrow> bytes \<Rightarrow> bool" where
  "one_reply cd out \<longleftrightarrow> out = [] \<or> (\<exists>msg p. ser_msg cd msg = Inr p \<and> out = encode_frame p)"

lemma write_control_json_reply: "write_control_json cd w msg = Inr out \<Longrightarrow> one_reply cd out"
  by (auto simp: write_control_json_def one_reply_def Let_def split: sum.splits)

lemma send_then_reply:
  assumes "send_then (write_control_json cd w msg) k c st = (fl, out, r)"
  shows "one_reply cd out"
proof (cases "write_control_json cd w msg")
  case (Inl e)
  then show ?thesis using assms by (auto simp: send_then_def one_reply_def)
next
  case (Inr f)
  then show ?thesis using assms write_control_json_reply [OF Inr] by (auto simp: send_then_def)
qed

lemma refuse_reply: "refuse cd env err c st = (fl, out, r) \<Longrightarrow> one_reply cd out"
  unfolding refuse_def write_error_frame_def by (rule send_then_reply)

lemma one_reply_Nil [simp]: "one_reply cd []"
  by (simp add: one_reply_def)

lemma kind_reply:
  assumes "handle_kind cd C env payload k c st = (fl, out, c', st')"
  shows "one_reply cd out"
proof (cases k)
  case Auth
  then show ?thesis using assms
    by (auto simp: handle_auth_def Let_def split: sum.splits prod.splits option.splits
        dest: refuse_reply send_then_reply)
next
  case Attach
  then show ?thesis using assms
    by (auto simp: handle_attach_def Let_def split: if_splits sum.splits prod.splits
        dest: refuse_reply attach_locked_cases)
next
  case Resume
  then show ?thesis using assms
    by (auto simp: handle_resume_def Let_def split: if_splits sum.splits prod.splits
        dest: refuse_reply attach_locked_cases)
qed (use assms in \<open>auto simp: handle_hello_def handle_resize_def handle_detach_def handle_close_def
    handle_ping_def Let_def split: sum.splits prod.splits option.splits
    dest: refuse_reply send_then_reply\<close>)

lemma frame_reply:
  assumes "on_control_frame cd C env payload c st = (fl, out, c', st')"
  shows "one_reply cd out"
  using assms by (rule frame_cases) (auto dest: refuse_reply kind_reply)

lemma attaching_silent:
  assumes "on_control_frame cd C env payload c st = (Attaching r sid n, out, c', st')"
  shows "out = []"
  using assms
proof (cases rule: frame_cases)
  case (refused d err)
  then show ?thesis by (auto dest: refuse_cases)
next
  case (handled k d x)
  have "k \<in> {Attach, Resume}"
    using kind_running [OF handled(3)] handled(3)
    by (cases k) (auto dest!: handle_quiet_cases handle_detach_cases handle_close_cases
        simp: handle_auth_def Let_def split: sum.splits prod.splits option.splits
        dest: refuse_cases send_then_cases)
  then show ?thesis using handled(3)
    by (auto dest!: handle_attach_cases handle_resume_cases elim!: takes_session_cases)
qed

lemma round_reply:
  assumes "conn_round cd C env payload c st = (fl, out, c', st')"
  shows "one_reply cd out"
proof -
  obtain fl0 out0 where o: "on_control_frame cd C env payload c st = (fl0, out0, c', st')"
    and cs: "out = out0 \<or> (\<exists>r sid n out1. fl0 = Attaching r sid n \<and> out = out0 @ out1 \<and>
      finish_attach cd env r sid n c' st' = (fl, out1, c', st'))"
    using conn_round_cases [OF assms] by blast
  from cs show ?thesis
  proof
    assume "out = out0"
    then show ?thesis using frame_reply [OF o] by simp
  next
    assume "\<exists>r sid n out1. fl0 = Attaching r sid n \<and> out = out0 @ out1 \<and>
      finish_attach cd env r sid n c' st' = (fl, out1, c', st')"
    then obtain r sid n out1 where "fl0 = Attaching r sid n" "out = out0 @ out1"
      "finish_attach cd env r sid n c' st' = (fl, out1, c', st')" by blast
    moreover have "out0 = []" using attaching_silent o calculation(1) by blast
    ultimately show ?thesis
      by (auto simp: finish_attach_def split: sum.splits dest: write_control_json_reply)
  qed
qed

text \<open>
  Everything a connection writes on its control stream is a sequence of whole frames, each
  the encoding of one message the server serialised, and at most one for each frame it received.
\<close>

theorem replies_are_frames:
  assumes "conn_loop cd C rounds c st = (fl, out, c', st')"
  shows "\<exists>ps. length ps \<le> length rounds \<and> (\<forall>p\<in>set ps. \<exists>msg. ser_msg cd msg = Inr p) \<and>
    out = concat (map encode_frame ps)"
  using assms
proof (induction rounds arbitrary: c st out)
  case Nil
  then show ?case by simp
next
  case (Cons x rounds)
  obtain env rd where x: "x = (env, rd)" by fastforce
  show ?case
  proof (cases rd)
    case (Inl e)
    then show ?thesis using Cons.prems x by (intro exI [of _ "[]"]) auto
  next
    case (Inr payload)
    obtain fl1 out1 c1 st1 where r: "conn_round cd C env payload c st = (fl1, out1, c1, st1)"
      by (metis prod_cases4)
    have "\<exists>ps. length ps \<le> 1 \<and> (\<forall>p\<in>set ps. \<exists>msg. ser_msg cd msg = Inr p) \<and>
        out1 = concat (map encode_frame ps)"
      using round_reply [OF r] unfolding one_reply_def
    proof
      assume "out1 = []"
      then show ?thesis by (intro exI [of _ "[]"]) simp
    next
      assume "\<exists>msg p. ser_msg cd msg = Inr p \<and> out1 = encode_frame p"
      then obtain msg p where "ser_msg cd msg = Inr p \<and> out1 = encode_frame p" by blast
      then show ?thesis by (intro exI [of _ "[p]"]) auto
    qed
    then obtain ps1 where ps1: "length ps1 \<le> 1" "\<forall>p\<in>set ps1. \<exists>msg. ser_msg cd msg = Inr p"
      "out1 = concat (map encode_frame ps1)" by blast
    show ?thesis
    proof (cases "fl1 = NextFrame")
      case True
      then obtain out2 where out: "out = out1 @ out2"
        and l: "conn_loop cd C rounds c1 st1 = (fl, out2, c', st')"
        using Cons.prems x Inr r by (auto split: prod.splits)
      from Cons.IH [OF l] obtain ps2 where "length ps2 \<le> length rounds"
        "\<forall>p\<in>set ps2. \<exists>msg. ser_msg cd msg = Inr p" "out2 = concat (map encode_frame ps2)" by blast
      with ps1 out show ?thesis by (intro exI [of _ "ps1 @ ps2"]) auto
    next
      case False
      then have "out = out1" using Cons.prems x Inr r by (cases fl1) auto
      with ps1 show ?thesis by (intro exI [of _ ps1]) auto
    qed
  qed
qed

section \<open>A concrete environment\<close>

text \<open>A small codec for concrete runs: the first byte is the kind, a token is the rest.\<close>

definition demo_codec :: "unit codec" where
  "demo_codec =
     \<lparr>de_type = (\<lambda>p. case p of [] \<Rightarrow> None
        | b # _ \<Rightarrow> Some (if b = 1 then ''HELLO'' else if b = 2 then ''AUTH''
            else if b = 3 then ''ATTACH'' else if b = 4 then ''RESUME''
            else if b = 5 then ''RESIZE'' else if b = 6 then ''DETACH''
            else if b = 7 then ''CLOSE'' else ''PING'')),
      de_auth = (\<lambda>p. Inr \<lparr>aq_token = map (\<lambda>b. char_of (unat b)) (tl p)\<rparr>),
      de_attach = (\<lambda>p. Inr \<lparr>tq_session_id = 1\<rparr>),
      de_resume = (\<lambda>p. Inr \<lparr>rq_session_id = 1, rq_resume_token = map (\<lambda>b. char_of (unat b)) (tl p)\<rparr>),
      de_resize = (\<lambda>p. Inr \<lparr>zq_rows = 40, zq_cols = 100\<rparr>),
      de_nonce = (\<lambda>_. None), empty_nonce = (),
      ser_msg = (\<lambda>m. Inr (case m of HelloAck _ _ _ _ \<Rightarrow> [1] | AuthOk _ _ _ \<Rightarrow> [2] | AttachOk _ \<Rightarrow> [3]
        | ResumeOk _ _ \<Rightarrow> [4] | PongReply _ \<Rightarrow> [5] | ErrorFrame _ \<Rightarrow> [6]))\<rparr>"

definition demo_conn_env :: conn_env where
  "demo_conn_env =
     \<lparr>ce_now = 10, ce_issue = \<lparr>env_rnd = [66], env_jti = 5, env_now = 10\<rparr>,
      ce_write = (\<lambda>_. Inr ()),
      ce_pty = \<lparr>pe_os = demo_pty_system, pe_shell_var = Some ''/bin/sh'', pe_channel = 1\<rparr>,
      ce_open_uni = Inr (), ce_write_uni = (\<lambda>_. Inr ())\<rparr>"

text \<open>The demo server after issuing the auth token \<open>A\<close>.\<close>

definition demo_issued :: server_state where
  "demo_issued = demo_server\<lparr>srv_tokens :=
     [\<lparr>token_hash = [65], tok_type = AuthToken, tok_session_id = 1, tok_user_id = ''ann'', jti = 3,
       expires_at = 60 * 1000000000, consumed_at = None, revoked_at = None, created_at = 0\<rparr>]\<rparr>"

lemmas demo_conn_simps =
  demo_codec_def demo_conn_env_def demo_issued_def demo_server_def server_state_new_def
  demo_args_def demo_pty_system_def demo_crypto_def

lemma demo_char [simp]: "char_of (65 :: nat) = CHR ''A''" "char_of (66 :: nat) = CHR ''B''"
  by code_simp+

text \<open>The run of a client that authenticates, attaches and resizes, frame by frame.\<close>

definition demo_conn :: "connection_state \<Rightarrow> u64 option \<Rightarrow> conn" where
  "demo_conn phase epoch =
     \<lparr>cn_id = 7, cn_dispatcher = \<lparr>disp_state = phase\<rparr>, cn_attached_epoch = epoch,
      cn_authed = (phase = AwaitAttachOrResume \<or> phase = ConnAttached),
      cn_cleanup_reason = ConnectionEnd\<rparr>"

definition demo_authed :: server_state where
  "demo_authed = demo_issued\<lparr>srv_tokens :=
     [\<lparr>token_hash = [65], tok_type = AuthToken, tok_session_id = 1, tok_user_id = ''ann'', jti = 3,
       expires_at = 60 * 1000000000, consumed_at = Some 10, revoked_at = None, created_at = 0\<rparr>,
      \<lparr>token_hash = [66], tok_type = ResumeToken, tok_session_id = 1, tok_user_id = ''ann'', jti = 5,
       expires_at = 10 + 86400 * 1000000000, consumed_at = None, revoked_at = None, created_at = 10\<rparr>]\<rparr>"

definition demo_sessions :: session_manager where
  "demo_sessions = [1 \<mapsto> \<lparr>session_id = 1, owner_user_id = ''ann'',
     sess_quic_addr = ''127.0.0.1:30000'', sess_cert_fingerprint = ''sha256:00'',
     sess_state = Attached, attached_conn_id = Some 7, attach_epoch = 1\<rparr>]"

definition demo_attached :: server_state where
  "demo_attached = demo_authed\<lparr>srv_sessions := demo_sessions,
     srv_pty := Some \<lparr>pty_master = 3, pty_writer_handle = 5, pty_reader = None, pty_child = 4\<rparr>,
     srv_pty_writer := Some 5, srv_output_tx := Some 1\<rparr>"

lemma demo_server_fields [simp]:
  "srv_session_id demo_server = 1" "srv_owner_user demo_server = ''ann''"
  "srv_pty demo_server = None" "srv_detached_at demo_server = None" "srv_tokens demo_server = []"
  "srv_resume_token_ttl demo_server = 86400 * 1000000000" "srv_replay demo_server = []"
  "srv_pty_exited demo_server = False"
  by (simp_all add: demo_server_def server_state_new_def demo_args_def duration_from_secs_def
      nanos_per_sec_def)

lemma demo_attach:
  "attach_exclusive (srv_sessions demo_server) 1 7 = (Inr 1, demo_sessions)"
  by (simp add: demo_server_def server_state_new_def create_session_with_id_def attach_exclusive_def
      saturating_add_def demo_sessions_def)

lemmas demo_step_simps =
  conn_round_def on_control_frame_def parse_message_kind_def demo_codec_def demo_conn_env_def
  demo_conn_def send_then_def write_control_json_def write_error_frame_def refuse_def

lemma demo_hello_frame:
  "on_control_frame demo_codec demo_crypto demo_conn_env [1] (conn_new 7) st =
     (NextFrame, encode_frame [1], demo_conn AwaitAuth None, st)"
  by (simp add: demo_step_simps conn_new_def dispatcher_default_def handle_hello_def)

lemma demo_auth_frame:
  "on_control_frame demo_codec demo_crypto demo_conn_env [2, 65] (demo_conn AwaitAuth None) demo_issued =
     (NextFrame, encode_frame [2], demo_conn AwaitAttachOrResume None, demo_authed)"
  by (simp add: demo_step_simps handle_auth_def validate_and_consume_auth_def find_record_def
      token_matches_def hash_token_def as_bytes_def demo_crypto_def demo_issued_def demo_authed_def
      srv_issue_resume_token_def issue_resume_token_def issue_token_def random_token_def
      system_time_add_def nanos_per_sec_def Let_def)

lemma demo_attach_frame:
  "on_control_frame demo_codec demo_crypto demo_conn_env [3] (demo_conn AwaitAttachOrResume None) demo_authed =
     (Attaching False 1 0, [], demo_conn ConnAttached (Some 1), demo_attached)"
  by (simp add: demo_step_simps handle_attach_def attach_locked_def ensure_pty_runtime_def
      demo_attach demo_pty_spawn take_reader_def writer_def demo_authed_def demo_attached_def
      demo_issued_def Let_def)

lemma demo_finish:
  "finish_attach demo_codec demo_conn_env False 1 0 (demo_conn ConnAttached (Some 1)) demo_attached =
     (NextFrame, encode_frame [3], demo_conn ConnAttached (Some 1), demo_attached)"
  by (simp add: demo_step_simps finish_attach_def start_data_plane_def data_plane_snapshot_def
      demo_authed_def demo_attached_def demo_issued_def Let_def)

lemma demo_rounds:
  "conn_round demo_codec demo_crypto demo_conn_env [1] (conn_new 7) st =
     (NextFrame, encode_frame [1], demo_conn AwaitAuth None, st)"
  "conn_round demo_codec demo_crypto demo_conn_env [2, 65] (demo_conn AwaitAuth None) demo_issued =
     (NextFrame, encode_frame [2], demo_conn AwaitAttachOrResume None, demo_authed)"
  "conn_round demo_codec demo_crypto demo_conn_env [3] (demo_conn AwaitAttachOrResume None) demo_authed =
     (NextFrame, encode_frame [3], demo_conn ConnAttached (Some 1), demo_attached)"
  by (simp_all add: conn_round_def demo_hello_frame demo_auth_frame demo_attach_frame demo_finish)

lemma demo_resize:
  "conn_round demo_codec demo_crypto demo_conn_env [5] (demo_conn ConnAttached (Some 1)) demo_attached =
     (NextFrame, [], demo_conn ConnAttached (Some 1), demo_attached)"
  by (simp add: demo_step_simps handle_resize_def resize_def demo_attached_def demo_pty_system_def)

lemma demo_run:
  "conn_loop demo_codec demo_crypto
      [(demo_conn_env, Inr [1]), (demo_conn_env, Inr [2, 65]), (demo_conn_env, Inr [3]),
       (demo_conn_env, Inr [5])] (conn_new 7) demo_issued =
     (NextFrame, encode_frame [1] @ encode_frame [2] @ encode_frame [3],
      demo_conn ConnAttached (Some 1), demo_attached)"
  by (simp add: demo_rounds demo_resize)

theorem replies_are_frames_witness:
  "\<exists>ps. length ps \<le> 4 \<and> (\<forall>p\<in>set ps. \<exists>msg. ser_msg demo_codec msg = Inr p) \<and>
     encode_frame [1] @ encode_frame [2] @ encode_frame [3] = concat (map encode_frame ps)"
  using replies_are_frames [OF demo_run] by (simp add: numeral_eq_Suc)

section \<open>Phases\<close>

lemma loop_running:
  "conn_loop cd C rounds c st = (NextFrame, out, c', st') \<Longrightarrow> conn_ok c \<Longrightarrow> conn_ok c'"
proof (induction rounds arbitrary: c st out)
  case (Cons x rounds)
  obtain env rd where x: "x = (env, rd)" by fastforce
  with Cons.prems obtain payload where rd: "rd = Inr payload" by (cases rd) auto
  obtain fl1 out1 c1 st1 where r: "conn_round cd C env payload c st = (fl1, out1, c1, st1)"
    by (metis prod_cases4)
  with Cons.prems x rd have fl1: "fl1 = NextFrame" by (cases fl1) auto
  then obtain out2 where l: "conn_loop cd C rounds c1 st1 = (NextFrame, out2, c', st')"
    using Cons.prems x rd r by (auto split: prod.splits)
  obtain fl0 out0 where o: "on_control_frame cd C env payload c st = (fl0, out0, c1, st1)"
    and "running fl0"
    using conn_round_cases [OF r] fl1 by auto
  then have "conn_ok c1" using Cons.prems(2) frame_conn_ok by blast
  then show ?case using Cons.IH [OF l] by blast
qed simp

lemma round_wf:
  assumes "server_wf st" and "conn_round cd C env payload c st = (fl, out, c', st')"
  shows "server_wf st'"
proof -
  obtain fl0 out0 where "on_control_frame cd C env payload c st = (fl0, out0, c', st')"
    using conn_round_cases [OF assms(2)] by blast
  with assms(1) show ?thesis by (rule frame_wf)
qed

lemma loop_wf:
  "conn_loop cd C rounds c st = (fl, out, c', st') \<Longrightarrow> server_wf st \<Longrightarrow> server_wf st'"
proof (induction rounds arbitrary: c st out)
  case (Cons x rounds)
  obtain env rd where x: "x = (env, rd)" by fastforce
  show ?case
  proof (cases rd)
    case (Inl e)
    then show ?thesis using Cons.prems x by (auto intro: conn_cleanup_wf)
  next
    case (Inr payload)
    obtain fl1 out1 c1 st1 where r: "conn_round cd C env payload c st = (fl1, out1, c1, st1)"
      by (metis prod_cases4)
    have wf1: "server_wf st1" using round_wf [OF Cons.prems(2) r] .
    then show ?thesis using Cons.prems(1) x Inr r Cons.IH
      by (cases fl1) (auto split: prod.splits intro: conn_cleanup_wf)
  qed
qed simp

text \<open>
  C15: While a connection runs, its local variables agree with its phase: it is authenticated
  exactly once its \<open>AUTH\<close> was answered, holds an attachment exactly after its \<open>ATTACH\<close> or
  \<open>RESUME\<close>, and so the checks \<open>ATTACH before AUTH\<close> and \<open>RESUME before AUTH\<close> can never fail; and
  however it ends, the server's invariant holds afterwards.
\<close>

theorem connection_phases:
  assumes "server_wf st" and "conn_loop cd C rounds (conn_new cid) st = (fl, out, c, st')"
  shows "server_wf st' \<and>
    (fl = NextFrame \<longrightarrow> conn_ok c \<and>
      (\<forall>k r d. on_message (cn_dispatcher c) k = (Inr r, d) \<and> k \<in> {Attach, Resume} \<longrightarrow> cn_authed c))"
proof -
  have "server_wf st'" using loop_wf [OF assms(2,1)] .
  moreover have "conn_ok c" if "fl = NextFrame"
    using loop_running [of cd C rounds "conn_new cid" st out c st'] assms(2) that conn_new_ok by simp
  moreover have "cn_authed c" if "conn_ok c" "on_message (cn_dispatcher c) k = (Inr r, d)"
      "k \<in> {Attach, Resume}" for k r d
    using on_message_cases [OF that(2)] that(1,3)
    by (cases "disp_state (cn_dispatcher c)") (auto simp: conn_ok_def)
  ultimately show ?thesis by blast
qed

lemma demo_issued_wf: "server_wf demo_issued"
  using demo_server_wf by (simp add: demo_issued_def)

theorem connection_phases_witness:
  "server_wf demo_attached \<and> conn_ok (demo_conn ConnAttached (Some 1))"
  using connection_phases [OF demo_issued_wf demo_run] by simp

section \<open>Attachment\<close>

text \<open>
  C14: What a connection must have shown to be attached: it has authenticated, it names the
  session of the process, for a resumption it presented a resume token that is valid now, and the
  session was neither dead nor held by another connection. It then holds the session under a new
  epoch, the detachment timer is off, and the terminal and its channel exist.
\<close>

theorem attachment_conditions:
  assumes "on_control_frame cd C env payload c st = (Attaching resume sid n, out, c', st')"
    and "server_wf st"
  shows "cn_authed c \<and> sid = srv_session_id st \<and> n = length (srv_replay st) \<and>
    parse_message_kind (de_type cd) payload = Some (if resume then Resume else Attach) \<and>
    (resume \<longrightarrow> (\<exists>req. de_resume cd payload = Inr req \<and>
       fst (validate_resume C (srv_tokens st) (rq_resume_token req) sid (srv_owner_user st) (ce_now env)) = Inr ())) \<and>
    (\<exists>epoch. attach_exclusive (srv_sessions st) sid (cn_id c) = (Inr epoch, srv_sessions st') \<and>
       cn_attached_epoch c' = Some epoch) \<and>
    srv_detached_at st' = None \<and> srv_pty_writer st' \<noteq> None \<and> srv_output_tx st' \<noteq> None"
  using assms(1)
proof (cases rule: frame_cases)
  case (refused d err)
  then show ?thesis by (auto dest: refuse_cases)
next
  case (handled k d x)
  let ?c = "c\<lparr>cn_dispatcher := d\<rparr>"
  have k: "k \<in> {Attach, Resume}"
    using kind_running [OF handled(3)] handled(3)
    by (cases k) (auto dest!: handle_quiet_cases handle_detach_cases handle_close_cases
        simp: handle_auth_def Let_def split: sum.splits prod.splits option.splits
        dest: refuse_cases send_then_cases)
  have ts: "takes_session env (k = Resume) (srv_session_id st) ?c st (Attaching resume sid n, out, c', st')"
    and tok: "k = Resume \<longrightarrow> (\<exists>req. de_resume cd payload = Inr req \<and>
       fst (validate_resume C (srv_tokens st) (rq_resume_token req) (srv_session_id st)
         (srv_owner_user st) (ce_now env)) = Inr ())"
    using k handled(3) by (auto dest!: handle_attach_cases handle_resume_cases)
  from ts show ?thesis
  proof (rule takes_session_cases)
    fix epoch m
    let ?st = "st\<lparr>srv_sessions := m, srv_detached_at := None\<rparr>"
    assume m: "attach_exclusive (srv_sessions st) (srv_session_id st) (cn_id ?c) = (Inr epoch, m)"
      and a: "cn_authed ?c"
      and cs: "Attaching resume sid n = Attaching (k = Resume) (srv_session_id st) (length (srv_replay st)) \<and>
         c' = ?c\<lparr>cn_attached_epoch := Some epoch\<rparr> \<and>
         ensure_pty_runtime (ce_pty env) ?st = (Inr (), st') \<or>
       (\<exists>e. Attaching resume sid n = ReturnErr e \<and> c' = ?c \<and> st' = ?st \<and>
         fst (ensure_pty_runtime (ce_pty env) ?st) = Inl e)"
    then have e: "ensure_pty_runtime (ce_pty env) ?st = (Inr (), st')" by simp
    have wf: "server_wf ?st" using server_wf_attach [OF assms(2) m] .
    show ?thesis
      using m a cs k tok handled(1) ensure_pty_frame(1,7) [OF e] ensure_pty_ok [OF e wf] by auto
  qed
qed

theorem attachment_conditions_witness:
  "cn_authed (demo_conn AwaitAttachOrResume None) \<and> srv_detached_at demo_attached = None \<and>
   srv_pty_writer demo_attached \<noteq> None"
proof -
  have "server_wf demo_authed"
    using demo_server_wf by (simp add: demo_authed_def demo_issued_def)
  from attachment_conditions [OF demo_attach_frame this] show ?thesis by blast
qed

section \<open>Refused tokens\<close>

text \<open>
  A refused auth token tells the client nothing: whichever of the six reasons applies to
  either of two tokens, the reply, the end of the connection and the state of the server are the
  same, and no token or session has changed.
\<close>

theorem auth_refusal_opaque:
  assumes "de_auth cd p1 = Inr r1" and "de_auth cd p2 = Inr r2"
    and "fst (validate_and_consume_auth C (srv_tokens st) (aq_token r1) (srv_session_id st)
      (srv_owner_user st) (ce_now env)) = Inl e1"
    and "fst (validate_and_consume_auth C (srv_tokens st) (aq_token r2) (srv_session_id st)
      (srv_owner_user st) (ce_now env)) = Inl e2"
  shows "handle_auth cd C env p1 c st = handle_auth cd C env p2 c st \<and>
    handle_auth cd C env p1 c st = refuse cd env NeAuthFailed c st \<and>
    snd (snd (snd (handle_auth cd C env p1 c st))) = st"
proof -
  have m: "map_token_auth_error e = NeAuthFailed" for e by (cases e) auto
  have h: "handle_auth cd C env p c st = refuse cd env NeAuthFailed c st"
    if d: "de_auth cd p = Inr r" and f: "fst (validate_and_consume_auth C (srv_tokens st) (aq_token r)
        (srv_session_id st) (srv_owner_user st) (ce_now env)) = Inl e" for p r e
  proof -
    obtain svc where v: "validate_and_consume_auth C (srv_tokens st) (aq_token r)
        (srv_session_id st) (srv_owner_user st) (ce_now env) = (Inl e, svc)"
      using f by (metis prod.collapse)
    then have "svc = srv_tokens st" by (rule auth_error_keeps)
    with d v show ?thesis by (simp add: handle_auth_def m)
  qed
  obtain fl out c' st' where r: "refuse cd env NeAuthFailed c st = (fl, out, c', st')"
    by (metis prod_cases4)
  then have "st' = st" by (auto dest: refuse_cases)
  with h [OF assms(1,3)] h [OF assms(2,4)] r show ?thesis by simp
qed

theorem auth_refusal_opaque_witness:
  "handle_auth demo_codec demo_crypto demo_conn_env [2, 65] (demo_conn AwaitAuth None) demo_authed =
     handle_auth demo_codec demo_crypto demo_conn_env [2, 67] (demo_conn AwaitAuth None) demo_authed"
proof -
  have d: "de_auth demo_codec (b # p) = Inr \<lparr>aq_token = map (\<lambda>b. char_of (unat b)) p\<rparr>" for b p
    by (simp add: demo_codec_def)
  have A: "fst (validate_and_consume_auth demo_crypto (srv_tokens demo_authed) ''A''
      (srv_session_id demo_authed) (srv_owner_user demo_authed) (ce_now demo_conn_env)) = Inl TokConsumed"
    by (simp add: validate_and_consume_auth_def find_record_def token_matches_def hash_token_def
        as_bytes_def demo_crypto_def demo_authed_def demo_issued_def demo_conn_env_def)
  have c: "char_of (67 :: nat) = CHR ''C''" by code_simp
  have B: "fst (validate_and_consume_auth demo_crypto (srv_tokens demo_authed) ''C''
      (srv_session_id demo_authed) (srv_owner_user demo_authed) (ce_now demo_conn_env)) = Inl TokNotFound"
    by (simp add: validate_and_consume_auth_def find_record_def token_matches_def hash_token_def
        as_bytes_def demo_crypto_def demo_authed_def)
  show ?thesis
    by (rule auth_refusal_opaque [OF d d, THEN conjunct1]) (use A B c in simp_all)
qed

section \<open>A terminal that does not start\<close>

lemma attach_takes: "attach_exclusive m sid c = (Inr epoch, m') \<Longrightarrow> lock_holder sid m' = Some c"
  by (auto simp: attach_exclusive_def lock_holder_def Let_def split: option.splits if_splits)

text \<open>
  C16: When the terminal cannot be started for an attachment that was granted, the connection
  function returns through the error without its cleanup: the session stays attached to the
  connection that is gone, every other attachment is denied from then on, and the timeout for
  detached sessions never fires.
\<close>

theorem failed_start_keeps_session:
  assumes "conn_ok c" and "disp_state (cn_dispatcher c) = AwaitAttachOrResume"
    and "parse_message_kind (de_type cd) payload = Some Attach"
    and "de_attach cd payload = Inr \<lparr>tq_session_id = srv_session_id st\<rparr>"
    and "attach_exclusive (srv_sessions st) (srv_session_id st) (cn_id c) = (Inr epoch, m)"
    and "srv_pty st = None"
    and "pty_spawn (pe_os (ce_pty env)) 24 80 (resolve_login_shell (pe_shell_var (ce_pty env)))
      (srv_working_directory st) (srv_startup_command st) = Inl e"
    and "\<forall>oper\<in>set ops. \<not> lock_releases (srv_session_id st) oper (cn_id c) \<and>
      \<not> lock_resets (srv_session_id st) oper"
  shows "\<exists>c' st'. conn_loop cd C [(env, Inr payload)] c st =
      (ReturnErr (NeInternal (pty_error_text e)), [], c', st') \<and>
    lock_holder (srv_session_id st) (srv_sessions st') = Some (cn_id c) \<and>
    expire_if_detached_timeout st' now = (False, st') \<and>
    (\<exists>e'. fst (attach_exclusive (foldl session_exec (srv_sessions st') ops) (srv_session_id st) other) =
      Inl e')"
proof -
  let ?sid = "srv_session_id st"
  let ?st = "st\<lparr>srv_sessions := m, srv_detached_at := None\<rparr>"
  let ?c = "c\<lparr>cn_dispatcher := \<lparr>disp_state = ConnAttached\<rparr>\<rparr>"
  have d: "on_message (cn_dispatcher c) Attach = (Inr DispatchContinue, \<lparr>disp_state = ConnAttached\<rparr>)"
    using assms(2) by simp
  have authed: "cn_authed c" using assms(1,2) by (simp add: conn_ok_def)
  have "ensure_pty_runtime (ce_pty env) ?st = (Inl (NeInternal (pty_error_text e)), ?st)"
    using assms(6,7) by (simp add: ensure_pty_runtime_def Let_def)
  then have "on_control_frame cd C env payload c st =
      (ReturnErr (NeInternal (pty_error_text e)), [], ?c, ?st)"
    using assms(3,4,5) d authed by (simp add: on_control_frame_def handle_attach_def attach_locked_def)
  then have run: "conn_loop cd C [(env, Inr payload)] c st =
      (ReturnErr (NeInternal (pty_error_text e)), [], ?c, ?st)"
    by (simp add: conn_round_def)
  have hold: "lock_holder ?sid m = Some (cn_id c)" using assms(5) by (rule attach_takes)
  have "lock_holder ?sid (foldl session_exec m ops) = Some (cn_id c) \<or>
      lock_dead ?sid (foldl session_exec m ops)"
    by (rule session_lock.hold_run) (use hold assms(8) in auto)
  then have "\<exists>e'. fst (attach_exclusive (foldl session_exec m ops) ?sid other) = Inl e'"
    by (auto simp: attach_exclusive_def lock_holder_def lock_dead_def Let_def split: option.splits)
  moreover have "expire_if_detached_timeout ?st now = (False, ?st)"
    by (simp add: expire_if_detached_timeout_def)
  ultimately show ?thesis using run hold by simp
qed

definition broken_env :: conn_env where
  "broken_env = demo_conn_env\<lparr>ce_pty :=
     \<lparr>pe_os = demo_pty_system\<lparr>os_openpty := \<lambda>_. Inl ''no ptys''\<rparr>, pe_shell_var = None, pe_channel = 1\<rparr>\<rparr>"

theorem failed_start_keeps_session_witness:
  "\<exists>c' st'. conn_loop demo_codec demo_crypto [(broken_env, Inr [3])]
      (demo_conn AwaitAttachOrResume None) demo_authed =
      (ReturnErr (NeInternal ''open pty failed: no ptys''), [], c', st') \<and>
    lock_holder 1 (srv_sessions st') = Some 7 \<and>
    (\<exists>e'. fst (attach_exclusive (foldl session_exec (srv_sessions st') [OpDetach 1 8]) 1 8) = Inl e')"
proof -
  let ?c = "demo_conn AwaitAttachOrResume None"
  have st: "srv_session_id demo_authed = 1" "srv_pty demo_authed = None"
    "srv_sessions demo_authed = srv_sessions demo_server"
    by (simp_all add: demo_authed_def demo_issued_def)
  have h: "conn_ok ?c" "disp_state (cn_dispatcher ?c) = AwaitAttachOrResume" "cn_id ?c = 7"
    "parse_message_kind (de_type demo_codec) [3] = Some Attach"
    "de_attach demo_codec [3] = Inr \<lparr>tq_session_id = srv_session_id demo_authed\<rparr>"
    "attach_exclusive (srv_sessions demo_authed) (srv_session_id demo_authed) (cn_id ?c) =
      (Inr 1, demo_sessions)"
    "pty_spawn (pe_os (ce_pty broken_env)) 24 80 (resolve_login_shell (pe_shell_var (ce_pty broken_env)))
      (srv_working_directory demo_authed) (srv_startup_command demo_authed) = Inl (PtyOpen ''no ptys'')"
    "\<forall>oper\<in>set [OpDetach 1 8]. \<not> lock_releases (srv_session_id demo_authed) oper (cn_id ?c) \<and>
      \<not> lock_resets (srv_session_id demo_authed) oper"
    by (simp_all add: conn_ok_def demo_conn_def parse_message_kind_def demo_codec_def st demo_attach
        broken_env_def pty_spawn_def lock_resets_def)
  show ?thesis
    using failed_start_keeps_session [where C = demo_crypto and other = 8,
        OF h(1,2,4,5,6) st(2) h(7,8)]
    by (simp only: h(3) st pty_error_text.simps append.simps) blast
qed

end
