(* ===== verification/Server_Loop.thy ===== *)
theory Server_Loop
  imports Server_State
begin

text \<open>
  The two loops of the server process beside its connections (\<open>src/src/bin/neoshd.rs\<close>): the accept
  loop with its checks, and the control socket that renews auth tokens, together with the command
  \<open>neoshd renew-auth\<close> at its other end.
\<close>

section \<open>The accept loop\<close>

text \<open>
  The locked block at the head of the loop: a reason to stop, if any. The clock is read once for
  each check.
\<close>

definition accept_tick ::
  "system_time \<Rightarrow> system_time \<Rightarrow> server_state \<Rightarrow> accept_loop_stop_reason option \<times> server_state" where
  "accept_tick now1 now2 st =
     (case expire_if_initial_attach_timeout st now1 of
        (True, st1) \<Rightarrow> (Some InitialAttachTimeout, st1)
      | (False, st1) \<Rightarrow>
          (case expire_if_detached_timeout st1 now2 of
             (True, st2) \<Rightarrow> (Some DetachedSessionTimeout, st2)
           | (False, st2) \<Rightarrow> (server_stop_reason st2, st2)))"

text \<open>What \<open>accept\<close> under its one-second timeout returns.\<close>

datatype accept_result = Incoming | NoMoreIncoming | AcceptTimedOut

text \<open>
  The loop over what its rounds observe, when no connection changes the state in between: the
  reason it stops for, if it does, the state and the number of connections it handed over.
\<close>

fun run_quic_accept_loop ::
  "(system_time \<times> system_time \<times> accept_result) list \<Rightarrow> server_state
   \<Rightarrow> accept_loop_stop_reason option \<times> server_state \<times> nat" where
  "run_quic_accept_loop [] st = (None, st, 0)"
| "run_quic_accept_loop ((now1, now2, acc) # rs) st =
     (case accept_tick now1 now2 st of
        (Some reason, st') \<Rightarrow> (Some reason, st', 0)
      | (None, st') \<Rightarrow>
          (case acc of
             Incoming \<Rightarrow>
               (case run_quic_accept_loop rs st' of (r, st'', n) \<Rightarrow> (r, st'', Suc n))
           | NoMoreIncoming \<Rightarrow> (Some EndpointClosed, st', 0)
           | AcceptTimedOut \<Rightarrow> run_quic_accept_loop rs st'))"

lemma accept_tick_wf [neosh_inv]:
  assumes "server_wf st"
  shows "server_wf (snd (accept_tick now1 now2 st))"
proof -
  obtain b1 st1 where 1: "expire_if_initial_attach_timeout st now1 = (b1, st1)" by fastforce
  obtain b2 st2 where 2: "expire_if_detached_timeout st1 now2 = (b2, st2)" by fastforce
  have "server_wf st1" using initial_timeout_keeps_wf [OF assms, of now1] 1 by simp
  moreover from this have "server_wf st2" using detached_timeout_keeps_wf [of st1 now2] 2 by simp
  ultimately show ?thesis using 1 2 by (cases b1; cases b2) (simp_all add: accept_tick_def)
qed

text \<open>A block that does not stop has changed nothing.\<close>

lemma accept_tick_None:
  assumes "server_wf st" and "accept_tick now1 now2 st = (None, st')"
  shows "st' = st"
proof -
  obtain b1 st1 where 1: "expire_if_initial_attach_timeout st now1 = (b1, st1)" by fastforce
  with assms(2) have b1: "b1 = False" by (cases b1) (auto simp: accept_tick_def)
  with 1 assms(1) have st1: "st1 = st"
    using timeouts_frame(2) by auto
  obtain b2 st2 where 2: "expire_if_detached_timeout st now2 = (b2, st2)" by fastforce
  with assms(2) 1 b1 st1 have b2: "b2 = False" by (cases b2) (auto simp: accept_tick_def)
  with 2 assms(1) have "st2 = st" using timeouts_frame(1) by auto
  with assms(2) 1 2 b1 b2 st1 show ?thesis by (simp add: accept_tick_def)
qed

section \<open>The control socket\<close>

record renew_ipc_req =
  ipc_session_id :: uuid
  ipc_user :: string

datatype ipc_response = IpcError string | IpcBootstrap bootstrap_output

text \<open>
  The answer to one request: \<open>peer\<close> is the user id of the process at the other end, \<open>parsed\<close> what
  \<open>serde_json\<close> makes of the bytes it sent. \<open>None\<close> is a panic of the token service.
\<close>

definition ipc_answer ::
  "crypto \<Rightarrow> issue_env \<Rightarrow> u32 \<Rightarrow> string + renew_ipc_req \<Rightarrow> server_state
   \<Rightarrow> (ipc_response \<times> server_state) option" where
  "ipc_answer C env peer parsed st =
     (case parsed of
        Inr req \<Rightarrow>
          if peer \<noteq> srv_owner_uid st then Some (IpcError ''permission denied'', st)
          else if ipc_session_id req \<noteq> srv_session_id st
            then Some (IpcError ''session_id mismatch'', st)
          else if ipc_user req \<noteq> srv_owner_user st then Some (IpcError ''permission denied'', st)
          else map_option (\<lambda>(out, st'). (IpcBootstrap out, st')) (srv_bootstrap_output C env st)
      | Inl err \<Rightarrow> Some (IpcError (''bad request: '' @ err), st))"

text \<open>
  The loop of \<open>run_ipc_server\<close>: a round is one accepted peer with the results of its calls; the
  first failing call (\<open>Inl\<close>) leaves the function, and with it the socket goes unanswered.
\<close>

record ipc_round =
  ir_accept :: "neoshd_error + unit"
  ir_peer_uid :: "neoshd_error + u32"
  ir_request :: "neoshd_error + (string + renew_ipc_req)"
  ir_env :: issue_env
  ir_write :: "ipc_response \<Rightarrow> neoshd_error + unit"

datatype ipc_status = IpcRunning | IpcFailed neoshd_error | IpcPanicked

definition ipc_step ::
  "crypto \<Rightarrow> ipc_round \<Rightarrow> server_state \<Rightarrow> ipc_status \<times> ipc_response list \<times> server_state" where
  "ipc_step C r st =
     (case ir_accept r of
        Inl e \<Rightarrow> (IpcFailed e, [], st)
      | Inr _ \<Rightarrow>
          (case ir_peer_uid r of
             Inl e \<Rightarrow> (IpcFailed e, [], st)
           | Inr peer \<Rightarrow>
               (case ir_request r of
                  Inl e \<Rightarrow> (IpcFailed e, [], st)
                | Inr parsed \<Rightarrow>
                    (case ipc_answer C (ir_env r) peer parsed st of
                       None \<Rightarrow> (IpcPanicked, [], st)
                     | Some (response, st') \<Rightarrow>
                         (case ir_write r response of
                            Inl e \<Rightarrow> (IpcFailed e, [], st')
                          | Inr _ \<Rightarrow> (IpcRunning, [response], st'))))))"

fun run_ipc_server ::
  "crypto \<Rightarrow> ipc_round list \<Rightarrow> server_state \<Rightarrow> ipc_status \<times> ipc_response list \<times> server_state" where
  "run_ipc_server C [] st = (IpcRunning, [], st)"
| "run_ipc_server C (r # rs) st =
     (case ipc_step C r st of
        (IpcRunning, out, st') \<Rightarrow>
          (case run_ipc_server C rs st' of (s, out', st'') \<Rightarrow> (s, out @ out', st''))
      | (s, out, st') \<Rightarrow> (s, out, st'))"

text \<open>
  \<open>peer_uid\<close>: the credentials the kernel reports for the socket.
\<close>

definition peer_uid :: "string + u32 \<Rightarrow> neoshd_error + u32" where
  "peer_uid cred =
     (case cred of
        Inl e \<Rightarrow> Inl (NeInternal (''peer credential read failed: '' @ e))
      | Inr uid \<Rightarrow> Inr uid)"

text \<open>
  The command at the other end. \<open>connected\<close>, \<open>written\<close> and \<open>answer\<close> are the results of its calls on
  the socket; \<open>parse\<close> reads a JSON value, \<open>has_error\<close> looks for its member \<open>error\<close> and \<open>render\<close> prints
  it. The result is the line the command prints.
\<close>

definition run_renew_auth ::
  "string \<Rightarrow> string + unit \<Rightarrow> string + unit \<Rightarrow> string + bytes \<Rightarrow> (bytes \<Rightarrow> string + 'v) \<Rightarrow> ('v \<Rightarrow> bool)
   \<Rightarrow> ('v \<Rightarrow> string) \<Rightarrow> neoshd_error + string" where
  "run_renew_auth sock connected written answer parse has_error render =
     (case connected of
        Inl e \<Rightarrow>
          Inl (NeConfig (''cannot reach session control socket '' @ sock @ '': '' @ e))
      | Inr _ \<Rightarrow>
          (case written of
             Inl e \<Rightarrow> Inl (NeIo e)
           | Inr _ \<Rightarrow>
               (case answer of
                  Inl e \<Rightarrow> Inl (NeIo e)
                | Inr buf \<Rightarrow>
                    (case parse buf of
                       Inl e \<Rightarrow> Inl (NeInternal (''invalid IPC response: '' @ e))
                     | Inr v \<Rightarrow>
                         if has_error v then Inl (NeInternal (render v)) else Inr (render v)))))"

section \<open>When the server stops\<close>

definition srv_dead :: "server_state \<Rightarrow> bool" where
  "srv_dead st \<longleftrightarrow> (\<exists>s. srv_session st = Some s \<and> sess_state s \<in> {Expired, Terminated})"

lemma srv_dead_expire:
  "server_wf st \<Longrightarrow> srv_dead (st\<lparr>srv_sessions := snd (expire (srv_sessions st) (srv_session_id st))\<rparr>)"
  by (auto simp: srv_dead_def server_wf_unfold expire_def elim!: detached_okE)

lemma stop_reason_dead:
  "server_wf st \<Longrightarrow> server_stop_reason st \<noteq> None \<longleftrightarrow> srv_dead st"
  by (cases "srv_session st")
    (auto simp: server_stop_reason_def srv_dead_def srv_session_def get_session_def server_wf_unfold
      split: option.splits session_state.splits)

lemma accept_tick_reason:
  assumes "server_wf st"
  shows "(case fst (accept_tick now1 now2 st) of
      None \<Rightarrow> snd (accept_tick now1 now2 st) = st \<and> \<not> srv_dead st
    | Some r \<Rightarrow> r \<noteq> EndpointClosed \<and> srv_dead (snd (accept_tick now1 now2 st)))"
proof -
  obtain b1 st1 where 1: "expire_if_initial_attach_timeout st now1 = (b1, st1)" by fastforce
  obtain b2 st2 where 2: "expire_if_detached_timeout st now2 = (b2, st2)" by fastforce
  have d1: "b1 \<Longrightarrow> srv_dead st1" and d2: "b2 \<Longrightarrow> srv_dead st2"
    using 1 2 timeouts_exact_eqs [OF assms] srv_dead_expire [OF assms] by (auto split: if_splits)
  show ?thesis
  proof (cases b1)
    case True
    then show ?thesis using 1 d1 by (simp add: accept_tick_def)
  next
    case False
    then have st1: "st1 = st" using 1 timeouts_frame(2) by auto
    show ?thesis
    proof (cases b2)
      case True
      then show ?thesis using False 1 2 st1 d2 by (simp add: accept_tick_def)
    next
      case f: False
      then have "st2 = st" using 2 timeouts_frame(1) [OF assms] by auto
      then show ?thesis using False f 1 2 st1 stop_reason_dead [OF assms]
        by (auto simp: accept_tick_def server_stop_reason_def split: option.splits session_state.splits)
    qed
  qed
qed

text \<open>
  The accept loop goes on exactly as long as the session lives: every reason it stops for,
  other than the endpoint being closed, comes with an expired or terminated session, while it
  goes on or the endpoint closes the state is untouched, and with a dead session its first round
  ends it before any connection is accepted.
\<close>

theorem accept_loop_stops_with_session:
  assumes "server_wf st"
  shows "(case run_quic_accept_loop rounds st of
      (None, st', n) \<Rightarrow> st' = st \<and> (rounds = [] \<or> \<not> srv_dead st)
    | (Some r, st', n) \<Rightarrow>
        (if r = EndpointClosed then st' = st \<and> \<not> srv_dead st
         else srv_dead st' \<and> (srv_dead st \<longrightarrow> n = 0)))"
proof (induction rounds)
  case (Cons x rounds)
  obtain now1 now2 acc where x: "x = (now1, now2, acc)" by (metis prod_cases3)
  obtain r st' where t: "accept_tick now1 now2 st = (r, st')" by fastforce
  note tr = accept_tick_reason [OF assms, of now1 now2]
  show ?case
  proof (cases r)
    case (Some reason)
    then show ?thesis using x t tr by simp
  next
    case None
    then have "st' = st" "\<not> srv_dead st" using t tr by simp_all
    then show ?thesis using x t None Cons
      by (cases acc) (auto split: option.splits prod.splits if_splits)
  qed
qed simp

theorem accept_loop_stops_with_session_witness:
  "run_quic_accept_loop [(5, 5, Incoming), (300 * 1000000000, 0, AcceptTimedOut)] demo_server =
     (Some InitialAttachTimeout, demo_server\<lparr>srv_sessions := snd (expire (srv_sessions demo_server) 1)\<rparr>, 1) \<and>
   srv_dead (demo_server\<lparr>srv_sessions := snd (expire (srv_sessions demo_server) 1)\<rparr>)"
proof -
  let ?run = "run_quic_accept_loop [(5, 5, Incoming), (300 * 1000000000, 0, AcceptTimedOut)] demo_server"
  have "?run = (Some InitialAttachTimeout,
      demo_server\<lparr>srv_sessions := snd (expire (srv_sessions demo_server) 1)\<rparr>, 1)"
    by (simp add: accept_tick_def expire_if_initial_attach_timeout_def expire_if_detached_timeout_def
        server_stop_reason_def get_session_def demo_server_def server_state_new_def demo_args_def
        create_session_with_id_def duration_since_def duration_from_secs_def nanos_per_sec_def)
  then show ?thesis
    using accept_loop_stops_with_session [OF demo_server_wf,
        of "[(5, 5, Incoming), (300 * 1000000000, 0, AcceptTimedOut)]"] by simp
qed

section \<open>Renewal\<close>

lemma srv_bootstrap_Some:
  assumes "srv_bootstrap_output C env st = Some (out, st')"
  shows "bo_session_id out = srv_session_id st \<and> bo_quic_addr out = srv_quic_addr st \<and>
    bo_cert_fingerprint out = srv_cert_fingerprint st \<and> st' = st\<lparr>srv_tokens := srv_tokens st'\<rparr> \<and>
    issue_token C (srv_tokens st) AuthToken (srv_session_id st) (srv_owner_user st)
      (srv_auth_token_ttl st) (env_rnd env) (env_jti env) (env_now env) =
      Some (bo_auth_token out, srv_tokens st')"
  using assms
  by (auto simp: srv_bootstrap_output_def srv_issue_auth_token_def issue_auth_token_def
      split: option.splits)

text \<open>
  C21: The control socket renews for the owner only: the answer is bootstrap data exactly for a
  request of the owning user id that names the session and its user; any other answer changes
  nothing. The data describe the same session, and its token then authenticates a connection at
  any time before it expires.
\<close>

theorem ipc_renewal_for_owner:
  assumes "ipc_answer C env peer parsed st = Some (response, st')"
    and "ct_eq_exact C"
    and "find_record C (srv_tokens st) (random_token C (env_rnd env)) = None"
  shows "(case response of
      IpcError e \<Rightarrow> st' = st \<and>
        (\<forall>req. parsed = Inr req \<longrightarrow> \<not> (peer = srv_owner_uid st \<and>
          ipc_session_id req = srv_session_id st \<and> ipc_user req = srv_owner_user st))
    | IpcBootstrap out \<Rightarrow>
        peer = srv_owner_uid st \<and>
        parsed = Inr \<lparr>ipc_session_id = srv_session_id st, ipc_user = srv_owner_user st\<rparr> \<and>
        bo_session_id out = srv_session_id st \<and> bo_quic_addr out = srv_quic_addr st \<and>
        bo_cert_fingerprint out = srv_cert_fingerprint st \<and>
        srv_sessions st' = srv_sessions st \<and>
        (now < env_now env + int (srv_auth_token_ttl st) \<longrightarrow>
          fst (validate_and_consume_auth C (srv_tokens st') (bo_auth_token out) (srv_session_id st)
            (srv_owner_user st) now) = Inr ()))"
proof (cases response)
  case (IpcError e)
  then show ?thesis using assms(1)
    by (auto simp: ipc_answer_def split: sum.splits if_splits)
next
  case (IpcBootstrap out)
  then obtain req where req: "parsed = Inr req" "peer = srv_owner_uid st"
      "ipc_session_id req = srv_session_id st" "ipc_user req = srv_owner_user st"
    and b: "srv_bootstrap_output C env st = Some (out, st')"
    using assms(1) by (auto simp: ipc_answer_def split: sum.splits if_splits)
  note bs = srv_bootstrap_Some [OF b]
  have raw: "bo_auth_token out = random_token C (env_rnd env)"
    using bs by (auto simp: issue_token_def Let_def split: option.splits)
  have "usable C AuthToken (bo_auth_token out) (srv_session_id st) (srv_owner_user st)
      (env_now env + int (srv_auth_token_ttl st)) (srv_tokens st')"
    by (rule usable_issued) (use bs raw assms(2,3) in auto)
  then have "now < env_now env + int (srv_auth_token_ttl st) \<Longrightarrow>
      fst (validate_and_consume_auth C (srv_tokens st') (bo_auth_token out) (srv_session_id st)
        (srv_owner_user st) now) = Inr ()"
    by (auto simp: usable_def auth_ok_iff)
  moreover have "srv_sessions st' = srv_sessions st"
    using bs by (metis server_state.select_convs(14) server_state.surjective server_state.update_convs(15))
  moreover have "req = \<lparr>ipc_session_id = srv_session_id st, ipc_user = srv_owner_user st\<rparr>"
    using req by (cases req) simp
  ultimately show ?thesis using IpcBootstrap req bs by simp
qed

theorem ipc_renewal_for_owner_witness:
  "\<exists>out st'. ipc_answer demo_crypto \<lparr>env_rnd = [65], env_jti = 3, env_now = 5\<rparr> 1000
      (Inr \<lparr>ipc_session_id = 1, ipc_user = ''ann''\<rparr>) demo_server = Some (IpcBootstrap out, st') \<and>
    bo_session_id out = 1 \<and>
    fst (validate_and_consume_auth demo_crypto (srv_tokens st') (bo_auth_token out) 1 ''ann'' 6) = Inr ()"
proof -
  let ?env = "\<lparr>env_rnd = [65], env_jti = 3, env_now = 5\<rparr>"
  have srv: "srv_session_id demo_server = 1" "srv_owner_user demo_server = ''ann''"
    "srv_owner_uid demo_server = 1000" "srv_tokens demo_server = []"
    "srv_auth_token_ttl demo_server = 60 * 1000000000"
    by (simp_all add: demo_server_def server_state_new_def demo_args_def duration_from_secs_def
        nanos_per_sec_def)
  obtain out st' where a: "ipc_answer demo_crypto ?env 1000
      (Inr \<lparr>ipc_session_id = 1, ipc_user = ''ann''\<rparr>) demo_server = Some (IpcBootstrap out, st')"
    by (simp add: ipc_answer_def srv srv_bootstrap_output_def srv_issue_auth_token_def
        issue_auth_token_def issue_token_def system_time_add_def nanos_per_sec_def Let_def)
  show ?thesis
    using ipc_renewal_for_owner [OF a, of 6] a by (auto simp: srv find_record_def)
qed

end
