(* ===== verification/Server_System.thy ===== *)
theory Server_System
  imports Connection_Correct Server_Loop
begin

text \<open>
  The whole server process: its state shared by any number of connections, the accept loop, the
  token sweeper, the control socket and the terminal's reader thread (\<open>src/src/bin/neoshd.rs\<close>).
  Every critical section of the state's mutex is one event; events of different tasks interleave
  freely. An inductive set holds the reachable systems.
\<close>

section \<open>Events\<close>

text \<open>
  Where a connection's task stands: at the head of its loop, between the locked block of an
  attachment and its reply, out of the loop with the cleanup to come, or finished.
\<close>

datatype slot =
    SlotLoop conn
  | SlotAttaching conn bool uuid nat
  | SlotEnding conn
  | SlotDone conn
  | SlotFailed conn neoshd_error
  | SlotPanicked conn

fun slot_conn :: "slot \<Rightarrow> conn" where
  "slot_conn (SlotLoop c) = c"
| "slot_conn (SlotAttaching c r sid n) = c"
| "slot_conn (SlotEnding c) = c"
| "slot_conn (SlotDone c) = c"
| "slot_conn (SlotFailed c e) = c"
| "slot_conn (SlotPanicked c) = c"

fun slot_after :: "flow \<Rightarrow> conn \<Rightarrow> slot" where
  "slot_after NextFrame c = SlotLoop c"
| "slot_after BreakLoop c = SlotEnding c"
| "slot_after (ReturnErr e) c = SlotFailed c e"
| "slot_after Panicked c = SlotPanicked c"
| "slot_after (Attaching r sid n) c = SlotAttaching c r sid n"

record system =
  sy_server :: server_state
  sy_conns :: "uuid \<Rightarrow> slot option"
  sy_stopped :: "accept_loop_stop_reason option"

datatype sys_event =
    EvOpen uuid
  | EvFrame uuid conn_env bytes
  | EvReadError uuid
  | EvStart uuid conn_env
  | EvCleanup uuid system_time
  | EvTick system_time system_time
  | EvSweep system_time
  | EvIpc issue_env u32 "string + renew_ipc_req"
  | EvOutput bytes
  | EvPtyExit

text \<open>
  One event. A connection id (\<open>Uuid::new_v4\<close>) is never given twice, the sweeper keeps records for
  300 seconds, and an event of a task that is not at that point changes nothing.
\<close>

fun sys_exec :: "'v codec \<Rightarrow> crypto \<Rightarrow> system \<Rightarrow> sys_event \<Rightarrow> system" where
  "sys_exec cd C sy (EvOpen cid) =
     (case sy_conns sy cid of
        None \<Rightarrow> sy\<lparr>sy_conns := (sy_conns sy)(cid \<mapsto> SlotLoop (conn_new cid))\<rparr>
      | Some _ \<Rightarrow> sy)"
| "sys_exec cd C sy (EvFrame cid env payload) =
     (case sy_conns sy cid of
        Some (SlotLoop c) \<Rightarrow>
          (case on_control_frame cd C env payload c (sy_server sy) of
             (fl, out, c', st') \<Rightarrow>
               sy\<lparr>sy_server := st', sy_conns := (sy_conns sy)(cid \<mapsto> slot_after fl c')\<rparr>)
      | _ \<Rightarrow> sy)"
| "sys_exec cd C sy (EvReadError cid) =
     (case sy_conns sy cid of
        Some (SlotLoop c) \<Rightarrow> sy\<lparr>sy_conns := (sy_conns sy)(cid \<mapsto> SlotEnding c)\<rparr>
      | _ \<Rightarrow> sy)"
| "sys_exec cd C sy (EvStart cid env) =
     (case sy_conns sy cid of
        Some (SlotAttaching c resume sid n) \<Rightarrow>
          (case finish_attach cd env resume sid n c (sy_server sy) of
             (fl, out, c', st') \<Rightarrow>
               sy\<lparr>sy_server := st', sy_conns := (sy_conns sy)(cid \<mapsto> slot_after fl c')\<rparr>)
      | _ \<Rightarrow> sy)"
| "sys_exec cd C sy (EvCleanup cid now) =
     (case sy_conns sy cid of
        Some (SlotEnding c) \<Rightarrow>
          sy\<lparr>sy_server := conn_cleanup now c (sy_server sy),
             sy_conns := (sy_conns sy)(cid \<mapsto> SlotDone c)\<rparr>
      | _ \<Rightarrow> sy)"
| "sys_exec cd C sy (EvTick now1 now2) =
     (case accept_tick now1 now2 (sy_server sy) of
        (reason, st') \<Rightarrow> sy\<lparr>sy_server := st', sy_stopped := reason\<rparr>)"
| "sys_exec cd C sy (EvSweep now) =
     sy\<lparr>sy_server := sweep_tokens (sy_server sy) now (duration_from_secs 300)\<rparr>"
| "sys_exec cd C sy (EvIpc env peer parsed) =
     (case ipc_answer C env peer parsed (sy_server sy) of
        None \<Rightarrow> sy
      | Some (response, st') \<Rightarrow> sy\<lparr>sy_server := st'\<rparr>)"
| "sys_exec cd C sy (EvOutput chunk) = sy\<lparr>sy_server := append_replay (sy_server sy) chunk\<rparr>"
| "sys_exec cd C sy EvPtyExit =
     (if srv_pty (sy_server sy) = None then sy
      else sy\<lparr>sy_server := (sy_server sy)\<lparr>srv_pty_exited := True\<rparr>\<rparr>)"

text \<open>Once the accept loop has returned the process exits, and nothing happens any more.\<close>

definition sys_step :: "'v codec \<Rightarrow> crypto \<Rightarrow> system \<Rightarrow> sys_event \<Rightarrow> system" where
  "sys_step cd C sy ev = (if sy_stopped sy \<noteq> None then sy else sys_exec cd C sy ev)"

text \<open>\<open>run_new\<close> creates the state and issues the first auth token before any task starts.\<close>

definition sys_start ::
  "crypto \<Rightarrow> uuid \<Rightarrow> new_args \<Rightarrow> u32 \<Rightarrow> string \<Rightarrow> string \<Rightarrow> system_time \<Rightarrow> issue_env
   \<Rightarrow> (bootstrap_output \<times> system) option" where
  "sys_start C sid args uid qaddr fp now env =
     (case srv_bootstrap_output C env
             (server_state_new sid (arg_user args) uid qaddr fp args now) of
        None \<Rightarrow> None
      | Some (out, st) \<Rightarrow>
          Some (out, \<lparr>sy_server = st, sy_conns = (\<lambda>_. None), sy_stopped = None\<rparr>))"

inductive reachable :: "'v codec \<Rightarrow> crypto \<Rightarrow> system \<Rightarrow> bool" for cd :: "'v codec" and C :: crypto where
  start: "sys_start C sid args uid qaddr fp now env = Some (out, sy) \<Longrightarrow> reachable cd C sy"
| event: "reachable cd C sy \<Longrightarrow> reachable cd C (sys_step cd C sy ev)"

inductive_cases reachableE: "reachable cd C sy"

lemma reachable_run: "reachable cd C sy \<Longrightarrow> reachable cd C (foldl (sys_step cd C) sy evs)"
  by (induction evs arbitrary: sy) (auto intro: reachable.event)

section \<open>What an event does to the session\<close>

text \<open>
  \<open>holder_kept sid cid m m'\<close>: seen from a connection other than the one acting, the session is still
  attached to it, or dead, and nobody attaches the session in its name.
\<close>

definition holder_kept :: "uuid \<Rightarrow> uuid \<Rightarrow> session_manager \<Rightarrow> session_manager \<Rightarrow> bool" where
  "holder_kept sid cid m m' \<longleftrightarrow>
     (\<forall>s. m sid = Some s \<longrightarrow>
        (\<exists>s'. m' sid = Some s' \<and>
           (attached_conn_id s' = Some cid \<longrightarrow>
              attached_conn_id s = Some cid \<and> attach_epoch s' = attach_epoch s) \<and>
           (attached_conn_id s = Some cid \<longrightarrow>
              attached_conn_id s' = Some cid \<and> attach_epoch s' = attach_epoch s \<or>
              sess_state s' \<in> {Expired, Terminated}) \<and>
           (sess_state s \<in> {Expired, Terminated} \<longrightarrow> sess_state s' \<in> {Expired, Terminated})))"

lemma holder_kept_refl [simp]: "holder_kept sid cid m m"
  by (simp add: holder_kept_def)

lemma holder_kept_trans:
  assumes "holder_kept sid cid m m1" and "holder_kept sid cid m1 m2"
  shows "holder_kept sid cid m m2"
  unfolding holder_kept_def
proof (intro allI impI)
  fix s assume "m sid = Some s"
  with assms(1) obtain s1 where 1: "m1 sid = Some s1"
    "attached_conn_id s1 = Some cid \<longrightarrow> attached_conn_id s = Some cid \<and> attach_epoch s1 = attach_epoch s"
    "attached_conn_id s = Some cid \<longrightarrow> attached_conn_id s1 = Some cid \<and> attach_epoch s1 = attach_epoch s \<or>
       sess_state s1 \<in> {Expired, Terminated}"
    "sess_state s \<in> {Expired, Terminated} \<longrightarrow> sess_state s1 \<in> {Expired, Terminated}"
    unfolding holder_kept_def by blast
  with assms(2) obtain s2 where "m2 sid = Some s2"
    "attached_conn_id s2 = Some cid \<longrightarrow> attached_conn_id s1 = Some cid \<and> attach_epoch s2 = attach_epoch s1"
    "attached_conn_id s1 = Some cid \<longrightarrow> attached_conn_id s2 = Some cid \<and> attach_epoch s2 = attach_epoch s1 \<or>
       sess_state s2 \<in> {Expired, Terminated}"
    "sess_state s1 \<in> {Expired, Terminated} \<longrightarrow> sess_state s2 \<in> {Expired, Terminated}"
    unfolding holder_kept_def by blast
  with 1 show "\<exists>s'. m2 sid = Some s' \<and>
      (attached_conn_id s' = Some cid \<longrightarrow> attached_conn_id s = Some cid \<and> attach_epoch s' = attach_epoch s) \<and>
      (attached_conn_id s = Some cid \<longrightarrow> attached_conn_id s' = Some cid \<and> attach_epoch s' = attach_epoch s \<or>
         sess_state s' \<in> {Expired, Terminated}) \<and>
      (sess_state s \<in> {Expired, Terminated} \<longrightarrow> sess_state s' \<in> {Expired, Terminated})"
    by (intro exI [of _ s2]) auto
qed

lemma own_op_kept:
  assumes "oper \<in> own_ops sid other" and "other \<noteq> cid"
  shows "holder_kept sid cid m (session_exec m oper)"
  using assms
  by (auto simp: own_ops_def holder_kept_def attach_exclusive_def detach_def terminate_def
      conditional_stale_cleanup_def Let_def)

lemma own_ops_kept:
  "set sops \<subseteq> own_ops sid other \<Longrightarrow> other \<noteq> cid \<Longrightarrow> holder_kept sid cid m (foldl session_exec m sops)"
proof (induction sops arbitrary: m)
  case (Cons oper sops)
  then have "holder_kept sid cid m (session_exec m oper)" by (intro own_op_kept) auto
  moreover have "holder_kept sid cid (session_exec m oper) (foldl session_exec (session_exec m oper) sops)"
    using Cons by simp
  ultimately show ?case using holder_kept_trans by simp
qed simp

lemma store_step_kept:
  "store_step C other sops tops st st' \<Longrightarrow> other \<noteq> cid \<Longrightarrow>
   holder_kept (srv_session_id st) cid (srv_sessions st) (srv_sessions st')"
  unfolding store_step_def using own_ops_kept by metis

text \<open>What a frame does to the session as its own connection sees it.\<close>

datatype session_change = SameSession | TookSession | LeftSession | ErrorSession

definition frame_change ::
  "flow \<Rightarrow> conn \<Rightarrow> server_state \<Rightarrow> conn \<Rightarrow> server_state \<Rightarrow> session_change \<Rightarrow> bool" where
  "frame_change fl c st c' st' ch =
     (case ch of
        SameSession \<Rightarrow> srv_sessions st' = srv_sessions st \<and> cn_attached_epoch c' = cn_attached_epoch c
      | TookSession \<Rightarrow> running fl \<and>
          (\<exists>epoch. attach_exclusive (srv_sessions st) (srv_session_id st) (cn_id c) =
            (Inr epoch, srv_sessions st') \<and> cn_attached_epoch c' = Some epoch)
      | LeftSession \<Rightarrow> fl = BreakLoop \<and> cn_attached_epoch c' = cn_attached_epoch c \<and>
          (\<exists>s. srv_sessions st' (srv_session_id st) = Some s \<and> attached_conn_id s = None)
      | ErrorSession \<Rightarrow> (\<exists>e. fl = ReturnErr e))"

lemma takes_session_change:
  assumes "takes_session env resume sid c st (fl, out, c', st')"
  shows "\<exists>ch. frame_change fl c st c' st' ch"
  using assms
proof (rule takes_session_cases)
  fix epoch m
  assume m: "attach_exclusive (srv_sessions st) (srv_session_id st) (cn_id c) = (Inr epoch, m)"
    and cs: "fl = Attaching resume sid (length (srv_replay st)) \<and> c' = c\<lparr>cn_attached_epoch := Some epoch\<rparr> \<and>
       ensure_pty_runtime (ce_pty env) (st\<lparr>srv_sessions := m, srv_detached_at := None\<rparr>) = (Inr (), st') \<or>
     (\<exists>e. fl = ReturnErr e \<and> c' = c \<and> st' = st\<lparr>srv_sessions := m, srv_detached_at := None\<rparr> \<and>
       fst (ensure_pty_runtime (ce_pty env) (st\<lparr>srv_sessions := m, srv_detached_at := None\<rparr>)) = Inl e)"
  from cs show ?thesis
  proof
    assume "fl = Attaching resume sid (length (srv_replay st)) \<and> c' = c\<lparr>cn_attached_epoch := Some epoch\<rparr> \<and>
       ensure_pty_runtime (ce_pty env) (st\<lparr>srv_sessions := m, srv_detached_at := None\<rparr>) = (Inr (), st')"
    then have "frame_change fl c st c' st' TookSession"
      using m ensure_pty_frame(1) [of "ce_pty env" "st\<lparr>srv_sessions := m, srv_detached_at := None\<rparr>" "Inr ()" st']
      by (auto simp: frame_change_def)
    then show ?thesis ..
  next
    assume "\<exists>e. fl = ReturnErr e \<and> c' = c \<and> st' = st\<lparr>srv_sessions := m, srv_detached_at := None\<rparr> \<and>
       fst (ensure_pty_runtime (ce_pty env) (st\<lparr>srv_sessions := m, srv_detached_at := None\<rparr>)) = Inl e"
    then have "frame_change fl c st c' st' ErrorSession" by (auto simp: frame_change_def)
    then show ?thesis ..
  qed
qed

lemma kind_change:
  assumes "handle_kind cd C env payload k c st = (fl, out, c', st')" and "server_wf st"
  shows "\<exists>ch. frame_change fl c st c' st' ch"
proof (cases k)
  case Auth
  then have "handle_auth cd C env payload c st = (fl, out, c', st')" using assms by simp
  from handle_auth_store [OF this, of "cn_id c"] have "frame_change fl c st c' st' SameSession"
    by (auto simp: frame_change_def store_step_def)
  then show ?thesis ..
next
  case Attach
  then have "handle_attach cd env payload c st = (fl, out, c', st')" using assms by simp
  from handle_attach_cases [OF this] show ?thesis
  proof
    assume "c' = c \<and> st' = st \<and> (fl = BreakLoop \<or> (\<exists>e. fl = ReturnErr e))"
    then have "frame_change fl c st c' st' SameSession" by (simp add: frame_change_def)
    then show ?thesis ..
  qed (rule takes_session_change)
next
  case Resume
  then have "handle_resume cd C env payload c st = (fl, out, c', st')" using assms by simp
  from handle_resume_cases [OF this] show ?thesis
  proof
    assume "c' = c \<and> st' = st \<and> (fl = BreakLoop \<or> (\<exists>e. fl = ReturnErr e))"
    then have "frame_change fl c st c' st' SameSession" by (simp add: frame_change_def)
    then show ?thesis ..
  qed (blast intro: takes_session_change)
next
  case Detach
  then have "handle_detach env c st = (fl, out, c', st')" using assms by simp
  from handle_detach_cases [OF this]
  have "frame_change fl c st c' st' ErrorSession \<or> frame_change fl c st c' st' LeftSession"
    by (auto simp: frame_change_def detach_def split: option.splits if_splits)
  then show ?thesis by blast
next
  case Close
  then have "handle_close c st = (fl, out, c', st')" using assms by simp
  from handle_close_cases [OF this] assms(2)
  have "frame_change fl c st c' st' ErrorSession \<or> frame_change fl c st c' st' LeftSession"
    by (auto simp: frame_change_def terminate_def server_wf_unfold elim!: detached_okE)
  then show ?thesis by blast
qed (use assms handle_quiet_cases in \<open>fastforce simp: frame_change_def intro: exI [of _ SameSession]\<close>)+

lemma frame_change_ex:
  assumes "on_control_frame cd C env payload c st = (fl, out, c', st')" and "server_wf st"
  shows "\<exists>ch. frame_change fl c st c' st' ch"
  using assms(1)
proof (cases rule: frame_cases)
  case (refused d err)
  then have "frame_change fl c st c' st' SameSession"
    by (auto dest!: refuse_cases simp: frame_change_def)
  then show ?thesis ..
next
  case (handled k d r)
  obtain ch where "frame_change fl (c\<lparr>cn_dispatcher := d\<rparr>) st c' st' ch"
    using kind_change [OF handled(3) assms(2)] ..
  then have "frame_change fl c st c' st' ch" by (cases ch) (simp_all add: frame_change_def)
  then show ?thesis ..
qed

section \<open>The invariant of the system\<close>

text \<open>
  A connection claims the session by its local variables; a connection that finished normally
  claims nothing, one that failed or panicked is not asked.
\<close>

fun claims :: "slot \<Rightarrow> u64 \<Rightarrow> bool" where
  "claims (SlotLoop c) e = (cn_attached_epoch c = Some e)"
| "claims (SlotAttaching c r sid n) e = (cn_attached_epoch c = Some e)"
| "claims (SlotEnding c) e = (cn_attached_epoch c = Some e)"
| "claims (SlotDone c) e = False"
| "claims (SlotFailed c err) e = True"
| "claims (SlotPanicked c) e = True"

fun live :: "slot \<Rightarrow> bool" where
  "live (SlotLoop c) = True"
| "live (SlotAttaching c r sid n) = True"
| "live slot = False"

definition slot_ok :: "uuid \<Rightarrow> slot \<Rightarrow> bool" where
  "slot_ok cid slot \<longleftrightarrow> cn_id (slot_conn slot) = cid \<and> (live slot \<longrightarrow> conn_ok (slot_conn slot))"

text \<open>The two directions between the session and the slot of one connection.\<close>

definition agrees :: "uuid \<Rightarrow> slot option \<Rightarrow> session \<Rightarrow> bool" where
  "agrees cid so s \<longleftrightarrow>
     (attached_conn_id s = Some cid \<longrightarrow> (\<exists>slot. so = Some slot \<and> claims slot (attach_epoch s))) \<and>
     (\<forall>slot e. so = Some slot \<longrightarrow> live slot \<longrightarrow> cn_attached_epoch (slot_conn slot) = Some e \<longrightarrow>
        sess_state s \<notin> {Expired, Terminated} \<longrightarrow>
        attached_conn_id s = Some cid \<and> attach_epoch s = e)"

definition sys_ok :: "system \<Rightarrow> bool" where
  "sys_ok sy \<longleftrightarrow>
     server_wf (sy_server sy) \<and>
     (\<forall>cid slot. sy_conns sy cid = Some slot \<longrightarrow> slot_ok cid slot) \<and>
     (\<forall>s cid. srv_session (sy_server sy) = Some s \<longrightarrow> agrees cid (sy_conns sy cid) s)"

lemma agrees_SomeI:
  assumes "attached_conn_id s = Some cid \<Longrightarrow> claims slot (attach_epoch s)"
    and "\<And>e. live slot \<Longrightarrow> cn_attached_epoch (slot_conn slot) = Some e \<Longrightarrow>
      sess_state s \<notin> {Expired, Terminated} \<Longrightarrow> attached_conn_id s = Some cid \<and> attach_epoch s = e"
  shows "agrees cid (Some slot) s"
  using assms unfolding agrees_def by blast

lemma agrees_SomeD:
  assumes "agrees cid (Some slot) s"
  shows "attached_conn_id s = Some cid \<Longrightarrow> claims slot (attach_epoch s)"
    and "live slot \<Longrightarrow> cn_attached_epoch (slot_conn slot) = Some e \<Longrightarrow>
      sess_state s \<notin> {Expired, Terminated} \<Longrightarrow> attached_conn_id s = Some cid \<and> attach_epoch s = e"
  using assms unfolding agrees_def by blast+

text \<open>A slot may claim more, and be live less.\<close>

lemma agrees_mono:
  assumes "agrees cid (Some slot) s" and "\<And>e. claims slot e \<Longrightarrow> claims slot' e"
    and "live slot' \<Longrightarrow> live slot \<and>
      cn_attached_epoch (slot_conn slot') = cn_attached_epoch (slot_conn slot)"
  shows "agrees cid (Some slot') s"
  by (rule agrees_SomeI) (use agrees_SomeD [OF assms(1)] assms(2,3) in metis)+

lemma agrees_kept:
  assumes "holder_kept sid cid m m'" and "m sid = Some s" and "m' sid = Some s'"
    and "agrees cid so s"
  shows "agrees cid so s'"
proof -
  from assms(1-3) have k:
    "attached_conn_id s' = Some cid \<longrightarrow> attached_conn_id s = Some cid \<and> attach_epoch s' = attach_epoch s"
    "attached_conn_id s = Some cid \<longrightarrow> attached_conn_id s' = Some cid \<and> attach_epoch s' = attach_epoch s \<or>
       sess_state s' \<in> {Expired, Terminated}"
    "sess_state s \<in> {Expired, Terminated} \<longrightarrow> sess_state s' \<in> {Expired, Terminated}"
    by (auto simp: holder_kept_def)
  from assms(4) k(1) have
    "attached_conn_id s' = Some cid \<longrightarrow> (\<exists>slot. so = Some slot \<and> claims slot (attach_epoch s'))"
    unfolding agrees_def by metis
  moreover have "attached_conn_id s' = Some cid \<and> attach_epoch s' = e"
    if "so = Some slot" "live slot" "cn_attached_epoch (slot_conn slot) = Some e"
      "sess_state s' \<notin> {Expired, Terminated}" for slot e
  proof -
    from that(4) k(3) have "sess_state s \<notin> {Expired, Terminated}" by blast
    with assms(4) that(1-3) have "attached_conn_id s = Some cid" "attach_epoch s = e"
      unfolding agrees_def by metis+
    with k(2) that(4) show ?thesis by blast
  qed
  ultimately show ?thesis unfolding agrees_def by blast
qed

text \<open>An event of one connection: the others keep agreeing, so only its own slot is left.\<close>

lemma sys_ok_conn_event:
  assumes ok: "sys_ok sy" and step: "store_step C cid sops tops (sy_server sy) st'"
    and wf: "server_wf st'" and slot: "slot_ok cid slot"
    and own: "\<And>s. srv_session st' = Some s \<Longrightarrow> agrees cid (Some slot) s"
  shows "sys_ok (sy\<lparr>sy_server := st', sy_conns := (sy_conns sy)(cid \<mapsto> slot)\<rparr>)"
proof -
  let ?st = "sy_server sy"
  have sid: "srv_session_id st' = srv_session_id ?st" using step by (simp add: store_step_def)
  have "agrees cid' (((sy_conns sy)(cid \<mapsto> slot)) cid') s"
    if s: "srv_session st' = Some s" for s cid'
  proof (cases "cid' = cid")
    case False
    obtain s0 where s0: "srv_session ?st = Some s0"
      using ok by (auto simp: sys_ok_def server_wf_def elim!: detached_okE)
    have "holder_kept (srv_session_id ?st) cid' (srv_sessions ?st) (srv_sessions st')"
      using step False by (intro store_step_kept) auto
    then have "agrees cid' (sy_conns sy cid') s"
      by (rule agrees_kept) (use s s0 sid ok in \<open>auto simp: srv_session_def sys_ok_def\<close>)
    then show ?thesis using False by simp
  qed (use own s in simp)
  then show ?thesis using ok wf slot by (auto simp: sys_ok_def)
qed

text \<open>An event of the server alone.\<close>

lemma sys_ok_server_event:
  assumes ok: "sys_ok sy" and wf: "server_wf st'" and sid: "srv_session_id st' = srv_session_id (sy_server sy)"
    and kept: "\<And>cid. holder_kept (srv_session_id st') cid (srv_sessions (sy_server sy)) (srv_sessions st')"
  shows "sys_ok (sy\<lparr>sy_server := st'\<rparr>)" "sys_ok (sy\<lparr>sy_server := st', sy_stopped := r\<rparr>)"
proof -
  obtain s0 where s0: "srv_session (sy_server sy) = Some s0"
    using ok by (auto simp: sys_ok_def server_wf_def elim!: detached_okE)
  have "agrees cid (sy_conns sy cid) s" if "srv_session st' = Some s" for s cid
    by (rule agrees_kept [OF kept]) (use that s0 sid ok in \<open>auto simp: srv_session_def sys_ok_def\<close>)
  then show "sys_ok (sy\<lparr>sy_server := st'\<rparr>)" "sys_ok (sy\<lparr>sy_server := st', sy_stopped := r\<rparr>)"
    using ok wf by (auto simp: sys_ok_def)
qed

lemma attach_exclusive_holds:
  "attach_exclusive m sid cid = (Inr e, m') \<Longrightarrow>
   \<exists>s. m' sid = Some s \<and> attached_conn_id s = Some cid \<and> attach_epoch s = e"
  by (auto simp: attach_exclusive_def Let_def split: option.splits if_splits)

lemma frame_slot_ok:
  assumes "slot_ok cid (SlotLoop c)"
    and "on_control_frame cd C env payload c st = (fl, out, c', st')"
  shows "slot_ok cid (slot_after fl c')"
proof -
  have "cn_id c' = cn_id c" using frame_store [OF assms(2)] by blast
  then show ?thesis using assms frame_conn_ok [OF _ assms(2)]
    by (cases fl) (auto simp: slot_ok_def)
qed

lemma frame_agrees:
  assumes wf: "server_wf st" and sok: "slot_ok cid (SlotLoop c)"
    and ag: "agrees cid (Some (SlotLoop c)) s" and s: "srv_session st = Some s"
    and fr: "on_control_frame cd C env payload c st = (fl, out, c', st')"
    and s': "srv_session st' = Some s'"
  shows "agrees cid (Some (slot_after fl c')) s'"
proof -
  have cid: "cn_id c = cid" using sok by (simp add: slot_ok_def)
  have sid: "srv_session_id st' = srv_session_id st"
    using frame_store [OF fr] by (auto simp: store_step_def)
  obtain ch where ch: "frame_change fl c st c' st' ch" using frame_change_ex [OF fr wf] ..
  show ?thesis
  proof (cases ch)
    case SameSession
    then have "s' = s" and c': "cn_attached_epoch c' = cn_attached_epoch c"
      using ch s s' sid by (auto simp: frame_change_def srv_session_def)
    moreover have "agrees cid (Some (slot_after fl c')) s"
      by (rule agrees_mono [OF ag]) (use c' in \<open>cases fl; simp\<close>)+
    ultimately show ?thesis by simp
  next
    case TookSession
    then obtain epoch where
      a: "attach_exclusive (srv_sessions st) (srv_session_id st) cid = (Inr epoch, srv_sessions st')"
      and c': "cn_attached_epoch c' = Some epoch" and r: "running fl"
      using ch cid by (auto simp: frame_change_def)
    have "attached_conn_id s' = Some cid" "attach_epoch s' = epoch"
      using attach_exclusive_holds [OF a] s' sid by (auto simp: srv_session_def)
    then show ?thesis using c' r by (intro agrees_SomeI; cases fl) auto
  next
    case LeftSession
    then have "fl = BreakLoop" "attached_conn_id s' = None"
      using ch s' sid by (auto simp: frame_change_def srv_session_def)
    then show ?thesis by (intro agrees_SomeI) auto
  next
    case ErrorSession
    then obtain e where "fl = ReturnErr e" using ch by (auto simp: frame_change_def)
    then show ?thesis by (intro agrees_SomeI) auto
  qed
qed

lemma sys_ok_slot_event:
  assumes ok: "sys_ok sy" and slot: "slot_ok cid slot"
    and own: "\<And>s. srv_session (sy_server sy) = Some s \<Longrightarrow> agrees cid (Some slot) s"
  shows "sys_ok (sy\<lparr>sy_conns := (sy_conns sy)(cid \<mapsto> slot)\<rparr>)"
  using ok slot own by (auto simp: sys_ok_def)

lemma sys_okD:
  "sys_ok sy \<Longrightarrow> server_wf (sy_server sy)"
  "sys_ok sy \<Longrightarrow> sy_conns sy cid = Some slot \<Longrightarrow> slot_ok cid slot"
  "sys_ok sy \<Longrightarrow> srv_session (sy_server sy) = Some s \<Longrightarrow> agrees cid (sy_conns sy cid) s"
  by (simp_all add: sys_ok_def)

lemma sys_ok_open:
  assumes "sys_ok sy"
  shows "sys_ok (sys_exec cd C sy (EvOpen cid))"
proof (cases "sy_conns sy cid")
  case None
  have "sys_ok (sy\<lparr>sy_conns := (sy_conns sy)(cid \<mapsto> SlotLoop (conn_new cid))\<rparr>)"
  proof (rule sys_ok_slot_event [OF assms])
    show "slot_ok cid (SlotLoop (conn_new cid))"
      using conn_new_ok [of cid] by (simp add: slot_ok_def) (simp add: conn_new_def)
    show "agrees cid (Some (SlotLoop (conn_new cid))) s" if "srv_session (sy_server sy) = Some s" for s
      using sys_okD(3) [OF assms that, of cid] None by (simp add: agrees_def conn_new_def)
  qed
  then show ?thesis using None by simp
qed (use assms in simp)

lemma sys_ok_frame:
  assumes "sys_ok sy"
  shows "sys_ok (sys_exec cd C sy (EvFrame cid env payload))"
proof (cases "\<exists>c. sy_conns sy cid = Some (SlotLoop c)")
  case True
  then obtain c where c: "sy_conns sy cid = Some (SlotLoop c)" ..
  obtain fl out c' st' where fr:
      "on_control_frame cd C env payload c (sy_server sy) = (fl, out, c', st')"
    by (metis prod_cases4)
  have sok: "slot_ok cid (SlotLoop c)" using assms c by (rule sys_okD(2))
  then have cid: "cn_id c = cid" by (simp add: slot_ok_def)
  obtain sops tops where step: "store_step C cid sops tops (sy_server sy) st'"
    using frame_store [OF fr] cid by blast
  obtain s where s: "srv_session (sy_server sy) = Some s"
    using sys_okD(1) [OF assms] by (auto simp: server_wf_def elim!: detached_okE)
  have ag: "agrees cid (Some (SlotLoop c)) s" using sys_okD(3) [OF assms s, of cid] c by simp
  have "sys_ok (sy\<lparr>sy_server := st', sy_conns := (sy_conns sy)(cid \<mapsto> slot_after fl c')\<rparr>)"
  proof (rule sys_ok_conn_event [OF assms step])
    show "server_wf st'" using sys_okD(1) [OF assms] fr by (rule frame_wf)
    show "slot_ok cid (slot_after fl c')" using sok fr by (rule frame_slot_ok)
    show "agrees cid (Some (slot_after fl c')) s'" if "srv_session st' = Some s'" for s'
      by (rule frame_agrees [OF sys_okD(1) [OF assms] sok ag s fr that])
  qed
  then show ?thesis using c fr by simp
qed (use assms in \<open>auto split: option.split slot.split\<close>)

lemma sys_ok_read_error:
  assumes "sys_ok sy"
  shows "sys_ok (sys_exec cd C sy (EvReadError cid))"
proof (cases "\<exists>c. sy_conns sy cid = Some (SlotLoop c)")
  case True
  then obtain c where c: "sy_conns sy cid = Some (SlotLoop c)" ..
  have "sys_ok (sy\<lparr>sy_conns := (sy_conns sy)(cid \<mapsto> SlotEnding c)\<rparr>)"
  proof (rule sys_ok_slot_event [OF assms])
    show "slot_ok cid (SlotEnding c)" using sys_okD(2) [OF assms c] by (simp add: slot_ok_def)
    show "agrees cid (Some (SlotEnding c)) s" if s: "srv_session (sy_server sy) = Some s" for s
      using sys_okD(3) [OF assms s, of cid] unfolding c by (rule agrees_mono) auto
  qed
  then show ?thesis using c by simp
qed (use assms in \<open>auto split: option.split slot.split\<close>)

lemma sys_ok_start:
  assumes "sys_ok sy"
  shows "sys_ok (sys_exec cd C sy (EvStart cid env))"
proof (cases "\<exists>c r sid n. sy_conns sy cid = Some (SlotAttaching c r sid n)")
  case True
  then obtain c r sid n where c: "sy_conns sy cid = Some (SlotAttaching c r sid n)" by blast
  obtain fl out c' st' where f: "finish_attach cd env r sid n c (sy_server sy) = (fl, out, c', st')"
    by (metis prod_cases4)
  note fc = finish_attach_cases [OF f]
  have "agrees cid (Some (slot_after fl c)) s" if s: "srv_session (sy_server sy) = Some s" for s
    using sys_okD(3) [OF assms s, of cid] unfolding c by (rule agrees_mono) (use fc in auto)
  moreover have "slot_ok cid (slot_after fl c)"
    using sys_okD(2) [OF assms c] fc by (auto simp: slot_ok_def)
  ultimately have "sys_ok (sy\<lparr>sy_conns := (sy_conns sy)(cid \<mapsto> slot_after fl c)\<rparr>)"
    by (intro sys_ok_slot_event [OF assms])
  then show ?thesis using c f fc by simp
qed (use assms in \<open>auto split: option.split slot.split\<close>)

text \<open>The cleanup lets go of the session, in both of its branches.\<close>

lemma conn_cleanup_lets_go:
  assumes "server_wf st" and "srv_session st = Some s"
    and "attached_conn_id s = Some (cn_id c) \<Longrightarrow> cn_attached_epoch c = Some (attach_epoch s)"
    and "srv_session (conn_cleanup now c st) = Some s'"
  shows "attached_conn_id s' \<noteq> Some (cn_id c)"
proof (cases "cn_attached_epoch c")
  case None
  then show ?thesis using assms by (auto simp: conn_cleanup_def)
next
  case (Some e)
  have rel: "attached_conn_id s1 \<noteq> Some (cn_id c)"
    if "srv_session (release_if_current st (cn_id c) e now) = Some s1" for s1
    using that assms(2,3) Some
    by (auto simp: release_if_current_def conditional_stale_cleanup_def srv_session_def
        split: if_splits)
  show ?thesis
    using assms(2,4) Some rel
    by (auto simp: conn_cleanup_def finalize_connection_cleanup_def terminate_def srv_session_def
        split: if_splits)
qed

lemma sys_ok_cleanup:
  assumes "sys_ok sy"
  shows "sys_ok (sys_exec cd C sy (EvCleanup cid now))"
proof (cases "\<exists>c. sy_conns sy cid = Some (SlotEnding c)")
  case True
  then obtain c where c: "sy_conns sy cid = Some (SlotEnding c)" ..
  let ?st' = "conn_cleanup now c (sy_server sy)"
  have cid: "cn_id c = cid" using sys_okD(2) [OF assms c] by (simp add: slot_ok_def)
  obtain sops where step: "store_step C cid sops [] (sy_server sy) ?st'"
    using conn_cleanup_store cid by blast
  obtain s where s: "srv_session (sy_server sy) = Some s"
    using sys_okD(1) [OF assms] by (auto simp: server_wf_def elim!: detached_okE)
  have ag: "attached_conn_id s = Some cid \<Longrightarrow> cn_attached_epoch c = Some (attach_epoch s)"
    using sys_okD(3) [OF assms s, of cid] c by (simp add: agrees_def)
  have "sys_ok (sy\<lparr>sy_server := ?st', sy_conns := (sy_conns sy)(cid \<mapsto> SlotDone c)\<rparr>)"
  proof (rule sys_ok_conn_event [OF assms step])
    show "server_wf ?st'" using sys_okD(1) [OF assms] by (rule conn_cleanup_wf)
    show "slot_ok cid (SlotDone c)" using cid by (simp add: slot_ok_def)
    show "agrees cid (Some (SlotDone c)) s'" if "srv_session ?st' = Some s'" for s'
      using conn_cleanup_lets_go [OF sys_okD(1) [OF assms] s _ that] ag cid
      by (intro agrees_SomeI) auto
  qed
  then show ?thesis using c by simp
qed (use assms in \<open>auto split: option.split slot.split\<close>)

lemma holder_kept_expire: "holder_kept sid cid m (snd (expire m sid))"
  by (auto simp: holder_kept_def expire_def)

lemma accept_tick_sessions:
  assumes "server_wf st"
  shows "srv_session_id (snd (accept_tick now1 now2 st)) = srv_session_id st \<and>
    (srv_sessions (snd (accept_tick now1 now2 st)) = srv_sessions st \<or>
     srv_sessions (snd (accept_tick now1 now2 st)) = snd (expire (srv_sessions st) (srv_session_id st)))"
proof -
  obtain b1 st1 where 1: "expire_if_initial_attach_timeout st now1 = (b1, st1)" by fastforce
  obtain b2 st2 where 2: "expire_if_detached_timeout st now2 = (b2, st2)" by fastforce
  show ?thesis
  proof (cases b1)
    case True
    then show ?thesis using 1 timeouts_exact_eqs(2) [OF assms, of now1]
      by (auto simp: accept_tick_def split: if_splits)
  next
    case False
    then have "st1 = st" using 1 timeouts_frame(2) by auto
    then show ?thesis using False 1 2 timeouts_exact_eqs(1) [OF assms, of now2]
      by (auto simp: accept_tick_def split: if_splits)
  qed
qed

lemma accept_tick_tokens: "srv_tokens (snd (accept_tick now1 now2 st)) = srv_tokens st"
  by (auto simp: accept_tick_def expire_if_initial_attach_timeout_def expire_if_detached_timeout_def
      Let_def split: option.splits prod.splits bool.splits if_splits)

lemma sys_ok_tick:
  assumes "sys_ok sy"
  shows "sys_ok (sys_exec cd C sy (EvTick now1 now2))"
proof -
  let ?st = "sy_server sy"
  obtain r st' where t: "accept_tick now1 now2 ?st = (r, st')" by fastforce
  have wf: "server_wf st'" using accept_tick_wf [OF sys_okD(1) [OF assms], of now1 now2] t by simp
  have se: "srv_session_id st' = srv_session_id ?st"
    "srv_sessions st' = srv_sessions ?st \<or>
     srv_sessions st' = snd (expire (srv_sessions ?st) (srv_session_id ?st))"
    using accept_tick_sessions [OF sys_okD(1) [OF assms], of now1 now2] t by simp_all
  have "sys_ok (sy\<lparr>sy_server := st', sy_stopped := r\<rparr>)"
  proof (rule sys_ok_server_event(2) [OF assms wf se(1)])
    show "holder_kept (srv_session_id st') cid (srv_sessions ?st) (srv_sessions st')" for cid
      using se holder_kept_expire [of "srv_session_id ?st" cid "srv_sessions ?st"] by auto
  qed
  then show ?thesis using t by simp
qed

lemma sys_ok_same_sessions:
  assumes "sys_ok sy" and "server_wf st'" and "srv_session_id st' = srv_session_id (sy_server sy)"
    and "srv_sessions st' = srv_sessions (sy_server sy)"
  shows "sys_ok (sy\<lparr>sy_server := st'\<rparr>)"
  by (rule sys_ok_server_event(1) [OF assms(1-3)]) (simp add: assms(4))

lemma ipc_answer_frame:
  assumes "ipc_answer C env peer parsed st = Some (resp, st')"
  shows "st' = st\<lparr>srv_tokens := srv_tokens st'\<rparr>"
  using assms srv_bootstrap_Some [of C env st]
  by (auto simp: ipc_answer_def split: sum.splits if_splits)

lemma sys_exec_ok: "sys_ok sy \<Longrightarrow> sys_ok (sys_exec cd C sy ev)"
proof (induction ev)
  case (EvIpc env peer parsed)
  show ?case
  proof (cases "ipc_answer C env peer parsed (sy_server sy)")
    case (Some rs)
    obtain resp st' where rs: "rs = (resp, st')" by fastforce
    have f: "st' = (sy_server sy)\<lparr>srv_tokens := srv_tokens st'\<rparr>"
      using Some rs by (auto dest: ipc_answer_frame)
    have "server_wf ((sy_server sy)\<lparr>srv_tokens := srv_tokens st'\<rparr>)"
      using sys_okD(1) [OF EvIpc.prems] by simp
    then have wf: "server_wf st'" using f by simp
    have ids: "srv_session_id st' = srv_session_id (sy_server sy)"
      "srv_sessions st' = srv_sessions (sy_server sy)"
      by (subst f, simp)+
    from sys_ok_same_sessions [OF EvIpc.prems wf ids] Some rs show ?thesis by simp
  qed (use EvIpc in simp)
next
  case (EvOutput chunk)
  then show ?case
    using append_replay_keeps_wf [OF sys_okD(1) [OF EvOutput]]
    by (auto intro!: sys_ok_same_sessions simp: append_replay_alt)
next
  case (EvSweep now)
  then show ?case
    using sweep_tokens_keeps_wf [OF sys_okD(1) [OF EvSweep]]
    by (auto intro!: sys_ok_same_sessions simp: sweep_tokens_def)
next
  case EvPtyExit
  then show ?case using sys_okD(1) [OF EvPtyExit]
    by (auto intro!: sys_ok_same_sessions simp: server_wf_unfold)
qed (rule sys_ok_open sys_ok_frame sys_ok_read_error sys_ok_start sys_ok_cleanup sys_ok_tick; assumption)+

interpretation server_system: guarded_machine
  "\<lambda>sy ev. Inr (sys_step cd C sy ev) :: unit + system" sys_ok for cd :: "'v codec" and C
  by unfold_locales (auto simp: sys_step_def sys_exec_ok)

lemma sys_start_ok: "sys_start C sid args uid qaddr fp now env = Some (out, sy) \<Longrightarrow> sys_ok sy"
proof -
  assume a: "sys_start C sid args uid qaddr fp now env = Some (out, sy)"
  then obtain st where b: "srv_bootstrap_output C env
      (server_state_new sid (arg_user args) uid qaddr fp args now) = Some (out, st)"
    and sy: "sy = \<lparr>sy_server = st, sy_conns = (\<lambda>_. None), sy_stopped = None\<rparr>"
    by (auto simp: sys_start_def split: option.splits)
  have wf: "server_wf st" using server_state_new_wf b by (rule bootstrap_output_keeps_wf)
  have "st = (server_state_new sid (arg_user args) uid qaddr fp args now)\<lparr>srv_tokens := srv_tokens st\<rparr>"
    using srv_bootstrap_Some [OF b] by blast
  then have "srv_session st = srv_session (server_state_new sid (arg_user args) uid qaddr fp args now)"
    by (metis (no_types, lifting) server_state.select_convs(1,14) server_state.surjective
        server_state.update_convs(15) srv_session_def)
  then have "srv_session st = Some s \<Longrightarrow> attached_conn_id s = None" for s
    by (auto simp: srv_session_def server_state_new_def create_session_with_id_def)
  with wf show ?thesis by (auto simp: sys_ok_def sy agrees_def)
qed

lemma reachable_ok: "reachable cd C sy \<Longrightarrow> sys_ok sy"
  by (induction rule: reachable.induct)
    (auto intro: sys_start_ok simp: sys_step_def sys_exec_ok)

section \<open>Exclusive attachment\<close>

text \<open>
  C1: In every reachable system the session has at most one connection: while it is neither
  expired nor terminated, two running connections that hold an attachment are the same one, the
  session names it, and its epoch is the session's.
\<close>

theorem one_connection_per_session:
  assumes "reachable cd C sy" and "srv_session (sy_server sy) = Some s"
    and "sess_state s \<notin> {Expired, Terminated}"
    and "sy_conns sy c1 = Some slot1" and "live slot1" and "cn_attached_epoch (slot_conn slot1) = Some e1"
    and "sy_conns sy c2 = Some slot2" and "live slot2" and "cn_attached_epoch (slot_conn slot2) = Some e2"
  shows "c1 = c2 \<and> attached_conn_id s = Some c1 \<and> attach_epoch s = e1 \<and> sess_state s = Attached"
proof -
  note ok = reachable_ok [OF assms(1)]
  have a: "attached_conn_id s = Some cid \<and> attach_epoch s = e"
    if "sy_conns sy cid = Some slot" "live slot" "cn_attached_epoch (slot_conn slot) = Some e" for cid slot e
    using agrees_SomeD(2) [of cid slot s e] sys_okD(3) [OF ok assms(2), of cid] that assms(3) by simp
  have "session_wf s" using sys_okD(1) [OF ok] assms(2) by (auto simp: server_wf_def)
  with a [OF assms(4-6)] a [OF assms(7-9)] show ?thesis by (simp add: session_wf_def)
qed

text \<open>
  C13: A connection that ended its loop and ran its cleanup holds nothing: in every reachable
  system, whatever else happened in between, the session is not attached to it. If it is attached
  at all, its connection is still there, or has left its function through an error or a panic.
\<close>

theorem finished_connection_lets_go:
  assumes "reachable cd C sy" and "srv_session (sy_server sy) = Some s"
    and "attached_conn_id s = Some cid"
  shows "\<exists>slot. sy_conns sy cid = Some slot \<and> (\<forall>c. slot \<noteq> SlotDone c) \<and>
    (live slot \<longrightarrow> cn_authed (slot_conn slot) \<and> cn_attached_epoch (slot_conn slot) = Some (attach_epoch s))"
proof -
  note ok = reachable_ok [OF assms(1)]
  obtain slot where slot: "sy_conns sy cid = Some slot" and cl: "claims slot (attach_epoch s)"
    using sys_okD(3) [OF ok assms(2), of cid] assms(3) by (auto simp: agrees_def)
  have "conn_ok (slot_conn slot)" if "live slot"
    using sys_okD(2) [OF ok slot] that by (simp add: slot_ok_def)
  then show ?thesis using slot cl by (cases slot) (auto simp: conn_ok_def)
qed

text \<open>
  Neither timeout touches an attached session, in any reachable system: a round of the accept
  loop leaves the server as it is and goes on, whatever the clock says.
\<close>

theorem tick_spares_attached:
  assumes "reachable cd C sy" and "srv_session (sy_server sy) = Some s" and "sess_state s = Attached"
    and "sy_stopped sy = None"
  shows "sys_step cd C sy (EvTick now1 now2) = sy"
proof -
  let ?st = "sy_server sy"
  have wf: "server_wf ?st" using reachable_ok [OF assms(1)] by (rule sys_okD(1))
  have d: "srv_detached_at ?st = None"
    using timeouts_exact_eqs(3) [OF wf] assms(2,3) by simp
  have "accept_tick now1 now2 ?st = (None, ?st)"
    using timeouts_exact_eqs(1,2) [OF wf] assms(2,3) d
    by (simp add: accept_tick_def server_stop_reason_def get_session_def srv_session_def)
  then show ?thesis using assms(4) by (simp add: sys_step_def)
qed

section \<open>A run\<close>

definition demo_system :: system where
  "demo_system = \<lparr>sy_server = demo_issued, sy_conns = (\<lambda>_. None), sy_stopped = None\<rparr>"

lemma demo_start:
  "sys_start demo_crypto 1 demo_args 1000 ''127.0.0.1:30000'' ''sha256:00'' 0
     \<lparr>env_rnd = [65], env_jti = 3, env_now = 0\<rparr> =
   Some (\<lparr>bo_session_id = 1, bo_auth_token = ''A'', bo_auth_token_expires_in_seconds = 60,
          bo_quic_addr = ''127.0.0.1:30000'', bo_cert_fingerprint = ''sha256:00''\<rparr>, demo_system)"
proof -
  have "srv_bootstrap_output demo_crypto \<lparr>env_rnd = [65], env_jti = 3, env_now = 0\<rparr> demo_server =
    Some (\<lparr>bo_session_id = 1, bo_auth_token = ''A'', bo_auth_token_expires_in_seconds = 60,
      bo_quic_addr = ''127.0.0.1:30000'', bo_cert_fingerprint = ''sha256:00''\<rparr>, demo_issued)"
    by (simp add: srv_bootstrap_output_def srv_issue_auth_token_def issue_auth_token_def issue_token_def
        random_token_def hash_token_def as_bytes_def system_time_add_def demo_issued_def demo_server_def
        server_state_new_def demo_args_def demo_crypto_def duration_as_secs_def duration_from_secs_def
        nanos_per_sec_def Let_def)
  then show ?thesis
    by (simp add: sys_start_def demo_system_def demo_server_def) (simp add: demo_args_def)
qed

definition demo_events :: "sys_event list" where
  "demo_events =
     [EvOpen 7, EvFrame 7 demo_conn_env [1], EvFrame 7 demo_conn_env [2, 65],
      EvFrame 7 demo_conn_env [3], EvStart 7 demo_conn_env]"

definition demo_attached_system :: system where
  "demo_attached_system =
     \<lparr>sy_server = demo_attached,
      sy_conns = [7 \<mapsto> SlotLoop (demo_conn ConnAttached (Some 1))], sy_stopped = None\<rparr>"

lemma demo_system_run:
  "foldl (sys_step demo_codec demo_crypto) demo_system demo_events = demo_attached_system"
  by (simp add: demo_events_def sys_step_def demo_system_def demo_hello_frame demo_auth_frame
      demo_attach_frame demo_finish demo_attached_system_def)

lemma demo_reachable: "reachable demo_codec demo_crypto demo_attached_system"
  unfolding demo_system_run [symmetric]
  by (rule reachable_run, rule reachable.start, rule demo_start)

lemma demo_attached_session:
  "srv_session (sy_server demo_attached_system) =
     Some \<lparr>session_id = 1, owner_user_id = ''ann'', sess_quic_addr = ''127.0.0.1:30000'',
       sess_cert_fingerprint = ''sha256:00'', sess_state = Attached, attached_conn_id = Some 7,
       attach_epoch = 1\<rparr>"
  by (simp add: demo_attached_system_def demo_attached_def demo_authed_def demo_issued_def
      srv_session_def demo_sessions_def)

theorem one_connection_per_session_witness:
  "sy_conns demo_attached_system 7 = Some (SlotLoop (demo_conn ConnAttached (Some 1))) \<and>
   map_option attached_conn_id (srv_session (sy_server demo_attached_system)) = Some (Some 7)"
proof -
  have c: "sy_conns demo_attached_system 7 = Some (SlotLoop (demo_conn ConnAttached (Some 1)))"
    by (simp add: demo_attached_system_def)
  have e: "cn_attached_epoch (slot_conn (SlotLoop (demo_conn ConnAttached (Some 1)))) = Some 1"
    by (simp add: demo_conn_def)
  show ?thesis
    using one_connection_per_session [OF demo_reachable demo_attached_session _ c _ e c _ e] c
    by (simp add: demo_attached_session)
qed

theorem finished_connection_lets_go_witness:
  "\<exists>slot. sy_conns demo_attached_system 7 = Some slot \<and> (\<forall>c. slot \<noteq> SlotDone c)"
  using finished_connection_lets_go [OF demo_reachable demo_attached_session, of 7] by auto

theorem tick_spares_attached_witness:
  "sys_step demo_codec demo_crypto demo_attached_system (EvTick 1000000000000 2000000000000) =
     demo_attached_system"
  by (rule tick_spares_attached [OF demo_reachable demo_attached_session])
    (simp_all add: demo_attached_system_def)

section \<open>One connection for each auth token\<close>

text \<open>The event that lets a connection in with the token \<open>raw\<close>.\<close>

fun admits :: "'v codec \<Rightarrow> crypto \<Rightarrow> string \<Rightarrow> system \<Rightarrow> sys_event \<Rightarrow> bool" where
  "admits cd C raw sy (EvFrame cid env payload) =
     (sy_stopped sy = None \<and>
      (case sy_conns sy cid of
         Some (SlotLoop c) \<Rightarrow>
           \<not> cn_authed c \<and>
           cn_authed (fst (snd (snd (on_control_frame cd C env payload c (sy_server sy))))) \<and>
           de_auth cd payload = Inr \<lparr>aq_token = raw\<rparr>
       | _ \<Rightarrow> False))"
| "admits cd C raw sy ev = False"

text \<open>The random bytes an event may issue a token from differ from the token's.\<close>

definition fresh_rnd :: "crypto \<Rightarrow> string \<Rightarrow> bytes \<Rightarrow> bool" where
  "fresh_rnd C raw rnd \<longleftrightarrow>
     \<not> ct_eq C (hash_token C (as_bytes (random_token C rnd))) (hash_token C (as_bytes raw))"

fun event_fresh :: "crypto \<Rightarrow> string \<Rightarrow> sys_event \<Rightarrow> bool" where
  "event_fresh C raw (EvFrame cid env payload) = fresh_rnd C raw (env_rnd (ce_issue env))"
| "event_fresh C raw (EvIpc env peer parsed) = fresh_rnd C raw (env_rnd env)"
| "event_fresh C raw ev = True"

lemma sys_exec_tokens:
  assumes "event_fresh C raw ev"
  shows "\<exists>tops. srv_tokens (sy_server (sys_exec cd C sy ev)) =
      foldl (token_exec C) (srv_tokens (sy_server sy)) tops \<and>
    (\<forall>oper\<in>set tops. issues_other C raw oper) \<and>
    (sy_stopped sy = None \<and> admits cd C raw sy ev \<longrightarrow>
       tops \<noteq> [] \<and> auth_accepts C raw (srv_tokens (sy_server sy)) (hd tops))"
proof (cases ev)
  case (EvFrame cid env payload)
  show ?thesis
  proof (cases "\<exists>c. sy_conns sy cid = Some (SlotLoop c)")
    case True
    then obtain c where c: "sy_conns sy cid = Some (SlotLoop c)" ..
    obtain fl out c' st' where fr:
        "on_control_frame cd C env payload c (sy_server sy) = (fl, out, c', st')"
      by (metis prod_cases4)
    from frame_store [OF fr] obtain sops tops where
      "store_step C (cn_id c) sops tops (sy_server sy) st'" "issues_from C (env_rnd (ce_issue env)) tops"
      "cn_authed c' \<and> \<not> cn_authed c \<longrightarrow> (\<exists>req. de_auth cd payload = Inr req \<and>
         tops \<noteq> [] \<and> auth_accepts C (aq_token req) (srv_tokens (sy_server sy)) (hd tops))" by blast
    then show ?thesis using EvFrame c fr assms
      by (intro exI [of _ tops]) (auto simp: store_step_def issues_from_def fresh_rnd_def)
  next
    case False
    then show ?thesis using EvFrame
      by (intro exI [of _ "[]"]) (auto split: option.splits slot.splits)
  qed
next
  case (EvCleanup cid now)
  show ?thesis
  proof (cases "\<exists>c. sy_conns sy cid = Some (SlotEnding c)")
    case True
    then obtain c where c: "sy_conns sy cid = Some (SlotEnding c)" ..
    obtain sops where "store_step C (cn_id c) sops [] (sy_server sy) (conn_cleanup now c (sy_server sy))"
      using conn_cleanup_store by blast
    then show ?thesis using EvCleanup c
      by (intro exI [of _ "[]"]) (auto simp: store_step_def)
  next
    case False
    then show ?thesis using EvCleanup
      by (intro exI [of _ "[]"]) (auto split: option.splits slot.splits)
  qed
next
  case (EvStart cid env)
  show ?thesis
  proof (cases "\<exists>c r sid n. sy_conns sy cid = Some (SlotAttaching c r sid n)")
    case True
    then obtain c r sid n where c: "sy_conns sy cid = Some (SlotAttaching c r sid n)" by blast
    obtain fl out c' st' where f: "finish_attach cd env r sid n c (sy_server sy) = (fl, out, c', st')"
      by (metis prod_cases4)
    then show ?thesis using EvStart c finish_attach_cases [OF f]
      by (intro exI [of _ "[]"]) auto
  next
    case False
    then show ?thesis using EvStart
      by (intro exI [of _ "[]"]) (auto split: option.splits slot.splits)
  qed
next
  case (EvSweep now)
  then show ?thesis
    by (intro exI [of _ "[TSweep now (duration_from_secs 300)]"]) (simp add: sweep_tokens_def)
next
  case (EvTick now1 now2)
  obtain r st' where "accept_tick now1 now2 (sy_server sy) = (r, st')" by fastforce
  then show ?thesis using EvTick accept_tick_tokens [of now1 now2 "sy_server sy"]
    by (intro exI [of _ "[]"]) simp
next
  case (EvIpc env peer parsed)
  show ?thesis
  proof (cases "ipc_answer C env peer parsed (sy_server sy)")
    case None
    then show ?thesis using EvIpc by (intro exI [of _ "[]"]) simp
  next
    case (Some rs)
    obtain resp st' where rs: "rs = (resp, st')" by fastforce
    show ?thesis
    proof (cases resp)
      case (IpcError e)
      then have "st' = sy_server sy" using Some rs
        by (auto simp: ipc_answer_def split: sum.splits if_splits)
      then show ?thesis using EvIpc Some rs by (intro exI [of _ "[]"]) simp
    next
      case (IpcBootstrap out)
      let ?st = "sy_server sy"
      have "srv_bootstrap_output C env ?st = Some (out, st')"
        using Some rs IpcBootstrap by (auto simp: ipc_answer_def split: sum.splits if_splits)
      note b = srv_bootstrap_Some [OF this]
      let ?op = "TIssue AuthToken (srv_session_id ?st) (srv_owner_user ?st) (srv_auth_token_ttl ?st)
        (env_rnd env) (env_jti env) (env_now env)"
      have "issues_other C raw ?op" using assms EvIpc by (simp add: fresh_rnd_def)
      then show ?thesis using EvIpc Some rs b by (intro exI [of _ "[?op]"]) simp
    qed
  qed
qed (auto intro!: exI [of _ "[]"] simp: append_replay_alt split: option.splits slot.splits)

lemma admits_accepts:
  assumes "admits cd C raw sy ev"
  shows "\<exists>oper. auth_accepts C raw (srv_tokens (sy_server sy)) oper"
proof (cases ev)
  case (EvFrame cid env payload)
  with assms obtain c where c: "sy_conns sy cid = Some (SlotLoop c)"
    by (auto split: option.splits slot.splits)
  obtain fl out c' st' where fr:
      "on_control_frame cd C env payload c (sy_server sy) = (fl, out, c', st')"
    by (metis prod_cases4)
  then show ?thesis using assms EvFrame c frame_store [OF fr] by auto
qed (use assms in auto)

interpretation sys_token: single_use "sys_step cd C" "admits cd C raw"
  "\<lambda>sy. one_record C raw (srv_tokens (sy_server sy))"
  "\<lambda>sy. all_consumed C raw (srv_tokens (sy_server sy))" "event_fresh C raw"
  for cd :: "'v codec" and C :: crypto and raw :: string
proof unfold_locales
  fix sy :: system and ev
  assume one: "one_record C raw (srv_tokens (sy_server sy))" and f: "event_fresh C raw ev"
  obtain tops where t: "srv_tokens (sy_server (sys_exec cd C sy ev)) =
      foldl (token_exec C) (srv_tokens (sy_server sy)) tops" "\<forall>oper\<in>set tops. issues_other C raw oper"
    and acc: "sy_stopped sy = None \<and> admits cd C raw sy ev \<longrightarrow>
       tops \<noteq> [] \<and> auth_accepts C raw (srv_tokens (sy_server sy)) (hd tops)"
    using sys_exec_tokens [OF f] by blast
  show "one_record C raw (srv_tokens (sy_server (sys_step cd C sy ev)))"
    using auth_token_life.ready_run [OF one t(2)] t(1) one by (simp add: sys_step_def)
  show "all_consumed C raw (srv_tokens (sy_server (sys_step cd C sy ev)))"
    if sp: "all_consumed C raw (srv_tokens (sy_server sy))"
    using auth_token_life.spent_run [OF one sp t(2)] t(1) sp by (simp add: sys_step_def)
  show "all_consumed C raw (srv_tokens (sy_server (sys_step cd C sy ev)))"
    if ad: "admits cd C raw sy ev"
  proof -
    have run: "sy_stopped sy = None" using ad by (cases ev) auto
    with acc ad obtain oper ops where o: "tops = oper # ops"
      "auth_accepts C raw (srv_tokens (sy_server sy)) oper" by (cases tops) auto
    let ?s = "token_exec C (srv_tokens (sy_server sy)) oper"
    have ok: "issues_other C raw oper" "\<forall>oper\<in>set ops. issues_other C raw oper"
      using t(2) o(1) by simp_all
    have "all_consumed C raw (foldl (token_exec C) ?s ops)"
      by (rule auth_token_life.spent_run [OF auth_token_life.ready_stays [OF one ok(1)]
            auth_token_life.accept_spends [OF one ok(1) o(2)] ok(2)])
    with t(1) o(1) run show ?thesis by (simp add: sys_step_def)
  qed
next
  fix sy :: system and ev
  assume sp: "all_consumed C raw (srv_tokens (sy_server sy))"
  show "\<not> admits cd C raw sy ev"
    using admits_accepts auth_token_life.spent_rejects [OF sp] by blast
qed

text \<open>
  C2: An auth token opens at most one connection of the server: over any interleaving of
  connections, sweeps, renewals, timeouts and output, at most one \<open>AUTH\<close> presenting it is
  answered with \<open>AUTH_OK\<close>, provided the server does not draw the same random token twice.
\<close>

theorem auth_token_admits_once:
  assumes "one_record C raw (srv_tokens (sy_server sy))" and "\<forall>ev\<in>set evs. event_fresh C raw ev"
  shows "count_events (sys_step cd C) (admits cd C raw) sy evs \<le> 1"
  using assms by (rule sys_token.accepted_at_most_once)

theorem auth_token_admits_once_witness:
  "count_events (sys_step demo_codec demo_crypto) (admits demo_codec demo_crypto ''A'') demo_system
     (demo_events @ [EvOpen 8, EvFrame 8 demo_conn_env [1], EvFrame 8 demo_conn_env [2, 65]]) \<le> 1 \<and>
   admits demo_codec demo_crypto ''A'' (foldl (sys_step demo_codec demo_crypto) demo_system
     (take 2 demo_events)) (EvFrame 7 demo_conn_env [2, 65])"
proof
  have "\<forall>ev\<in>set (demo_events @ [EvOpen 8, EvFrame 8 demo_conn_env [1], EvFrame 8 demo_conn_env [2, 65]]).
      event_fresh demo_crypto ''A'' ev"
    by (simp add: demo_events_def fresh_rnd_def demo_conn_env_def demo_crypto_def hash_token_def
        random_token_def as_bytes_def)
  moreover have "one_record demo_crypto ''A'' (srv_tokens (sy_server demo_system))"
    by (simp add: one_record_def demo_system_def demo_issued_def)
  ultimately show "count_events (sys_step demo_codec demo_crypto) (admits demo_codec demo_crypto ''A'') demo_system
     (demo_events @ [EvOpen 8, EvFrame 8 demo_conn_env [1], EvFrame 8 demo_conn_env [2, 65]]) \<le> 1"
    by (intro auth_token_admits_once)
  show "admits demo_codec demo_crypto ''A'' (foldl (sys_step demo_codec demo_crypto) demo_system
     (take 2 demo_events)) (EvFrame 7 demo_conn_env [2, 65])"
    by (simp add: demo_events_def sys_step_def demo_system_def demo_hello_frame demo_auth_frame)
      (simp add: demo_codec_def demo_conn_def)
qed

end
