(* ===== verification/Fingerprint.thy ===== *)
theory Fingerprint
  imports Tokens Rust_Text
begin

text \<open>
  The certificate fingerprint that binds the ssh bootstrap to the QUIC connection. The server
  (\<open>src/src/bin/neoshd.rs\<close>) and the client (\<open>src/src/client/quic_client.rs\<close>) each have a copy of
  \<open>sha256_fingerprint\<close>; SHA-256 is the parameter of the token service.
\<close>

definition hex_char :: "nat \<Rightarrow> char" where
  "hex_char d = (if d < 10 then char_of (48 + d) else char_of (87 + d))"

text \<open>\<open>format!("{:02x}", b)\<close>.\<close>

definition hex2 :: "u8 \<Rightarrow> string" where
  "hex2 b = [hex_char (unat b div 16), hex_char (unat b mod 16)]"

definition sha256_fingerprint :: "crypto \<Rightarrow> bytes \<Rightarrow> string" where
  "sha256_fingerprint C cert_der =
     foldl (\<lambda>out b. out @ hex2 b) ''sha256:'' (sha256 C cert_der)"

text \<open>\<open>char::is_ascii_hexdigit\<close>.\<close>

definition is_ascii_hexdigit :: "char \<Rightarrow> bool" where
  "is_ascii_hexdigit c =
     (let n = (of_char c :: nat)
      in 48 \<le> n \<and> n \<le> 57 \<or> 65 \<le> n \<and> n \<le> 70 \<or> 97 \<le> n \<and> n \<le> 102)"

lemma hex_char_inj: "a < 16 \<Longrightarrow> b < 16 \<Longrightarrow> hex_char a = hex_char b \<Longrightarrow> a = b"
proof -
  assume ab: "a < 16" "b < 16" and eq: "hex_char a = hex_char b"
  define f where "f d = (if d < 10 then 48 + d else 87 + d)" for d :: nat
  have "hex_char d = char_of (f d)" for d by (simp add: hex_char_def f_def)
  with eq have "char_of (f a) = (char_of (f b) :: char)" by simp
  then have "(of_char (char_of (f a) :: char) :: nat) = of_char (char_of (f b) :: char)" by simp
  then have "f a mod 256 = f b mod 256" by simp
  then have "f a = f b" using ab by (auto simp: f_def split: if_splits)
  then show "a = b" using ab by (auto simp: f_def split: if_splits)
qed

lemma hex_char_hexdigit: "d < 16 \<Longrightarrow> is_ascii_hexdigit (hex_char d)"
  by (simp add: hex_char_def is_ascii_hexdigit_def Let_def)

lemma hex2_inj: "hex2 a = hex2 b \<longleftrightarrow> a = b"
proof
  assume h: "hex2 a = hex2 b"
  have lt: "unat x < 256" for x :: u8 using unsigned_less [of x] by simp
  have d: "unat x div 16 < 16" for x :: u8
    using lt [of x] less_mult_imp_div_less [of "unat x" 16 16] by simp
  have "unat a div 16 = unat b div 16"
    using h by (intro hex_char_inj [OF d d]) (simp add: hex2_def)
  moreover have "unat a mod 16 = unat b mod 16"
    using h by (intro hex_char_inj) (simp_all add: hex2_def)
  ultimately have "unat a = unat b" by (metis div_mult_mod_eq)
  then show "a = b" by (simp add: word_unat_eq_iff)
qed simp

lemma fingerprint_alt: "sha256_fingerprint C cert = ''sha256:'' @ concat (map hex2 (sha256 C cert))"
proof -
  have "foldl (\<lambda>out b. out @ hex2 b) acc bs = acc @ concat (map hex2 bs)" for acc bs
    by (induction bs arbitrary: acc) simp_all
  then show ?thesis by (simp add: sha256_fingerprint_def)
qed

lemma length_concat_hex2 [simp]: "length (concat (map hex2 bs)) = 2 * length bs"
  by (induction bs) (simp_all add: hex2_def)

lemma concat_hex2_inj: "concat (map hex2 as) = concat (map hex2 bs) \<longleftrightarrow> as = bs"
proof
  assume "concat (map hex2 as) = concat (map hex2 bs)"
  then show "as = bs"
  proof (induction as arbitrary: bs)
    case Nil
    then show ?case by (cases bs) (simp_all add: hex2_def)
  next
    case (Cons a as)
    then obtain b bs' where bs: "bs = b # bs'" by (cases bs) (auto simp: hex2_def)
    with Cons.prems have "hex2 a @ concat (map hex2 as) = hex2 b @ concat (map hex2 bs')" by simp
    moreover have "length (hex2 a) = length (hex2 b)" by (simp add: hex2_def)
    ultimately have "hex2 a = hex2 b" "concat (map hex2 as) = concat (map hex2 bs')" by simp_all
    with Cons.IH bs show ?case by (simp add: hex2_inj)
  qed
qed simp

lemma concat_hex2_hexdigits: "list_all is_ascii_hexdigit (concat (map hex2 bs))"
proof (induction bs)
  case (Cons b bs)
  have "unat b < 256" using unsigned_less [of b] by simp
  then have "unat b div 16 < 16" using less_mult_imp_div_less [of "unat b" 16 16] by simp
  with Cons show ?case by (simp add: hex2_def hex_char_hexdigit)
qed simp

section \<open>What the format preserves\<close>

text \<open>
  Two certificates have the same fingerprint exactly when they have the same SHA-256 digest:
  the text form loses nothing of it.
\<close>

theorem fingerprint_is_digest:
  "sha256_fingerprint C a = sha256_fingerprint C b \<longleftrightarrow> sha256 C a = sha256 C b"
  by (simp add: fingerprint_alt concat_hex2_inj)

end
