(* ===== verification/Client_Bootstrap.thy ===== *)
theory Client_Bootstrap
  imports Fingerprint Shell_Quote Server_State
begin

text \<open>
  The client's way to a verified connection: the ssh bootstrap with its validation
  (\<open>src/src/client/bootstrap.rs\<close>), the remote command line and the retry of
  \<open>src/src/bin/neosh.rs\<close>, and the QUIC connection pinned to the certificate fingerprint
  (\<open>src/src/client/quic_client.rs\<close>). Running \<open>ssh\<close>, parsing JSON and QUIC itself are arguments.
\<close>

section \<open>The bootstrap payload\<close>

record bootstrap_payload =
  bp_session_id :: uuid
  bp_auth_token :: string
  bp_auth_token_expires_in_seconds :: u64
  bp_quic_addr :: string
  bp_cert_fingerprint :: string

datatype bootstrap_error = SshCommand string | InvalidJson string | InvalidPayload string

fun bootstrap_error_text :: "bootstrap_error \<Rightarrow> string" where
  "bootstrap_error_text (SshCommand e) = ''ssh command failed: '' @ e"
| "bootstrap_error_text (InvalidJson e) = ''invalid bootstrap json: '' @ e"
| "bootstrap_error_text (InvalidPayload e) = ''invalid bootstrap payload: '' @ e"

definition is_valid_host_port :: "string \<Rightarrow> bool" where
  "is_valid_host_port input =
     (if input = [] then False
      else
        case strip_prefix_char (CHR ''['') input of
          Some rest \<Rightarrow>
            (case split_once '']:'' rest of
               None \<Rightarrow> False
             | Some (host, port) \<Rightarrow> if host = [] then False else parse_u16 port \<noteq> None)
        | None \<Rightarrow>
            (case rsplit_once (CHR '':'') input of
               None \<Rightarrow> False
             | Some (host, port) \<Rightarrow> if host = [] then False else parse_u16 port \<noteq> None))"

definition validate_bootstrap_payload :: "bootstrap_payload \<Rightarrow> bootstrap_error + unit" where
  "validate_bootstrap_payload p =
     (if bp_auth_token p = [] then Inl (InvalidPayload ''auth_token is empty'')
      else if bp_auth_token_expires_in_seconds p = 0
        then Inl (InvalidPayload ''auth_token_expires_in_seconds must be > 0'')
      else if \<not> is_valid_host_port (bp_quic_addr p)
        then Inl (InvalidPayload ''quic_addr is not host:port'')
      else if \<not> prefix ''sha256:'' (bp_cert_fingerprint p)
        then Inl (InvalidPayload ''cert_fingerprint must start with sha256:'')
      else
        let hex = drop 7 (bp_cert_fingerprint p)
        in if length hex \<noteq> 64 \<or> \<not> list_all is_ascii_hexdigit hex
           then Inl (InvalidPayload ''cert_fingerprint hex is invalid'')
           else Inr ())"

text \<open>\<open>from_json\<close> is \<open>serde_json::from_str\<close> for the payload.\<close>

definition parse_bootstrap_payload ::
  "(string \<Rightarrow> string + bootstrap_payload) \<Rightarrow> string \<Rightarrow> bootstrap_error + bootstrap_payload" where
  "parse_bootstrap_payload from_json raw =
     (case from_json raw of
        Inl e \<Rightarrow> Inl (InvalidJson e)
      | Inr p \<Rightarrow> (case validate_bootstrap_payload p of Inl e \<Rightarrow> Inl e | Inr _ \<Rightarrow> Inr p))"

section \<open>Remote commands\<close>

text \<open>What \<open>ssh\<close> left behind, with its output read as text (\<open>from_utf8_lossy\<close>).\<close>

record ssh_output =
  so_success :: bool
  so_stdout :: string
  so_stderr :: string

text \<open>\<open>ssh target command\<close>: \<open>Inl\<close> when the process could not be run.\<close>

type_synonym ssh = "string \<Rightarrow> string \<Rightarrow> string + ssh_output"

definition run_remote_command :: "ssh \<Rightarrow> string \<Rightarrow> string \<Rightarrow> bootstrap_error + string" where
  "run_remote_command ssh target command =
     (case ssh target command of
        Inl e \<Rightarrow> Inl (SshCommand e)
      | Inr output \<Rightarrow>
          if \<not> so_success output then Inl (SshCommand (trim (so_stderr output)))
          else Inr (trim (so_stdout output)))"

definition resolve_remote_working_directory :: "ssh \<Rightarrow> string \<Rightarrow> bootstrap_error + string" where
  "resolve_remote_working_directory ssh target =
     (case run_remote_command ssh target (''sh -lc '' @ [sq] @ ''pwd'' @ [sq]) of
        Inl e \<Rightarrow> Inl e
      | Inr pwd \<Rightarrow>
          if pwd = [] then Inl (SshCommand ''remote working directory is empty'') else Inr pwd)"

definition run_ssh_bootstrap ::
  "ssh \<Rightarrow> (string \<Rightarrow> string + bootstrap_payload) \<Rightarrow> string \<Rightarrow> string \<Rightarrow> bootstrap_error + bootstrap_payload" where
  "run_ssh_bootstrap ssh from_json target command =
     (case run_remote_command ssh target command of
        Inl e \<Rightarrow> Inl e
      | Inr stdout \<Rightarrow> parse_bootstrap_payload from_json stdout)"

datatype bootstrap_mode =
    ModeNew "string option" "string option"
  | ModeRenew uuid

text \<open>The optional argument \<open>--flag value\<close>, left out when the value is blank.\<close>

definition extra_arg :: "string \<Rightarrow> string option \<Rightarrow> string" where
  "extra_arg flag value =
     (case value of
        None \<Rightarrow> []
      | Some v \<Rightarrow> if trim v = [] then [] else '' '' @ flag @ '' '' @ shell_double_quote v)"

text \<open>The script of a new session, as the remote \<open>sh -c\<close> is meant to get it.\<close>

definition remote_script ::
  "string option \<Rightarrow> string option \<Rightarrow> string \<Rightarrow> string option \<Rightarrow> string" where
  "remote_script dir command neoshd_path log_file =
     (let escaped_path = shell_double_quote neoshd_path;
          extra = extra_arg ''--working-directory'' dir @ extra_arg ''--command'' command;
          log_setup = (case log_file of
              None \<Rightarrow> [] | Some f \<Rightarrow> ''log_file='' @ shell_double_quote f @ ''; '');
          stderr_redirect = (case log_file of
              Some f \<Rightarrow> ''2>>'' @ [dq] @ ''$log_file'' @ [dq] | None \<Rightarrow> ''2>/dev/null'')
      in ''set -eu; bootstrap_file='' @ [dq] @
         ''$(mktemp -t neosh-bootstrap.XXXXXX)'' @ [dq] @ ''; '' @
         log_setup @ ''nohup '' @ escaped_path @ '' new --user '' @ [dq] @ ''$USER'' @ [dq] @
         extra @ '' >'' @ [dq] @ ''$bootstrap_file'' @ [dq] @ '' '' @ stderr_redirect @
         '' </dev/null & '' @
         ''for i in $(seq 1 200); do '' @
         ''if [ -s '' @ [dq] @ ''$bootstrap_file'' @ [dq] @ '' ]; then '' @
         ''head -n 1 '' @ [dq] @ ''$bootstrap_file'' @ [dq] @ ''; rm -f '' @
         [dq] @ ''$bootstrap_file'' @ [dq] @ ''; exit 0; '' @
         ''fi; '' @ ''sleep 0.05; '' @ ''done; '' @
         ''echo '' @ [dq] @ ''bootstrap timeout'' @ [dq] @ '' >&2; rm -f '' @
         [dq] @ ''$bootstrap_file'' @ [dq] @ ''; exit 1'')"

text \<open>\<open>show_uuid\<close> is \<open>Display\<close> of the \<open>uuid\<close> crate.\<close>

definition build_remote_command ::
  "(uuid \<Rightarrow> string) \<Rightarrow> bootstrap_mode \<Rightarrow> string \<Rightarrow> string option \<Rightarrow> string" where
  "build_remote_command show_uuid mode neoshd_path log_file =
     (case mode of
        ModeNew dir command \<Rightarrow>
          ''sh -lc '' @ [sq] @ remote_script dir command neoshd_path log_file @ [sq]
      | ModeRenew sid \<Rightarrow>
          neoshd_path @ '' renew-auth --session-id '' @ show_uuid sid @ '' --user '' @
          [dq] @ ''$USER'' @ [dq])"

datatype cli_error =
    CliBootstrap string | CliQuic string | CliProtocol string | CliCache string | CliIo string
  | CliAuthFailed | CliDisconnected uuid | CliClosed

text \<open>
  At most two attempts; \<open>ssh\<close> answers them in turn. The last error is the one reported.
\<close>

fun bootstrap_attempts ::
  "ssh list \<Rightarrow> (string \<Rightarrow> string + bootstrap_payload) \<Rightarrow> string \<Rightarrow> string \<Rightarrow> string option
   \<Rightarrow> cli_error + bootstrap_payload" where
  "bootstrap_attempts [] from_json target cmd last_err =
     Inl (CliBootstrap (case last_err of Some e \<Rightarrow> e | None \<Rightarrow> ''unknown bootstrap failure''))"
| "bootstrap_attempts (ssh # rest) from_json target cmd last_err =
     (case run_ssh_bootstrap ssh from_json target cmd of
        Inr p \<Rightarrow> Inr p
      | Inl e \<Rightarrow> bootstrap_attempts rest from_json target cmd (Some (bootstrap_error_text e)))"

definition ssh_bootstrap_with_retry ::
  "(uuid \<Rightarrow> string) \<Rightarrow> ssh \<Rightarrow> ssh \<Rightarrow> (string \<Rightarrow> string + bootstrap_payload) \<Rightarrow> string \<Rightarrow> bootstrap_mode
   \<Rightarrow> string \<Rightarrow> string option \<Rightarrow> cli_error + bootstrap_payload" where
  "ssh_bootstrap_with_retry show_uuid ssh1 ssh2 from_json target mode neoshd_path log_file =
     bootstrap_attempts [ssh1, ssh2] from_json target
       (build_remote_command show_uuid mode neoshd_path log_file) None"

section \<open>The pinned connection\<close>

datatype quic_client_error =
    QuicConnect string | MissingPeerCertificate | FingerprintMismatch | InvalidAddr
  | InvalidIdleTimeout string

fun quic_client_error_text :: "quic_client_error \<Rightarrow> string" where
  "quic_client_error_text (QuicConnect e) = ''connect error: '' @ e"
| "quic_client_error_text MissingPeerCertificate = ''peer certificate missing''"
| "quic_client_error_text FingerprintMismatch = ''fingerprint mismatch''"
| "quic_client_error_text InvalidAddr = ''invalid quic addr''"
| "quic_client_error_text (InvalidIdleTimeout e) = ''invalid idle timeout: '' @ e"

text \<open>
  The results of the calls into \<open>quinn\<close> and \<open>rustls\<close>: an address, a local endpoint, the client
  configuration (its TLS part, then its idle timeout), a connection; and the certificates a
  connection's peer presented, \<open>None\<close> when there is no identity of that type.
\<close>

record ('addr, 'con) quic_api =
  qa_parse_addr :: "string \<Rightarrow> 'addr option"
  qa_endpoint :: "string + unit"
  qa_tls_config :: "string + unit"
  qa_idle_timeout :: "u64 \<Rightarrow> string + unit"
  qa_connect :: "'addr \<Rightarrow> string \<Rightarrow> string + 'con"
  qa_peer_certs :: "'con \<Rightarrow> bytes list option"

definition build_insecure_pinned_client_config ::
  "('addr, 'con) quic_api \<Rightarrow> u64 \<Rightarrow> quic_client_error + unit" where
  "build_insecure_pinned_client_config q idle_timeout_secs =
     (case qa_tls_config q of
        Inl e \<Rightarrow> Inl (QuicConnect e)
      | Inr _ \<Rightarrow>
          (case qa_idle_timeout q idle_timeout_secs of
             Inl e \<Rightarrow> Inl (InvalidIdleTimeout e)
           | Inr _ \<Rightarrow> Inr ()))"

definition peer_cert_fingerprint :: "crypto \<Rightarrow> ('addr, 'con) quic_api \<Rightarrow> 'con \<Rightarrow> string option" where
  "peer_cert_fingerprint C q con =
     (case qa_peer_certs q con of
        None \<Rightarrow> None
      | Some [] \<Rightarrow> None
      | Some (cert # _) \<Rightarrow> Some (sha256_fingerprint C cert))"

definition verify_peer_fingerprint ::
  "crypto \<Rightarrow> ('addr, 'con) quic_api \<Rightarrow> 'con \<Rightarrow> string \<Rightarrow> quic_client_error + unit" where
  "verify_peer_fingerprint C q con expected =
     (case peer_cert_fingerprint C q con of
        None \<Rightarrow> Inl MissingPeerCertificate
      | Some actual \<Rightarrow> if actual \<noteq> expected then Inl FingerprintMismatch else Inr ())"

definition connect_and_verify ::
  "crypto \<Rightarrow> ('addr, 'con) quic_api \<Rightarrow> string \<Rightarrow> string \<Rightarrow> u64 \<Rightarrow> quic_client_error + 'con" where
  "connect_and_verify C q quic_addr expected idle_timeout_secs =
     (case qa_parse_addr q quic_addr of
        None \<Rightarrow> Inl InvalidAddr
      | Some addr \<Rightarrow>
          (case qa_endpoint q of
             Inl e \<Rightarrow> Inl (QuicConnect e)
           | Inr _ \<Rightarrow>
               (case build_insecure_pinned_client_config q idle_timeout_secs of
                  Inl e \<Rightarrow> Inl e
                | Inr _ \<Rightarrow>
                    (case qa_connect q addr ''localhost'' of
                       Inl e \<Rightarrow> Inl (QuicConnect e)
                     | Inr con \<Rightarrow>
                         (case verify_peer_fingerprint C q con expected of
                            Inl e \<Rightarrow> Inl e
                          | Inr _ \<Rightarrow> Inr con)))))"

section \<open>Addresses\<close>

lemma parse_u16_no_colon: "parse_u16 s \<noteq> None \<Longrightarrow> CHR '':'' \<notin> set s"
proof -
  have d: "parse_digits m acc cs = Some v \<Longrightarrow> CHR '':'' \<notin> set cs" for m acc cs v
    by (induction cs arbitrary: acc) (auto simp: digit_value_def split: option.splits if_splits)
  assume "parse_u16 s \<noteq> None"
  then obtain v where v: "parse_uint (2 ^ 16) s = Some v" by (auto simp: parse_u16_def)
  show ?thesis
  proof (cases "strip_prefix_char (CHR ''+'') s")
    case None
    then show ?thesis using v d by (auto simp: parse_uint_def Let_def split: if_splits)
  next
    case (Some r)
    then have "s = CHR ''+'' # r" by (cases s) (auto split: if_splits)
    then show ?thesis using v d Some by (auto simp: parse_uint_def Let_def split: if_splits)
  qed
qed

lemma host_port_ok:
  assumes "host \<noteq> []" and "hd host \<noteq> CHR ''[''"
  shows "is_valid_host_port (host @ '':'' @ show_nat (unat (p :: u16)))"
proof -
  have "strip_prefix_char (CHR ''['') (host @ '':'' @ show_nat (unat p)) = None"
    using assms by (cases host) auto
  moreover have "rsplit_once (CHR '':'') (host @ '':'' @ show_nat (unat p)) =
      Some (host, show_nat (unat p))"
    using rsplit_once_append [of "CHR '':''" "show_nat (unat p)" host] by simp
  ultimately show ?thesis
    using assms by (simp add: is_valid_host_port_def parse_u16_show_nat)
qed

text \<open>
  The address check accepts only text that ends in a colon and a port after a non-empty host,
  and it accepts every host without a leading bracket followed by a printed port, so everything
  the server prints (\<open>ip:port\<close>, also an IPv6 address without brackets).
\<close>

theorem host_port_check:
  "(is_valid_host_port s \<longrightarrow>
     (\<exists>host port. s = host @ '':'' @ port \<and> host \<noteq> [] \<and> CHR '':'' \<notin> set port \<and>
        parse_u16 port \<noteq> None)) \<and>
   (host \<noteq> [] \<and> hd host \<noteq> CHR ''['' \<longrightarrow>
     is_valid_host_port (host @ '':'' @ show_nat (unat (p :: u16))))"
proof (intro conjI impI)
  assume v: "is_valid_host_port s"
  show "\<exists>host port. s = host @ '':'' @ port \<and> host \<noteq> [] \<and> CHR '':'' \<notin> set port \<and>
      parse_u16 port \<noteq> None"
  proof (cases "strip_prefix_char (CHR ''['') s")
    case None
    with v obtain host port where "rsplit_once (CHR '':'') s = Some (host, port)" "host \<noteq> []"
      "parse_u16 port \<noteq> None"
      by (auto simp: is_valid_host_port_def split: if_splits option.splits)
    then show ?thesis by (auto dest!: rsplit_once_SomeD)
  next
    case (Some rest)
    with v obtain host port where "split_once '']:'' rest = Some (host, port)" "host \<noteq> []"
      "parse_u16 port \<noteq> None"
      by (auto simp: is_valid_host_port_def split: if_splits option.splits)
    moreover from Some have "s = CHR ''['' # rest" by (cases s) (auto split: if_splits)
    ultimately show ?thesis
      by (intro exI [of _ "''['' @ host @ '']''"] exI [of _ port])
        (auto dest!: split_once_SomeD simp: parse_u16_no_colon)
  qed
next
  assume "host \<noteq> [] \<and> hd host \<noteq> CHR ''[''"
  then show "is_valid_host_port (host @ '':'' @ show_nat (unat p))" using host_port_ok by blast
qed

theorem host_port_check_witness:
  "is_valid_host_port (''::1'' @ '':'' @ show_nat (unat (30000 :: u16)))"
  using host_port_check [of "[]" "''::1''" 30000] by simp

section \<open>The remote command line\<close>

lemma sq_dq_escape: "sq \<in> set (dq_escape s) \<longleftrightarrow> sq \<in> set s"
  by (induction s) (auto simp: quote_chars)

lemma sq_double_quote: "sq \<in> set (shell_double_quote s) \<longleftrightarrow> sq \<in> set s"
  by (simp add: shell_double_quote_alt sq_dq_escape) (simp add: quote_chars)

definition has_quote :: "string option \<Rightarrow> bool" where
  "has_quote value \<longleftrightarrow> (\<exists>v. value = Some v \<and> trim v \<noteq> [] \<and> sq \<in> set v)"

lemma sq_extra_arg: "sq \<notin> set flag \<Longrightarrow> sq \<in> set (extra_arg flag value) \<longleftrightarrow> has_quote value"
proof -
  have "sq \<noteq> CHR '' ''" by (simp add: quote_chars)
  then show "sq \<notin> set flag \<Longrightarrow> ?thesis"
    by (auto simp: extra_arg_def has_quote_def sq_double_quote split: option.splits)
qed

lemma sq_remote_script:
  "sq \<in> set (remote_script dir command path log) \<longleftrightarrow>
     has_quote dir \<or> has_quote command \<or> sq \<in> set path \<or> (\<exists>f. log = Some f \<and> sq \<in> set f)"
proof -
  have "sq \<notin> set ''--working-directory''" "sq \<notin> set ''--command''" "sq \<noteq> dq"
    by (simp_all add: quote_chars)
  note flags = this
  show ?thesis
    by (cases log)
      (simp_all only: remote_script_def Let_def set_append Un_iff option.case
        sq_extra_arg [OF flags(1)] sq_extra_arg [OF flags(2)] sq_double_quote,
       simp_all add: quote_chars disj_ac)
qed

text \<open>
  C30: The remote login shell hands the bootstrap script to \<open>sh -c\<close> unchanged exactly when no
  argument contains an apostrophe. The arguments are quoted for the inside of double quotes, but
  the whole script stands between single quotes, so an apostrophe in the path of neoshd, the
  working directory, the command or the log file ends that quotation early.
\<close>

theorem remote_script_intact:
  "(\<exists>line. build_remote_command show_uuid (ModeNew dir command) path log = ''sh -lc '' @ line \<and>
      sh_word line = Some (remote_script dir command path log, [])) \<longleftrightarrow>
   \<not> (has_quote dir \<or> has_quote command \<or> sq \<in> set path \<or> (\<exists>f. log = Some f \<and> sq \<in> set f))"
proof -
  let ?s = "remote_script dir command path log"
  have "sh_word (sq # ?s @ [sq]) = Some (?s, []) \<longleftrightarrow> sq \<notin> set ?s"
  proof
    assume "sq \<notin> set ?s"
    then show "sh_word (sq # ?s @ [sq]) = Some (?s, [])"
      using sh_single_free [of ?s "[]"] by (simp add: sh_word_sq sh_word_blank)
  next
    assume w: "sh_word (sq # ?s @ [sq]) = Some (?s, [])"
    show "sq \<notin> set ?s"
    proof
      assume "sq \<in> set ?s"
      then obtain a b where s: "?s = a @ sq # b" and a: "sq \<notin> set a"
        by (meson split_list_first)
      have "sh_single (?s @ [sq]) = Some (a, b @ [sq])"
        using sh_single_free [OF a, of "b @ [sq]"] by (simp add: s)
      with w have "map_option (\<lambda>(v, r'). (a @ v, r')) (sh_word (b @ [sq])) = Some (?s, [])"
        by (simp add: sh_word_sq)
      then obtain v where v: "sh_word (b @ [sq]) = Some (v, [])" "a @ v = a @ sq # b"
        unfolding s by (auto simp: map_option_eq_Some)
      then have "sh_word (b @ [sq]) = Some (sq # b, [])" by simp
      from sh_word_length [OF this] show False by simp
    qed
  qed
  then show ?thesis
    by (simp add: build_remote_command_def sq_remote_script)
qed

section \<open>From the server's output to a pinned connection\<close>

text \<open>The client's view of what the server printed.\<close>

definition payload_of :: "bootstrap_output \<Rightarrow> bootstrap_payload" where
  "payload_of out =
     \<lparr>bp_session_id = bo_session_id out, bp_auth_token = bo_auth_token out,
      bp_auth_token_expires_in_seconds = bo_auth_token_expires_in_seconds out,
      bp_quic_addr = bo_quic_addr out, bp_cert_fingerprint = bo_cert_fingerprint out\<rparr>"

text \<open>
  What a server prints is what its client accepts: for a server at a printed address and port
  with the fingerprint of its certificate and an auth token lifetime that is not zero, the
  client's validation succeeds on the bootstrap data.
\<close>

theorem server_output_validates:
  assumes "srv_bootstrap_output C env st = Some (out, st')"
    and "srv_quic_addr st = host @ '':'' @ show_nat (unat (port :: u16))"
    and "host \<noteq> []" and "hd host \<noteq> CHR ''[''"
    and "srv_cert_fingerprint st = sha256_fingerprint C cert" and "length (sha256 C cert) = 32"
    and "random_token C (env_rnd env) \<noteq> []" and "duration_as_secs (srv_auth_token_ttl st) \<noteq> 0"
  shows "validate_bootstrap_payload (payload_of out) = Inr ()"
proof -
  have tok: "bo_auth_token out = random_token C (env_rnd env)"
    and ttl: "bo_auth_token_expires_in_seconds out = duration_as_secs (srv_auth_token_ttl st)"
    and addr: "bo_quic_addr out = srv_quic_addr st" and fp: "bo_cert_fingerprint out = srv_cert_fingerprint st"
    using assms(1)
    by (auto simp: srv_bootstrap_output_def srv_issue_auth_token_def issue_auth_token_def
        issue_token_def Let_def split: option.splits)
  have "is_valid_host_port (srv_quic_addr st)"
    unfolding assms(2) using host_port_ok [OF assms(3,4)] .
  moreover have "list_all is_ascii_hexdigit (concat (map hex2 (sha256 C cert)))"
    by (rule concat_hex2_hexdigits)
  ultimately show ?thesis
    using assms(5-8) tok ttl addr fp
    by (simp add: validate_bootstrap_payload_def payload_of_def fingerprint_alt Let_def)
qed

text \<open>
  C28: Pinning: a connection the client accepts was made to the address it was given and its peer
  presented a certificate with the SHA-256 digest of the certificate whose fingerprint came over
  ssh; any other peer is refused, although the TLS layer itself accepts every certificate.
\<close>

theorem connection_pinned:
  assumes "connect_and_verify C q quic_addr (sha256_fingerprint C cert) idle = Inr con"
  shows "\<exists>addr peer certs. qa_parse_addr q quic_addr = Some addr \<and>
    qa_connect q addr ''localhost'' = Inr con \<and> qa_peer_certs q con = Some (peer # certs) \<and>
    sha256 C peer = sha256 C cert"
  using assms
  by (auto simp: connect_and_verify_def verify_peer_fingerprint_def peer_cert_fingerprint_def
      fingerprint_alt concat_hex2_inj split: option.splits sum.splits if_splits list.splits)

definition demo_quic :: "(nat, nat) quic_api" where
  "demo_quic =
     \<lparr>qa_parse_addr = (\<lambda>_. Some 1), qa_endpoint = Inr (), qa_tls_config = Inr (),
      qa_idle_timeout = (\<lambda>_. Inr ()), qa_connect = (\<lambda>_ _. Inr 9),
      qa_peer_certs = (\<lambda>_. Some [[7, 7]])\<rparr>"

theorem connection_pinned_witness:
  "connect_and_verify demo_crypto demo_quic ''127.0.0.1:30000'' (sha256_fingerprint demo_crypto [7, 7]) 60 =
     Inr 9 \<and>
   (\<exists>peer certs. qa_peer_certs demo_quic 9 = Some (peer # certs) \<and> sha256 demo_crypto peer = [7, 7])"
proof -
  have c: "connect_and_verify demo_crypto demo_quic ''127.0.0.1:30000''
      (sha256_fingerprint demo_crypto [7, 7]) 60 = Inr 9"
    by (simp add: connect_and_verify_def demo_quic_def build_insecure_pinned_client_config_def
        verify_peer_fingerprint_def peer_cert_fingerprint_def)
  have "sha256 demo_crypto [7, 7] = [7, 7]" by (simp add: demo_crypto_def)
  with connection_pinned [OF c] c show ?thesis by auto
qed

theorem server_output_validates_witness:
  "\<exists>out st'. srv_bootstrap_output (demo_crypto\<lparr>sha256 := \<lambda>_. replicate 32 171\<rparr>)
       \<lparr>env_rnd = [65], env_jti = 3, env_now = 0\<rparr>
       (demo_server\<lparr>srv_cert_fingerprint :=
          sha256_fingerprint (demo_crypto\<lparr>sha256 := \<lambda>_. replicate 32 171\<rparr>) [7]\<rparr>) = Some (out, st') \<and>
     validate_bootstrap_payload (payload_of out) = Inr ()"
proof -
  let ?C = "demo_crypto\<lparr>sha256 := \<lambda>_. replicate 32 171\<rparr>"
  let ?st = "demo_server\<lparr>srv_cert_fingerprint := sha256_fingerprint ?C [7]\<rparr>"
  have ttl: "srv_auth_token_ttl demo_server = duration_from_secs 60"
    by (simp add: demo_server_def server_state_new_def demo_args_def)
  have addr: "srv_quic_addr ?st = ''127.0.0.1'' @ '':'' @ show_nat (unat (30000 :: u16))"
  proof -
    have "show_nat 30000 = ''30000''"
      by (simp add: show_nat.simps [of 30000] show_nat.simps [of 3000] show_nat.simps [of 300]
          show_nat.simps [of 30] show_nat.simps [of 3] show_nat.simps [of 0] digit_char_def)
        code_simp
    then show ?thesis by (simp add: demo_server_def server_state_new_def)
  qed
  obtain out st' where b: "srv_bootstrap_output ?C \<lparr>env_rnd = [65], env_jti = 3, env_now = 0\<rparr> ?st = Some (out, st')"
    by (simp add: srv_bootstrap_output_def srv_issue_auth_token_def issue_auth_token_def issue_token_def
        system_time_add_def ttl duration_from_secs_def nanos_per_sec_def Let_def)
  have "validate_bootstrap_payload (payload_of out) = Inr ()"
    by (rule server_output_validates [OF b addr])
      (simp_all add: ttl random_token_def demo_crypto_def)
  with b show ?thesis by blast
qed

end
