(* ===== verification/Client_State.thy ===== *)
theory Client_State
  imports Neosh_Prelude
begin

text \<open>
  The client's connection state machine (\<open>src/src/client/state.rs\<close>) and a description of the event
  sequences it accepts.
\<close>

datatype client_state =
    CsInit | CsConnected | CsHelloDone | CsAuthenticated | CsAttached | CsDetached | CsClosed

datatype client_event =
    CeQuicConnected | CeHelloAck | CeAuthOk | CeAttachOk | CeResumeOk | CeDetached | CeClosed | CeError

datatype state_error = InvalidTransition

fun transition :: "client_state \<Rightarrow> client_event \<Rightarrow> state_error + client_state" where
  "transition CsInit CeQuicConnected = Inr CsConnected"
| "transition CsConnected CeHelloAck = Inr CsHelloDone"
| "transition CsHelloDone CeAuthOk = Inr CsAuthenticated"
| "transition CsAuthenticated CeAttachOk = Inr CsAttached"
| "transition CsAuthenticated CeResumeOk = Inr CsAttached"
| "transition CsAttached CeDetached = Inr CsDetached"
| "transition CsAttached CeClosed = Inr CsClosed"
| "transition CsDetached CeClosed = Inr CsClosed"
| "transition s CeError = Inr CsClosed"
| "transition s e = Inl InvalidTransition"

fun client_rank :: "client_state \<Rightarrow> nat" where
  "client_rank CsInit = 0"
| "client_rank CsConnected = 1"
| "client_rank CsHelloDone = 2"
| "client_rank CsAuthenticated = 3"
| "client_rank CsAttached = 4"
| "client_rank CsDetached = 5"
| "client_rank CsClosed = 6"

lemma transition_rank: "transition s e = Inr s' \<Longrightarrow> s' = s \<or> client_rank s < client_rank s'"
  by (cases s; cases e) auto

interpretation client_rank: ranked_machine transition "\<lambda>_. True" client_rank
  by unfold_locales (simp_all add: transition_rank)

text \<open>
  The one way to each state that is not closed; attaching and resuming are the two variants.
\<close>

fun path_to :: "client_state \<Rightarrow> client_event \<Rightarrow> client_event list" where
  "path_to CsInit a = []"
| "path_to CsConnected a = [CeQuicConnected]"
| "path_to CsHelloDone a = [CeQuicConnected, CeHelloAck]"
| "path_to CsAuthenticated a = [CeQuicConnected, CeHelloAck, CeAuthOk]"
| "path_to CsAttached a = [CeQuicConnected, CeHelloAck, CeAuthOk, a]"
| "path_to CsDetached a = [CeQuicConnected, CeHelloAck, CeAuthOk, a, CeDetached]"
| "path_to CsClosed a = []"

lemma transition_into:
  "transition s e = Inr s' \<Longrightarrow> s' \<noteq> CsClosed \<Longrightarrow> a \<in> {CeAttachOk, CeResumeOk} \<Longrightarrow>
   \<exists>b\<in>{CeAttachOk, CeResumeOk}. path_to s' b = path_to s a @ [e] \<and> s \<noteq> CsClosed"
  by (cases s; cases e) auto

text \<open>
  A state other than the closed one is reached in exactly one way: the client is attached
  after precisely the QUIC connection, \<open>HELLO_ACK\<close>, \<open>AUTH_OK\<close> and one of \<open>ATTACH_OK\<close> and
  \<open>RESUME_OK\<close>, in this order and with nothing else in between.
\<close>

theorem client_reaches_states_by_handshake:
  "s \<noteq> CsClosed \<Longrightarrow>
   run_events transition CsInit es = Inr s \<longleftrightarrow>
     es = path_to s CeAttachOk \<or> es = path_to s CeResumeOk"
proof (induction es arbitrary: s rule: rev_induct)
  case Nil
  then show ?case by (cases s) auto
next
  case (snoc e es)
  show ?case
  proof
    assume r: "run_events transition CsInit (es @ [e]) = Inr s"
    then obtain t where t: "run_events transition CsInit es = Inr t" and e: "transition t e = Inr s"
      by (auto simp: run_events_append split: sum.splits)
    have "t \<noteq> CsClosed" using e snoc.prems by (cases e) auto
    then obtain a where a: "a \<in> {CeAttachOk, CeResumeOk}" "es = path_to t a"
      using snoc.IH t by blast
    with transition_into [OF e snoc.prems a(1)] show "es @ [e] = path_to s CeAttachOk \<or>
      es @ [e] = path_to s CeResumeOk" by auto
  next
    assume "es @ [e] = path_to s CeAttachOk \<or> es @ [e] = path_to s CeResumeOk"
    then show "run_events transition CsInit (es @ [e]) = Inr s"
      using snoc.prems by (cases s) auto
  qed
qed

theorem client_reaches_states_by_handshake_witness:
  "run_events transition CsInit [CeQuicConnected, CeHelloAck, CeAuthOk, CeResumeOk] = Inr CsAttached"
  using client_reaches_states_by_handshake
    [of CsAttached "[CeQuicConnected, CeHelloAck, CeAuthOk, CeResumeOk]"] by simp

end
