(* ===== verification/Stdin_Filter.thy ===== *)
theory Stdin_Filter
  imports Neosh_Prelude
begin

text \<open>
  The detach hotkey of the client: the filter on the terminal's input and the task that sends it
  (\<open>process_stdin_chunk_for_detach\<close> and \<open>bridge_terminal\<close> in \<open>src/src/bin/neosh.rs\<close>), with the
  other direction of the bridge.
\<close>

section \<open>The filter\<close>

definition normalize_stdin_byte :: "u8 \<Rightarrow> u8" where
  "normalize_stdin_byte b = (if b = 0x08 then 0x7f else b)"

text \<open>The loop of the function, with \<open>out\<close> and \<open>pending\<close> threaded.\<close>

fun process_stdin_loop :: "bytes \<Rightarrow> bytes \<Rightarrow> bool \<Rightarrow> bool \<times> bytes \<times> bool" where
  "process_stdin_loop [] out pending = (False, out, pending)"
| "process_stdin_loop (b # chunk) out pending =
     (if pending \<and> (b = 100 \<or> b = 68) then (True, out, False)
      else
        let out' = (if pending then out @ [1] else out)
        in if b = 1 then process_stdin_loop chunk out' True
           else process_stdin_loop chunk (out' @ [normalize_stdin_byte b]) False)"

definition process_stdin_chunk_for_detach :: "bytes \<Rightarrow> bool \<Rightarrow> bool \<times> bytes \<times> bool" where
  "process_stdin_chunk_for_detach chunk pending_ctrl_a = process_stdin_loop chunk [] pending_ctrl_a"

section \<open>The bridge\<close>

datatype local_read = LocalData bytes | LocalEnd | LocalError

text \<open>
  The task that sends the terminal's input. A round is one read and the result of the write that
  may follow it. The result is what was written to the \<open>STDIN\<close> stream, whether the task asked for
  the detachment, and whether it has ended (and finished the stream).
\<close>

fun stdin_task_loop :: "bool \<Rightarrow> (local_read \<times> bool) list \<Rightarrow> bytes \<times> bool \<times> bool \<times> bool" where
  "stdin_task_loop pending [] = ([], False, False, pending)"
| "stdin_task_loop pending ((LocalEnd, ok) # rs) = ([], False, True, pending)"
| "stdin_task_loop pending ((LocalError, ok) # rs) = ([], False, True, pending)"
| "stdin_task_loop pending ((LocalData buf, ok) # rs) =
     (case process_stdin_chunk_for_detach buf pending of
        (detach, outbound, next_pending) \<Rightarrow>
          if detach then ([], True, True, next_pending)
          else if outbound \<noteq> [] \<and> \<not> ok then ([], False, True, next_pending)
          else
            (case stdin_task_loop next_pending rs of
               (sent, d, ended, p) \<Rightarrow> (outbound @ sent, d, ended, p)))"

text \<open>After the loop a pending \<open>Ctrl-a\<close> is still sent; \<open>flush_ok\<close> is the result of that write.\<close>

definition stdin_task :: "(local_read \<times> bool) list \<Rightarrow> bool \<Rightarrow> bytes \<times> bool \<times> bool" where
  "stdin_task rounds flush_ok =
     (case stdin_task_loop False rounds of
        (sent, detach, ended, pending) \<Rightarrow>
          (if ended \<and> pending \<and> flush_ok then sent @ [1] else sent, detach, ended))"

text \<open>
  The task that shows the remote output, and the signal it ends with: \<open>Ok(None)\<close> is the end of the
  stream.
\<close>

datatype remote_read = RemoteData bytes | RemoteEnd | RemoteError

datatype bridge_signal = BridgeStreamClosed | BridgeDisconnected

fun stdout_task :: "(remote_read \<times> bool) list \<Rightarrow> bytes \<times> bridge_signal option" where
  "stdout_task [] = ([], None)"
| "stdout_task ((RemoteData buf, ok) # rs) =
     (if ok then (case stdout_task rs of (shown, s) \<Rightarrow> (buf @ shown, s)) else ([], None))"
| "stdout_task ((RemoteEnd, ok) # rs) = ([], Some BridgeStreamClosed)"
| "stdout_task ((RemoteError, ok) # rs) = ([], Some BridgeDisconnected)"

section \<open>What the filter lets through\<close>

lemma loop_acc:
  "process_stdin_loop chunk out pending =
     (case process_stdin_loop chunk [] pending of (d, o', p) \<Rightarrow> (d, out @ o', p))"
proof (induction chunk arbitrary: out pending)
  case (Cons b chunk)
  have "process_stdin_loop chunk (out @ x) q =
      (case process_stdin_loop chunk x q of (d, o', p) \<Rightarrow> (d, out @ o', p))" for x q
    using Cons.IH [of "out @ x" q] Cons.IH [of x q] by (simp split: prod.splits)
  note ih = this
  show ?case
    using ih [of "[]"] ih [of "[1]"] ih [of "[normalize_stdin_byte b]"]
      ih [of "[1, normalize_stdin_byte b]"]
    by (auto simp: Let_def)
qed simp

definition hotkey :: "bytes \<Rightarrow> bool" where
  "hotkey s \<longleftrightarrow> (\<exists>a b c. s = a @ [1, c] @ b \<and> c \<in> {100, 68})"

definition held :: "bool \<Rightarrow> bytes" where
  "held pending = (if pending then [1] else [])"

lemma map_normalize_held [simp]: "map normalize_stdin_byte (held p) = held p"
  by (simp add: held_def normalize_stdin_byte_def)

lemma hotkey_Nil [simp]: "\<not> hotkey []" "\<not> hotkey [x]"
  by (auto simp: hotkey_def Cons_eq_append_conv)

lemma hotkey_Cons2: "hotkey (x # y # s) \<longleftrightarrow> x = 1 \<and> y \<in> {100, 68} \<or> hotkey (y # s)"
proof
  assume "hotkey (x # y # s)"
  then obtain a b c where s: "x # y # s = a @ [1, c] @ b" and c: "c \<in> {100, 68}"
    by (auto simp: hotkey_def)
  then show "x = 1 \<and> y \<in> {100, 68} \<or> hotkey (y # s)"
    by (cases a) (auto simp: hotkey_def)
next
  assume "x = 1 \<and> y \<in> {100, 68} \<or> hotkey (y # s)"
  then show "hotkey (x # y # s)"
  proof
    assume "x = 1 \<and> y \<in> {100, 68}"
    then show ?thesis unfolding hotkey_def
      by (intro exI [of _ "[]"] exI [of _ s] exI [of _ y]) auto
  next
    assume "hotkey (y # s)"
    then obtain a b c where "y # s = a @ [1, c] @ b" "c \<in> {100, 68}" by (auto simp: hotkey_def)
    then show ?thesis unfolding hotkey_def
      by (intro exI [of _ "x # a"] exI [of _ b] exI [of _ c]) auto
  qed
qed

lemma hotkey_no1: "x \<noteq> 1 \<Longrightarrow> hotkey (x # s) = hotkey s"
  by (cases s) (simp_all add: hotkey_Cons2)

lemma hotkey_append_not: "hotkey s \<Longrightarrow> hotkey (s @ t)" "hotkey t \<Longrightarrow> hotkey (s @ t)"
  unfolding hotkey_def by (metis append.assoc)+

lemma hotkey_shift:
  "\<not> (pending \<and> (c = 100 \<or> c = 68)) \<Longrightarrow>
   hotkey (held pending @ c # s) \<longleftrightarrow> hotkey (held (c = 1) @ s)"
  by (cases pending) (auto simp: held_def hotkey_Cons2 hotkey_no1)

lemma loop_step:
  assumes "\<not> (pending \<and> (c = 100 \<or> c = 68))"
    and "process_stdin_loop chunk [] (c = 1) = (d', o', p')"
  shows "process_stdin_loop (c # chunk) [] pending =
    (d', held pending @ (if c = 1 then [] else [normalize_stdin_byte c]) @ o', p')"
  using assms loop_acc [of chunk "held pending" True]
    loop_acc [of chunk "held pending @ [normalize_stdin_byte c]" False]
  by (auto simp: held_def Let_def split: if_splits)

lemma pending_join:
  "process_stdin_loop chunk [] pending = (False, o', q) \<Longrightarrow>
   hotkey (held q @ t) \<longleftrightarrow> hotkey (held pending @ chunk @ t)"
proof (induction chunk arbitrary: pending o')
  case (Cons c chunk)
  then have n: "\<not> (pending \<and> (c = 100 \<or> c = 68))" by (auto split: if_splits)
  obtain d1 o1 q1 where r: "process_stdin_loop chunk [] (c = 1) = (d1, o1, q1)" by (metis prod_cases3)
  with loop_step [OF n r] Cons.prems have "process_stdin_loop chunk [] (c = 1) = (False, o1, q)" by simp
  from Cons.IH [OF this] show ?case using hotkey_shift [OF n, of "chunk @ t"] by simp
qed simp

text \<open>The filter, read off the whole input: a held back \<open>Ctrl-a\<close> counts as its first byte.\<close>

lemma filter_spec:
  "process_stdin_loop chunk [] pending = (d, out, p) \<Longrightarrow>
   (d \<longleftrightarrow> hotkey (held pending @ chunk)) \<and>
   (\<not> d \<longrightarrow> out @ held p = map normalize_stdin_byte (held pending @ chunk))"
proof (induction chunk arbitrary: pending d out p)
  case Nil
  then show ?case by (auto simp: held_def normalize_stdin_byte_def)
next
  case (Cons b chunk)
  show ?case
  proof (cases "pending \<and> (b = 100 \<or> b = 68)")
    case True
    then show ?thesis using Cons.prems by (auto simp: held_def hotkey_Cons2)
  next
    case False
    obtain d' o' p' where r: "process_stdin_loop chunk [] (b = 1) = (d', o', p')" by (metis prod_cases3)
    note ih = Cons.IH [OF r] and eq = loop_step [OF False r] and hk = hotkey_shift [OF False]
    have d: "d = d'" and p: "p = p'"
      and out: "out = held pending @ (if b = 1 then [] else [normalize_stdin_byte b]) @ o'"
      using eq Cons.prems by simp_all
    have pre: "map normalize_stdin_byte (held x) = held x" for x
      by (simp add: held_def normalize_stdin_byte_def)
    have "out @ held p = map normalize_stdin_byte (held pending @ b # chunk)" if "\<not> d"
    proof -
      from that ih d have "o' @ held p' = held (b = 1) @ map normalize_stdin_byte chunk"
        by (simp add: pre)
      then show ?thesis unfolding out p map_append pre
        by (cases "b = 1") (simp_all add: held_def normalize_stdin_byte_def)
    qed
    with ih hk d show ?thesis by blast
  qed
qed

lemma stdin_loop_spec:
  assumes "stdin_task_loop pending (map (\<lambda>b. (LocalData b, True)) chunks @ [(LocalEnd, True)]) =
      (sent, d, ended, p)"
  shows "(d \<longleftrightarrow> hotkey (held pending @ concat chunks)) \<and> ended \<and>
    (\<not> d \<longrightarrow> sent @ held p = map normalize_stdin_byte (held pending @ concat chunks))"
  using assms
proof (induction chunks arbitrary: pending sent)
  case Nil
  then show ?case by (auto simp: held_def normalize_stdin_byte_def)
next
  case (Cons b chunks)
  obtain d' o' q where r: "process_stdin_loop b [] pending = (d', o', q)" by (metis prod_cases3)
  note f = filter_spec [OF r]
  show ?case
  proof (cases d')
    case True
    then show ?thesis using Cons.prems r f hotkey_append_not(1) [of "held pending @ b" "concat chunks"]
      by (auto simp: process_stdin_chunk_for_detach_def)
  next
    case False
    then obtain sent' where s: "stdin_task_loop q (map (\<lambda>b. (LocalData b, True)) chunks @ [(LocalEnd, True)]) =
        (sent', d, ended, p)" and sent: "sent = o' @ sent'"
      using Cons.prems r by (auto simp: process_stdin_chunk_for_detach_def split: prod.splits)
    note ih = Cons.IH [OF s]
    have "hotkey (held q @ concat chunks) \<longleftrightarrow> hotkey (held pending @ b @ concat chunks)"
      using pending_join [of b pending o' q] r False by simp
    then show ?thesis using ih f False sent by auto
  qed
qed

text \<open>
  The task that sends the terminal's input, fed any sequence of reads up to the end of the
  input, asks for the detachment exactly when the whole input, however it was cut into reads,
  contains \<open>Ctrl-a d\<close> or \<open>Ctrl-a D\<close>; and when it does not, what reaches the remote shell is the
  input itself, byte for byte, with backspace sent as delete: no \<open>Ctrl-a\<close> is lost or doubled,
  not even one held back at the end of a read.
\<close>

theorem stdin_forwarded_exactly:
  assumes "stdin_task (map (\<lambda>b. (LocalData b, True)) chunks @ [(LocalEnd, True)]) True =
      (sent, detach, ended)"
  shows "(detach \<longleftrightarrow> (\<exists>a b c. concat chunks = a @ [1, c] @ b \<and> c \<in> {100, 68})) \<and> ended \<and>
    (\<not> detach \<longrightarrow> sent = map normalize_stdin_byte (concat chunks))"
proof -
  obtain s d e p where l:
    "stdin_task_loop False (map (\<lambda>b. (LocalData b, True)) chunks @ [(LocalEnd, True)]) = (s, d, e, p)"
    by (metis prod_cases4)
  note spec = stdin_loop_spec [OF l]
  from l assms have d: "d = detach" and e: "e = ended"
    and sent: "sent = (if e \<and> p then s @ [1] else s)"
    by (simp_all add: stdin_task_def split: if_splits)
  have h: "detach \<longleftrightarrow> hotkey (concat chunks)" and ended and
    out: "\<not> detach \<longrightarrow> s @ held p = map normalize_stdin_byte (concat chunks)"
    using spec d e by (simp_all add: held_def [of False])
  moreover from \<open>ended\<close> e sent have "sent = s @ held p" by (simp add: held_def)
  ultimately show ?thesis unfolding hotkey_def by simp
qed

theorem stdin_forwarded_exactly_witness:
  "\<not> fst (snd (stdin_task (map (\<lambda>b. (LocalData b, True)) [[104, 1], [105, 8], [1]]
      @ [(LocalEnd, True)]) True)) \<and>
   fst (stdin_task (map (\<lambda>b. (LocalData b, True)) [[104, 1], [105, 8], [1]]
      @ [(LocalEnd, True)]) True) = [104, 1, 105, 0x7f, 1]"
proof -
  have r: "stdin_task (map (\<lambda>b. (LocalData b, True)) [[104, 1], [105, 8], [1]]
      @ [(LocalEnd, True)]) True = ([104, 1, 105, 0x7f, 1], False, True)"
    by (simp add: stdin_task_def process_stdin_chunk_for_detach_def normalize_stdin_byte_def)
  from stdin_forwarded_exactly [OF r] show ?thesis
    by (simp only: r normalize_stdin_byte_def) simp
qed

end
