(* ===== verification/Server_Config.thy ===== *)
theory Server_Config
  imports Server_System Fingerprint
begin

text \<open>
  How \<open>neoshd new\<close> starts and ends (\<open>run_new\<close> and its helpers in \<open>src/src/bin/neoshd.rs\<close>): the
  checks of its arguments, the TLS configuration and its fingerprint, the addresses and the port it
  binds, and the bootstrap data it prints. The certificate libraries, name resolution and the QUIC
  endpoint are the record \<open>server_api\<close>.
\<close>

section \<open>The outside\<close>

record ('ip, 'ep) server_api =
  ap_idle_timeout :: "duration \<Rightarrow> string + u64"
  ap_self_signed :: "string list \<Rightarrow> string + (bytes \<times> bytes)"
  ap_read_file :: "string \<Rightarrow> string + bytes"
  ap_pem_certs :: "bytes \<Rightarrow> string + bytes list"
  ap_pem_keys :: "bytes \<Rightarrow> string + bytes list"
  ap_single_cert :: "bytes list \<Rightarrow> bytes \<Rightarrow> string + unit"
  ap_quic_crypto :: "string + unit"
  ap_parse_ip :: "string \<Rightarrow> 'ip option"
  ap_show_ip :: "'ip \<Rightarrow> string"
  ap_localhost :: 'ip
  ap_unspecified :: 'ip
  ap_resolve :: "string \<Rightarrow> string + 'ip list"
  ap_ssh_connection :: "string option"
  ap_bind :: "'ip \<Rightarrow> u16 \<Rightarrow> 'ep option"

text \<open>The part of \<open>quinn\<close>'s \<open>ServerConfig\<close> that the program sets.\<close>

record server_config =
  sc_certs :: "bytes list"
  sc_key :: bytes
  sc_alpn :: string
  sc_idle_timeout :: u64
  sc_max_bidi_streams :: u32
  sc_max_uni_streams :: u32

section \<open>Arguments and TLS\<close>

definition validate_new_args :: "('ip, 'ep) server_api \<Rightarrow> new_args \<Rightarrow> neoshd_error + unit" where
  "validate_new_args api args =
     (if length (split_on (CHR '':'') (arg_port_range args)) \<noteq> 2
      then Inl (NeConfig ''--port-range must be START:END'')
      else if arg_tls_cert args = [] \<and> arg_tls_key args \<noteq> [] \<or>
          arg_tls_cert args \<noteq> [] \<and> arg_tls_key args = []
        then Inl (NeConfig ''--tls-cert and --tls-key must be provided together'')
      else
        (case ap_idle_timeout api (duration_from_secs (arg_quic_idle_timeout_seconds args)) of
           Inl e \<Rightarrow> Inl (NeConfig (''invalid --quic-idle-timeout-seconds: '' @ e))
         | Inr _ \<Rightarrow> Inr ()))"

definition load_cert_key_pair ::
  "('ip, 'ep) server_api \<Rightarrow> string \<Rightarrow> string \<Rightarrow> neoshd_error + (bytes \<times> bytes)" where
  "load_cert_key_pair api cert_path key_path =
     (case ap_read_file api cert_path of
        Inl e \<Rightarrow> Inl (NeIo e)
      | Inr cert_pem \<Rightarrow>
          (case ap_read_file api key_path of
             Inl e \<Rightarrow> Inl (NeIo e)
           | Inr key_pem \<Rightarrow>
               (case ap_pem_certs api cert_pem of
                  Inl e \<Rightarrow> Inl (NeConfig (''read cert failed: '' @ e))
                | Inr [] \<Rightarrow> Inl (NeConfig ''empty cert file'')
                | Inr (cert # _) \<Rightarrow>
                    (case ap_pem_keys api key_pem of
                       Inl e \<Rightarrow> Inl (NeConfig (''read key failed: '' @ e))
                     | Inr keys \<Rightarrow>
                         if keys = [] then Inl (NeConfig ''empty key file'')
                         else Inr (cert, last keys)))))"

text \<open>\<open>None\<close> is the panic of the \<open>expect\<close> on the idle timeout.\<close>

definition build_server_tls ::
  "crypto \<Rightarrow> ('ip, 'ep) server_api \<Rightarrow> new_args \<Rightarrow> (neoshd_error + (server_config \<times> string)) option" where
  "build_server_tls C api args =
     (case (if arg_tls_cert args = []
            then (case ap_self_signed api [''localhost''] of
                    Inl e \<Rightarrow> Inl (NeInternal (''generate cert failed: '' @ e))
                  | Inr ck \<Rightarrow> Inr ck)
            else load_cert_key_pair api (arg_tls_cert args) (arg_tls_key args)) of
        Inl e \<Rightarrow> Some (Inl e)
      | Inr (cert_der, key_der) \<Rightarrow>
          (case ap_single_cert api [cert_der] key_der of
             Inl e \<Rightarrow> Some (Inl (NeConfig (''invalid TLS config: '' @ e)))
           | Inr _ \<Rightarrow>
               (case ap_quic_crypto api of
                  Inl e \<Rightarrow> Some (Inl (NeConfig (''quic rustls config failed: '' @ e)))
                | Inr _ \<Rightarrow>
                    (case ap_idle_timeout api
                            (duration_from_secs (arg_quic_idle_timeout_seconds args)) of
                       Inl _ \<Rightarrow> None
                     | Inr idle \<Rightarrow>
                         Some (Inr (\<lparr>sc_certs = [cert_der], sc_key = key_der, sc_alpn = ''neosh/1'',
                                     sc_idle_timeout = idle, sc_max_bidi_streams = 1,
                                     sc_max_uni_streams = 8\<rparr>,
                                    sha256_fingerprint C cert_der))))))"

section \<open>Addresses and ports\<close>

definition resolve_bind_addrs :: "('ip, 'ep) server_api \<Rightarrow> new_args \<Rightarrow> neoshd_error + 'ip list" where
  "resolve_bind_addrs api args =
     (if arg_bind_server args = ''ssh'' then
        (case ap_ssh_connection api of
           None \<Rightarrow> Inr [ap_localhost api]
         | Some raw \<Rightarrow>
             let fields = split_whitespace raw
             in if 4 \<le> length fields
                then (case ap_parse_ip api (fields ! 2) of
                        Some ip \<Rightarrow> Inr [ip]
                      | None \<Rightarrow> Inr [ap_localhost api])
                else Inr [ap_localhost api])
      else if arg_bind_server args = ''any'' then Inr [ap_unspecified api]
      else
        (case ap_parse_ip api (arg_bind_server args) of
           Some ip \<Rightarrow> Inr [ip]
         | None \<Rightarrow>
             (case ap_resolve api (arg_bind_server args) of
                Inl e \<Rightarrow> Inl (NeConfig (''resolve --bind-server failed: '' @ e))
              | Inr addrs \<Rightarrow>
                  if addrs = [] then Inl (NeConfig ''--bind-server resolved no addresses'')
                  else Inr addrs)))"

definition parse_port_range :: "string \<Rightarrow> neoshd_error + (u16 \<times> u16)" where
  "parse_port_range prange =
     (case split_on (CHR '':'') prange of
        [] \<Rightarrow> Inl (NeConfig ''missing range start'')
      | s # rest \<Rightarrow>
          (case parse_u16 s of
             None \<Rightarrow> Inl (NeConfig ''invalid range start'')
           | Some start \<Rightarrow>
               (case rest of
                  [] \<Rightarrow> Inl (NeConfig ''missing range end'')
                | e # _ \<Rightarrow>
                    (case parse_u16 e of
                       None \<Rightarrow> Inl (NeConfig ''invalid range end'')
                     | Some end' \<Rightarrow>
                         if start = 0 \<or> end' < start then Inl (NeConfig ''invalid --port-range'')
                         else Inr (start, end')))))"

text \<open>The ports of \<open>start..=end\<close>, and the two loops over addresses and ports.\<close>

definition port_list :: "u16 \<Rightarrow> u16 \<Rightarrow> u16 list" where
  "port_list start end' = map of_nat [unat start ..< Suc (unat end')]"

fun bind_ports :: "('ip \<Rightarrow> u16 \<Rightarrow> 'ep option) \<Rightarrow> 'ip \<Rightarrow> u16 list \<Rightarrow> ('ep \<times> 'ip \<times> u16) option" where
  "bind_ports bind ip [] = None"
| "bind_ports bind ip (port # ports) =
     (case bind ip port of
        Some endpoint \<Rightarrow> Some (endpoint, ip, port)
      | None \<Rightarrow> bind_ports bind ip ports)"

fun bind_addrs :: "('ip \<Rightarrow> u16 \<Rightarrow> 'ep option) \<Rightarrow> 'ip list \<Rightarrow> u16 list \<Rightarrow> ('ep \<times> 'ip \<times> u16) option" where
  "bind_addrs bind [] ports = None"
| "bind_addrs bind (ip # ips) ports =
     (case bind_ports bind ip ports of
        Some r \<Rightarrow> Some r
      | None \<Rightarrow> bind_addrs bind ips ports)"

definition bind_endpoint ::
  "('ip, 'ep) server_api \<Rightarrow> 'ip list \<Rightarrow> string \<Rightarrow> neoshd_error + ('ep \<times> 'ip \<times> u16)" where
  "bind_endpoint api ips prange =
     (case parse_port_range prange of
        Inl e \<Rightarrow> Inl e
      | Inr (start, end') \<Rightarrow>
          (case bind_addrs (ap_bind api) ips (port_list start end') of
             Some r \<Rightarrow> Inr r
           | None \<Rightarrow> Inl (NeConfig ''no available port in range'')))"

text \<open>\<open>xdg\<close> is the environment variable \<open>XDG_RUNTIME_DIR\<close>.\<close>

definition server_ipc_socket_path :: "(uuid \<Rightarrow> string) \<Rightarrow> string option \<Rightarrow> uuid \<Rightarrow> string" where
  "server_ipc_socket_path show_uuid xdg sid =
     (let runtime_dir = (case xdg of Some d \<Rightarrow> d | None \<Rightarrow> ''/tmp'')
      in path_join (path_join runtime_dir ''neoshd'') (show_uuid sid @ ''.sock''))"

section \<open>The start and the end of the command\<close>

text \<open>
  What the calls of the start return besides: the new session's id, the user id, the clock, the
  inputs of the first token, the printing of the bootstrap data and the directory of the socket.
\<close>

record launch_env =
  le_sid :: uuid
  le_euid :: u32
  le_now :: system_time
  le_issue :: issue_env
  le_print :: "bootstrap_output \<Rightarrow> string + unit"
  le_flush :: "string + unit"
  le_create_dir :: "string + unit"

datatype 'ep launched =
    LaunchFailed neoshd_error "bootstrap_output option"
  | LaunchPanicked
  | Launched server_config 'ep bootstrap_output system

definition launch ::
  "crypto \<Rightarrow> ('ip, 'ep) server_api \<Rightarrow> launch_env \<Rightarrow> new_args \<Rightarrow> 'ep launched" where
  "launch C api env args =
     (case validate_new_args api args of
        Inl e \<Rightarrow> LaunchFailed e None
      | Inr _ \<Rightarrow>
     (case build_server_tls C api args of
        None \<Rightarrow> LaunchPanicked
      | Some (Inl e) \<Rightarrow> LaunchFailed e None
      | Some (Inr (config, fp)) \<Rightarrow>
     (case resolve_bind_addrs api args of
        Inl e \<Rightarrow> LaunchFailed e None
      | Inr ips \<Rightarrow>
     (case bind_endpoint api ips (arg_port_range args) of
        Inl e \<Rightarrow> LaunchFailed e None
      | Inr (endpoint, ip, port) \<Rightarrow>
          let quic_addr = ap_show_ip api ip @ '':'' @ show_nat (unat port)
          in
     (case sys_start C (le_sid env) args (le_euid env) quic_addr fp (le_now env) (le_issue env) of
        None \<Rightarrow> LaunchPanicked
      | Some (out, sy) \<Rightarrow>
     (case le_print env out of
        Inl e \<Rightarrow> LaunchFailed (NeInternal e) None
      | Inr _ \<Rightarrow>
     (case le_flush env of
        Inl e \<Rightarrow> LaunchFailed (NeIo e) (Some out)
      | Inr _ \<Rightarrow>
     (case le_create_dir env of
        Inl e \<Rightarrow> LaunchFailed (NeIo e) (Some out)
      | Inr _ \<Rightarrow> Launched config endpoint out sy))))))))"

text \<open>
  The end: the log events for the result of the accept loop, each with the text it reports, and
  the result of the command.
\<close>

definition run_new_end ::
  "neoshd_error + accept_loop_stop_reason \<Rightarrow> (string \<times> string) list \<times> (neoshd_error + unit)" where
  "run_new_end accept_res =
     (case accept_res of
        Inr reason \<Rightarrow>
          ((''server_stop'', stop_reason_str reason) #
           (if is_auto_shutdown reason then [(''server_auto_shutdown'', stop_reason_str reason)] else []),
           Inr ())
      | Inl err \<Rightarrow> ([(''server_stop_error'', neoshd_error_text err)], Inl err))"

section \<open>The command line\<close>

datatype server_command =
    ScNew new_args
  | ScRenewAuth uuid string
  | ScVersion

text \<open>
  The exit status with the standard output and the error: \<open>new\<close> and \<open>renew\<close> are the results of
  \<open>run_new\<close> and \<open>run_renew_auth\<close> with what they printed.
\<close>

definition neoshd_main ::
  "(new_args \<Rightarrow> (neoshd_error + unit) \<times> string list)
   \<Rightarrow> (uuid \<Rightarrow> string \<Rightarrow> (neoshd_error + unit) \<times> string list) \<Rightarrow> server_command
   \<Rightarrow> int \<times> string list \<times> string option" where
  "neoshd_main new renew cmd =
     (case (case cmd of
              ScVersion \<Rightarrow> (Inr (), [server_version])
            | ScRenewAuth sid user \<Rightarrow> renew sid user
            | ScNew args \<Rightarrow> new args) of
        (Inr _, out) \<Rightarrow> (0, out, None)
      | (Inl err, out) \<Rightarrow> (1, out, Some (neoshd_error_text err)))"

section \<open>Ports\<close>

lemma parse_port_range_show:
  "parse_port_range (show_nat (unat s) @ '':'' @ show_nat (unat e)) =
     (if s = 0 \<or> e < s then Inl (NeConfig ''invalid --port-range'') else Inr (s, e))"
  using split_on_append [of "CHR '':''" "show_nat (unat s)" "show_nat (unat e)"]
  by (simp add: parse_port_range_def split_on_free parse_u16_show_nat)

lemma set_port_list: "p \<in> set (port_list s e) \<longleftrightarrow> s \<le> p \<and> p \<le> e"
proof
  assume "p \<in> set (port_list s e)"
  then obtain n where n: "unat s \<le> n" "n \<le> unat e" and p: "p = of_nat n"
    by (auto simp: port_list_def)
  have "unat e < 2 ^ 16" using unsigned_less [of e, where ?'a = nat] by simp
  with n(2) have "n < 2 ^ 16" by simp
  then have "unat p = n" unfolding p by (simp add: unat_of_nat)
  with n show "s \<le> p \<and> p \<le> e" by (simp add: word_le_nat_alt)
next
  assume "s \<le> p \<and> p \<le> e"
  then have "unat s \<le> unat p" "unat p \<le> unat e" by (simp_all add: word_le_nat_alt)
  then have "unat p \<in> set [unat s ..< Suc (unat e)]" unfolding set_upt by auto
  then have "of_nat (unat p) \<in> set (port_list s e)" unfolding port_list_def by (metis image_eqI image_set)
  then show "p \<in> set (port_list s e)" by simp
qed

lemma bind_ports_find:
  "bind_ports bind ip ports =
     Option.bind (List.find (\<lambda>p. bind ip p \<noteq> None) ports) (\<lambda>p. map_option (\<lambda>ep. (ep, ip, p)) (bind ip p))"
  by (induction ports) (auto split: option.splits)

lemma bind_addrs_find:
  "bind_addrs bind ips ports =
     Option.bind (List.find (\<lambda>(ip, p). bind ip p \<noteq> None) (List.product ips ports))
       (\<lambda>(ip, p). map_option (\<lambda>ep. (ep, ip, p)) (bind ip p))"
proof (induction ips)
  case (Cons ip ips)
  have f: "List.find P (map (Pair ip) ps @ qs) =
      (case List.find (\<lambda>p. P (ip, p)) ps of Some p \<Rightarrow> Some (ip, p) | None \<Rightarrow> List.find P qs)"
    for P :: "_ \<times> u16 \<Rightarrow> bool" and ps qs
    by (induction ps) auto
  show ?case
    by (cases "List.find (\<lambda>p. bind ip p \<noteq> None) ports")
      (auto simp: Cons.IH bind_ports_find f dest!: find_SomeD)
qed simp

text \<open>
  C38: For a printed range of ports the server binds the first pair of an address and a port that
  can be bound, addresses first and ports upwards within the range, and reports a lack of ports
  exactly when none can; a range that starts at zero or is empty is refused before any attempt.
\<close>

theorem bind_first_free_port:
  "bind_endpoint api ips (show_nat (unat s) @ '':'' @ show_nat (unat e)) =
     (if s = 0 \<or> e < s then Inl (NeConfig ''invalid --port-range'')
      else
        case List.find (\<lambda>(ip, p). ap_bind api ip p \<noteq> None) (List.product ips (port_list s e)) of
          None \<Rightarrow> Inl (NeConfig ''no available port in range'')
        | Some (ip, p) \<Rightarrow> Inr (the (ap_bind api ip p), ip, p)) \<and>
   sorted (map unat (port_list s e)) \<and> set (port_list s e) = {s..e}"
proof (intro conjI)
  show "set (port_list s e) = {s..e}" by (auto simp: set_port_list)
  have "unat e < 2 ^ 16" using unsigned_less [of e, where ?'a = nat] by simp
  then have "map unat (port_list s e) = map (\<lambda>n. n) [unat s ..< Suc (unat e)]"
    unfolding port_list_def map_map
    by (intro map_cong refl) (auto simp: unat_of_nat)
  then show "sorted (map unat (port_list s e))" by (simp only: map_ident sorted_upt)
  show "bind_endpoint api ips (show_nat (unat s) @ '':'' @ show_nat (unat e)) =
     (if s = 0 \<or> e < s then Inl (NeConfig ''invalid --port-range'')
      else
        case List.find (\<lambda>(ip, p). ap_bind api ip p \<noteq> None) (List.product ips (port_list s e)) of
          None \<Rightarrow> Inl (NeConfig ''no available port in range'')
        | Some (ip, p) \<Rightarrow> Inr (the (ap_bind api ip p), ip, p))"
    unfolding bind_endpoint_def parse_port_range_show bind_addrs_find
    by (auto split: option.splits dest!: find_SomeD)
qed

section \<open>A started server\<close>

lemma launchedE:
  assumes "launch C api env args = Launched config endpoint out sy"
  obtains fp ips ip port where "validate_new_args api args = Inr ()"
    and "build_server_tls C api args = Some (Inr (config, fp))"
    and "resolve_bind_addrs api args = Inr ips"
    and "bind_endpoint api ips (arg_port_range args) = Inr (endpoint, ip, port)"
    and "sys_start C (le_sid env) args (le_euid env) (ap_show_ip api ip @ '':'' @ show_nat (unat port))
      fp (le_now env) (le_issue env) = Some (out, sy)"
  using assms by (auto simp: launch_def Let_def split: sum.splits option.splits)

lemma build_server_tlsD:
  "build_server_tls C api args = Some (Inr (config, fp)) \<Longrightarrow>
   \<exists>cert. sc_certs config = [cert] \<and> fp = sha256_fingerprint C cert \<and> sc_alpn config = ''neosh/1''"
  by (auto simp: build_server_tls_def split: sum.splits)

lemma bind_endpoint_range:
  assumes "bind_endpoint api ips r = Inr (endpoint, ip, port)"
  shows "\<exists>s e. parse_port_range r = Inr (s, e) \<and> ip \<in> set ips \<and> s \<le> port \<and> port \<le> e \<and>
    ap_bind api ip port = Some endpoint"
  using assms
  by (auto simp: bind_endpoint_def bind_addrs_find Option.bind_eq_Some_conv split: sum.splits option.splits
      dest!: find_SomeD) (auto simp: set_port_list)

text \<open>The checks come before their uses: the \<open>expect\<close> on the idle timeout never panics.\<close>

lemma build_after_validate:
  "validate_new_args api args = Inr () \<Longrightarrow> build_server_tls C api args \<noteq> None"
  by (auto simp: validate_new_args_def build_server_tls_def split: sum.splits if_splits)

lemma sys_start_output:
  assumes "sys_start C sid args uid qaddr fp now env = Some (out, sy)"
  shows "bo_session_id out = sid \<and> bo_quic_addr out = qaddr \<and> bo_cert_fingerprint out = fp \<and>
    srv_session_id (sy_server sy) = sid \<and> bo_auth_token out = random_token C (env_rnd env)"
  using assms
  by (auto simp: sys_start_def srv_bootstrap_output_def srv_issue_auth_token_def issue_auth_token_def
      issue_token_def server_state_new_def Let_def split: option.splits)

text \<open>
  C36: A server that starts advertises what it serves: the bootstrap data names an address it has
  bound, with a port of the configured range that is not zero, the fingerprint of the one
  certificate it presents, and the session it serves.
\<close>

theorem launch_advertises_what_it_serves:
  assumes "launch C api env args = Launched config endpoint out sy"
  shows "\<exists>s e ip port cert.
    parse_port_range (arg_port_range args) = Inr (s, e) \<and> 0 < s \<and> s \<le> port \<and> port \<le> e \<and>
    ap_bind api ip port = Some endpoint \<and>
    bo_quic_addr out = ap_show_ip api ip @ '':'' @ show_nat (unat port) \<and>
    sc_certs config = [cert] \<and> bo_cert_fingerprint out = sha256_fingerprint C cert \<and>
    bo_session_id out = srv_session_id (sy_server sy)"
proof -
  from assms obtain fp ips ip port where tls: "build_server_tls C api args = Some (Inr (config, fp))"
    and b: "bind_endpoint api ips (arg_port_range args) = Inr (endpoint, ip, port)"
    and start: "sys_start C (le_sid env) args (le_euid env)
      (ap_show_ip api ip @ '':'' @ show_nat (unat port)) fp (le_now env) (le_issue env) = Some (out, sy)"
    by (rule launchedE)
  from bind_endpoint_range [OF b] obtain s e where r: "parse_port_range (arg_port_range args) = Inr (s, e)"
    and p: "s \<le> port" "port \<le> e" "ap_bind api ip port = Some endpoint"
    by blast
  have "s \<noteq> 0" using r by (auto simp: parse_port_range_def split: list.splits option.splits if_splits)
  then have "0 < s" by (simp add: word_gt_0)
  with r p build_server_tlsD [OF tls] sys_start_output [OF start] show ?thesis by metis
qed

definition demo_api :: "(nat, nat) server_api" where
  "demo_api =
     \<lparr>ap_idle_timeout = (\<lambda>d. Inr (duration_as_secs d)), ap_self_signed = (\<lambda>_. Inr ([7], [8])),
      ap_read_file = (\<lambda>_. Inl ''no file''), ap_pem_certs = (\<lambda>b. Inr [b]), ap_pem_keys = (\<lambda>b. Inr [b]),
      ap_single_cert = (\<lambda>_ _. Inr ()), ap_quic_crypto = Inr (), ap_parse_ip = (\<lambda>_. None),
      ap_show_ip = (\<lambda>_. ''127.0.0.1''), ap_localhost = 3, ap_unspecified = 0,
      ap_resolve = (\<lambda>_. Inr []), ap_ssh_connection = None,
      ap_bind = (\<lambda>ip p. if p = 30002 then Some 5 else None)\<rparr>"

definition demo_launch_env :: launch_env where
  "demo_launch_env =
     \<lparr>le_sid = 1, le_euid = 1000, le_now = 0,
      le_issue = \<lparr>env_rnd = [65], env_jti = 3, env_now = 0\<rparr>,
      le_print = (\<lambda>_. Inr ()), le_flush = Inr (), le_create_dir = Inr ()\<rparr>"

definition demo_launch_args :: new_args where
  "demo_launch_args = demo_args\<lparr>arg_port_range := show_nat (unat (30000 :: u16)) @ '':'' @ show_nat (unat (30004 :: u16))\<rparr>"

lemma demo_launched:
  "\<exists>config out sy. sc_certs config = [[7]] \<and>
     launch demo_crypto demo_api demo_launch_env demo_launch_args = Launched config 5 out sy"
proof -
  have v: "validate_new_args demo_api demo_launch_args = Inr ()"
    using split_on_append [of "CHR '':''" "show_nat 30000" "show_nat 30004"]
    by (simp add: validate_new_args_def demo_launch_args_def demo_args_def demo_api_def split_on_free)
  have b: "bind_endpoint demo_api [3] (arg_port_range demo_launch_args) = Inr (5, 3, 30002)"
  proof -
    have r: "arg_port_range demo_launch_args = show_nat (unat (30000 :: u16)) @ '':'' @ show_nat (unat (30004 :: u16))"
      by (simp add: demo_launch_args_def)
    have p: "port_list 30000 30004 = [30000, 30001, 30002, 30003, 30004]"
      by (simp add: port_list_def upt_rec)
    have "\<not> ((30000 :: u16) = 0 \<or> (30004 :: u16) < 30000)" by simp
    then show ?thesis unfolding r bind_endpoint_def parse_port_range_show if_not_P
      by (simp only: sum.case prod.case p if_False) (simp add: demo_api_def)
  qed
  have t: "build_server_tls demo_crypto demo_api demo_launch_args =
      Some (Inr (\<lparr>sc_certs = [[7]], sc_key = [8], sc_alpn = ''neosh/1'', sc_idle_timeout = 60,
        sc_max_bidi_streams = 1, sc_max_uni_streams = 8\<rparr>, sha256_fingerprint demo_crypto [7]))"
    by (simp add: build_server_tls_def demo_launch_args_def demo_args_def demo_api_def)
  have r: "resolve_bind_addrs demo_api demo_launch_args = Inr [3]"
    by (simp add: resolve_bind_addrs_def demo_launch_args_def demo_args_def demo_api_def)
  have "\<exists>out sy. sys_start demo_crypto 1 demo_launch_args 1000 a f 0 \<lparr>env_rnd = [65], env_jti = 3, env_now = 0\<rparr> =
      Some (out, sy)" for a f
    by (simp add: sys_start_def srv_bootstrap_output_def srv_issue_auth_token_def issue_auth_token_def
        issue_token_def system_time_add_def server_state_new_def demo_launch_args_def demo_args_def
        duration_from_secs_def nanos_per_sec_def Let_def)
  then obtain out sy where "sys_start demo_crypto 1 demo_launch_args 1000
      (ap_show_ip demo_api 3 @ '':'' @ show_nat (unat (30002 :: u16))) (sha256_fingerprint demo_crypto [7]) 0
      \<lparr>env_rnd = [65], env_jti = 3, env_now = 0\<rparr> = Some (out, sy)" by blast
  then have "\<exists>config. sc_certs config = [[7]] \<and>
      launch demo_crypto demo_api demo_launch_env demo_launch_args = Launched config 5 out sy"
    by (simp add: launch_def v b t r demo_launch_env_def Let_def)
  then show ?thesis by blast
qed

theorem launch_advertises_what_it_serves_witness:
  "\<exists>config out sy. launch demo_crypto demo_api demo_launch_env demo_launch_args = Launched config 5 out sy \<and>
     bo_cert_fingerprint out = sha256_fingerprint demo_crypto [7] \<and>
     (\<exists>s e ip port. parse_port_range (arg_port_range demo_launch_args) = Inr (s, e) \<and> s \<le> port \<and>
        port \<le> e \<and> ap_bind demo_api ip port = Some 5)"
proof -
  obtain config out sy where c: "sc_certs config = [[7]]"
    and l: "launch demo_crypto demo_api demo_launch_env demo_launch_args = Launched config 5 out sy"
    using demo_launched by blast
  from launch_advertises_what_it_serves [OF l] c l show ?thesis by (metis list.inject)
qed

end
