(* ===== verification/Client_Cache.thy ===== *)
theory Client_Cache
  imports Rust_Text
begin

text \<open>
  The client's cache of sessions (\<open>src/src/client/cache.rs\<close>): one JSON file for each session. The
  file system is a map from paths to contents with the results of the calls that may fail;
  \<open>serde_json\<close> and the text of a \<open>Uuid\<close> are parameters.
\<close>

section \<open>Entries, files and operations\<close>

record cache_entry =
  ce_session_id :: uuid
  ce_ssh_target :: string
  ce_resume_token :: string
  ce_resume_token_expires_at :: u64
  ce_quic_addr :: string
  ce_cert_fingerprint :: string
  ce_updated_at :: u64

datatype cache_error = CacheIo string | CacheJson string

fun cache_error_text :: "cache_error \<Rightarrow> string" where
  "cache_error_text (CacheIo e) = ''io error: '' @ e"
| "cache_error_text (CacheJson e) = ''json error: '' @ e"

type_synonym files = "string \<rightharpoonup> bytes"

text \<open>
  A failed write carries what it left in the file; a read fails on a missing file (with the text
  \<open>no_file\<close>) or for a reason of its own.
\<close>

record cache_io =
  ci_show_uuid :: "uuid \<Rightarrow> string"
  ci_to_json :: "cache_entry \<Rightarrow> string + bytes"
  ci_from_json :: "bytes \<Rightarrow> string + cache_entry"
  ci_create_dir :: "string \<Rightarrow> string + unit"
  ci_write :: "string \<Rightarrow> bytes \<Rightarrow> (string \<times> bytes option) + unit"
  ci_read :: "string \<Rightarrow> string + unit"
  ci_remove :: "string \<Rightarrow> string + unit"
  no_file :: string

definition cache_path :: "cache_io \<Rightarrow> string \<Rightarrow> uuid \<Rightarrow> string" where
  "cache_path io root sid = path_join root (ci_show_uuid io sid @ ''.json'')"

text \<open>\<open>xdg\<close> and \<open>home\<close> are the environment variables \<open>XDG_CACHE_HOME\<close> and \<open>HOME\<close>.\<close>

definition default_root :: "string option \<Rightarrow> string option \<Rightarrow> string" where
  "default_root xdg home =
     (let base = (case xdg of
          Some d \<Rightarrow> d
        | None \<Rightarrow> path_join (case home of Some h \<Rightarrow> h | None \<Rightarrow> ''.'') ''.cache'')
      in path_join (path_join base ''neosh'') ''sessions'')"

definition cache_put :: "cache_io \<Rightarrow> string \<Rightarrow> cache_entry \<Rightarrow> files \<Rightarrow> (cache_error + unit) \<times> files" where
  "cache_put io root entry fs =
     (case ci_create_dir io root of
        Inl e \<Rightarrow> (Inl (CacheIo e), fs)
      | Inr _ \<Rightarrow>
          let path = cache_path io root (ce_session_id entry)
          in case ci_to_json io entry of
               Inl e \<Rightarrow> (Inl (CacheJson e), fs)
             | Inr content \<Rightarrow>
                 (case ci_write io path content of
                    Inl (e, left) \<Rightarrow> (Inl (CacheIo e), fs(path := left))
                  | Inr _ \<Rightarrow> (Inr (), fs(path \<mapsto> content))))"

definition cache_get :: "cache_io \<Rightarrow> string \<Rightarrow> uuid \<Rightarrow> files \<Rightarrow> cache_error + cache_entry" where
  "cache_get io root sid fs =
     (let path = cache_path io root sid
      in case ci_read io path of
           Inl e \<Rightarrow> Inl (CacheIo e)
         | Inr _ \<Rightarrow>
             (case fs path of
                None \<Rightarrow> Inl (CacheIo (no_file io))
              | Some data \<Rightarrow>
                  (case ci_from_json io data of
                     Inl e \<Rightarrow> Inl (CacheJson e)
                   | Inr entry \<Rightarrow> Inr entry)))"

definition cache_delete :: "cache_io \<Rightarrow> string \<Rightarrow> uuid \<Rightarrow> files \<Rightarrow> (cache_error + unit) \<times> files" where
  "cache_delete io root sid fs =
     (let path = cache_path io root sid
      in if fs path \<noteq> None
         then (case ci_remove io path of
                 Inl e \<Rightarrow> (Inl (CacheIo e), fs)
               | Inr _ \<Rightarrow> (Inr (), fs(path := None)))
         else (Inr (), fs))"

text \<open>\<open>SystemTime::now\<close> in whole seconds since the epoch, zero before it.\<close>

definition now_epoch_seconds :: "system_time \<Rightarrow> u64" where
  "now_epoch_seconds now =
     duration_as_secs (case duration_since now 0 of Some d \<Rightarrow> d | None \<Rightarrow> duration_from_secs 0)"

section \<open>What the libraries promise\<close>

text \<open>
  A \<open>Uuid\<close> is printed as hyphenated hexadecimal: different ones differ, and none starts with a
  separator. \<open>serde_json\<close> reads back what it has written.
\<close>

definition uuid_text :: "(uuid \<Rightarrow> string) \<Rightarrow> bool" where
  "uuid_text show_uuid \<longleftrightarrow>
     inj show_uuid \<and> (\<forall>u. show_uuid u \<noteq> [] \<and> CHR ''/'' \<notin> set (show_uuid u))"

definition entry_json :: "cache_io \<Rightarrow> bool" where
  "entry_json io \<longleftrightarrow> (\<forall>e content. ci_to_json io e = Inr content \<longrightarrow> ci_from_json io content = Inr e)"

lemma cache_path_eq:
  "uuid_text (ci_show_uuid io) \<Longrightarrow> cache_path io root a = cache_path io root b \<longleftrightarrow> a = b"
proof -
  assume u: "uuid_text (ci_show_uuid io)"
  have n: "\<not> (ci_show_uuid io x @ ''.json'' \<noteq> [] \<and> hd (ci_show_uuid io x @ ''.json'') = CHR ''/'')" for x
  proof -
    from u have "ci_show_uuid io x \<noteq> []" and "CHR ''/'' \<notin> set (ci_show_uuid io x)"
      by (simp_all add: uuid_text_def)
    then show ?thesis by (cases "ci_show_uuid io x") auto
  qed
  from u have "inj (ci_show_uuid io)" by (simp add: uuid_text_def)
  then show ?thesis
    unfolding cache_path_def path_join_inj [OF n n] by (simp add: inj_eq)
qed

lemma put_other_path:
  "cache_put io root e fs = (r, fs') \<Longrightarrow> p \<noteq> cache_path io root (ce_session_id e) \<Longrightarrow> fs' p = fs p"
  by (auto simp: cache_put_def Let_def split: sum.splits prod.splits)

lemma delete_other_path:
  "cache_delete io root s fs = (r, fs') \<Longrightarrow> p \<noteq> cache_path io root s \<Longrightarrow> fs' p = fs p"
  by (auto simp: cache_delete_def Let_def split: sum.splits if_splits)

lemma get_cong: "fs (cache_path io root s) = fs' (cache_path io root s) \<Longrightarrow>
   cache_get io root s fs = cache_get io root s fs'"
  by (simp only: cache_get_def Let_def)

lemma get_put_other:
  "uuid_text (ci_show_uuid io) \<Longrightarrow> cache_put io root e fs = (r, fs') \<Longrightarrow> s \<noteq> ce_session_id e \<Longrightarrow>
   cache_get io root s fs' = cache_get io root s fs"
  by (intro get_cong put_other_path) (auto simp: cache_path_eq)

lemma get_delete_other:
  "uuid_text (ci_show_uuid io) \<Longrightarrow> cache_delete io root t fs = (r, fs') \<Longrightarrow> s \<noteq> t \<Longrightarrow>
   cache_get io root s fs' = cache_get io root s fs"
  by (intro get_cong delete_other_path) (auto simp: cache_path_eq)

lemma put_okD:
  "cache_put io root e fs = (Inr (), fs') \<Longrightarrow>
   \<exists>content. ci_to_json io e = Inr content \<and> fs' = fs(cache_path io root (ce_session_id e) \<mapsto> content)"
  by (auto simp: cache_put_def Let_def split: sum.splits prod.splits)

lemma get_put_same:
  assumes "entry_json io" and "cache_put io root e fs = (Inr (), fs')"
    and "ci_read io (cache_path io root (ce_session_id e)) = Inr ()"
  shows "cache_get io root (ce_session_id e) fs' = Inr e"
  using assms by (auto dest!: put_okD simp: cache_get_def entry_json_def Let_def)

lemma delete_okD: "cache_delete io root s fs = (Inr (), fs') \<Longrightarrow> fs' = fs(cache_path io root s := None)"
  by (auto simp: cache_delete_def Let_def split: sum.splits if_splits)

section \<open>The cache as a keyed store\<close>

text \<open>
  An entry that was stored is read back unchanged, and stays so through any later successful
  store or deletion of other sessions; after its deletion reading it fails.
\<close>

theorem cache_round_trip:
  assumes "uuid_text (ci_show_uuid io)" and "entry_json io"
    and "cache_put io root e fs = (Inr (), fs1)"
    and "ci_read io (cache_path io root (ce_session_id e)) = Inr ()"
    and "ce_session_id e2 \<noteq> ce_session_id e" and "s3 \<noteq> ce_session_id e"
    and "cache_put io root e2 fs1 = (r2, fs2)" and "cache_delete io root s3 fs2 = (r3, fs3)"
    and "cache_delete io root (ce_session_id e) fs3 = (Inr (), fs4)"
  shows "cache_get io root (ce_session_id e) fs3 = Inr e \<and>
    cache_get io root (ce_session_id e) fs4 = Inl (CacheIo (no_file io))"
proof
  have "cache_get io root (ce_session_id e) fs3 = cache_get io root (ce_session_id e) fs2"
    using get_delete_other [OF assms(1) assms(8)] assms(6) by simp
  also have "\<dots> = cache_get io root (ce_session_id e) fs1"
    using get_put_other [OF assms(1) assms(7)] assms(5) by simp
  also have "\<dots> = Inr e" by (rule get_put_same [OF assms(2,3,4)])
  finally show "cache_get io root (ce_session_id e) fs3 = Inr e" .
  show "cache_get io root (ce_session_id e) fs4 = Inl (CacheIo (no_file io))"
    using assms(4) delete_okD [OF assms(9)] by (simp add: cache_get_def Let_def)
qed

text \<open>A file system that never fails, and a reader of what \<open>store\<close> holds as JSON.\<close>

definition demo_uuid :: "uuid \<Rightarrow> string" where
  "demo_uuid u = show_nat (unat u)"

lemma demo_uuid_text: "uuid_text demo_uuid"
proof -
  have "CHR ''/'' \<notin> set (show_nat n)" for n
  proof
    assume "CHR ''/'' \<in> set (show_nat n)"
    then have "digit_value (CHR ''/'') \<noteq> None" by (rule set_show_nat)
    then show False by (simp add: digit_value_def)
  qed
  moreover have "inj demo_uuid" by (rule injI) (simp only: demo_uuid_def show_nat_inj word_unat_eq_iff)
  ultimately show ?thesis by (simp add: uuid_text_def demo_uuid_def)
qed

definition demo_entry :: "uuid \<Rightarrow> cache_entry" where
  "demo_entry u =
     \<lparr>ce_session_id = u, ce_ssh_target = ''host'', ce_resume_token = ''r'',
      ce_resume_token_expires_at = 3600, ce_quic_addr = ''127.0.0.1:30001'',
      ce_cert_fingerprint = ''sha256:'' @ concat (replicate 32 ''ab''), ce_updated_at = 0\<rparr>"

lemma demo_entry_id: "ce_session_id (demo_entry u) = u"
  by (simp add: demo_entry_def)

definition demo_io :: cache_io where
  "demo_io =
     \<lparr>ci_show_uuid = demo_uuid,
      ci_to_json = (\<lambda>e. if e = demo_entry (ce_session_id e) \<and> unat (ce_session_id e) < 256
         then Inr [of_nat (unat (ce_session_id e))] else Inl ''unsupported''),
      ci_from_json = (\<lambda>b. case b of [x] \<Rightarrow> Inr (demo_entry (of_nat (unat x))) | _ \<Rightarrow> Inl ''invalid''),
      ci_create_dir = (\<lambda>_. Inr ()), ci_write = (\<lambda>_ _. Inr ()), ci_read = (\<lambda>_. Inr ()),
      ci_remove = (\<lambda>_. Inr ()), no_file = ''not found''\<rparr>"

lemma demo_entry_json: "entry_json demo_io"
proof -
  have "of_nat (unat (of_nat (unat u) :: u8)) = u" if "unat u < 256" for u :: uuid
  proof -
    from that have "unat (of_nat (unat u) :: u8) = unat u" by (simp only: unat_of_nat) simp
    then show ?thesis by (simp add: word_unat_eq_iff)
  qed
  then show ?thesis by (auto simp: entry_json_def demo_io_def split: if_splits)
qed

theorem cache_round_trip_witness:
  "let fs1 = snd (cache_put demo_io ''/c'' (demo_entry 7) Map.empty);
       fs2 = snd (cache_put demo_io ''/c'' (demo_entry 9) fs1);
       fs3 = snd (cache_delete demo_io ''/c'' 9 fs2)
   in cache_get demo_io ''/c'' 7 fs3 = Inr (demo_entry 7)"
proof -
  define fs1 fs2 fs3 fs4 where "fs1 = snd (cache_put demo_io ''/c'' (demo_entry 7) Map.empty)"
    and "fs2 = snd (cache_put demo_io ''/c'' (demo_entry 9) fs1)"
    and "fs3 = snd (cache_delete demo_io ''/c'' 9 fs2)"
    and "fs4 = snd (cache_delete demo_io ''/c'' 7 fs3)"
  note id = demo_entry_id
  have put: "cache_put demo_io r (demo_entry u) fs = (Inr (), snd (cache_put demo_io r (demo_entry u) fs))"
    if "unat u < 256" for u r fs
    using that by (simp add: cache_put_def demo_io_def id Let_def)
  have del: "cache_delete demo_io r u fs = (Inr (), snd (cache_delete demo_io r u fs))" for u r fs
    by (simp add: cache_delete_def demo_io_def Let_def)
  have "uuid_text (ci_show_uuid demo_io)" by (simp add: demo_io_def demo_uuid_text)
  moreover have "cache_put demo_io ''/c'' (demo_entry 7) Map.empty = (Inr (), fs1)"
    and "cache_put demo_io ''/c'' (demo_entry 9) fs1 = (Inr (), fs2)"
    unfolding fs1_def fs2_def by (rule put; simp)+
  moreover have "cache_delete demo_io ''/c'' 9 fs2 = (Inr (), fs3)"
    and "cache_delete demo_io ''/c'' (ce_session_id (demo_entry 7)) fs3 = (Inr (), fs4)"
    unfolding fs3_def fs4_def id by (rule del)+
  moreover have "ci_read demo_io p = Inr ()" for p by (simp add: demo_io_def)
  moreover have "ce_session_id (demo_entry 9) \<noteq> ce_session_id (demo_entry 7)"
    "(9 :: uuid) \<noteq> ce_session_id (demo_entry 7)" by (simp_all only: id) simp_all
  ultimately have "cache_get demo_io ''/c'' (ce_session_id (demo_entry 7)) fs3 = Inr (demo_entry 7)"
    using cache_round_trip [OF _ demo_entry_json] by blast
  then show ?thesis by (simp only: id Let_def fs1_def fs2_def fs3_def)
qed

end
