(* ===== verification/Client_Control.thy ===== *)
theory Client_Control
  imports Framing Client_Bootstrap Connection
begin

text \<open>
  The control messages of the client: \<open>src/src/client/control.rs\<close> and the reading and matching of
  replies in \<open>src/src/bin/neosh.rs\<close>. A \<open>serde_json::Value\<close> is a type of its own, seen through the
  record \<open>json_api\<close>.
\<close>

section \<open>Values\<close>

text \<open>The objects the client builds with \<open>json!\<close>, by their fields other than the type.\<close>

datatype client_msg =
    CHello string string "string list"
  | CAuth string string
  | CAttach uuid string
  | CResume uuid string
  | CResize u16 u16
  | CDetach
  | CClose uuid
  | CPing string

text \<open>\<open>AuthOk\<close> and \<open>ResumeOk\<close>, the replies the client deserializes.\<close>

record auth_ok =
  ak_session_id :: uuid
  ak_resume_token :: string
  ak_resume_token_expires_in_seconds :: u64

record resume_ok =
  rk_session_id :: uuid
  rk_replay_bytes :: nat

record 'v json_api =
  js_get :: "'v \<Rightarrow> string \<Rightarrow> 'v option"
  js_as_str :: "'v \<Rightarrow> string option"
  js_as_bool :: "'v \<Rightarrow> bool option"
  js_from_slice :: "bytes \<Rightarrow> string + 'v"
  js_to_vec :: "'v \<Rightarrow> string + bytes"
  js_display :: "'v \<Rightarrow> string"
  js_object :: "client_msg \<Rightarrow> 'v"
  js_auth_ok :: "'v \<Rightarrow> string + auth_ok"
  js_resume_ok :: "'v \<Rightarrow> string + resume_ok"
  js_unknown :: "'v \<Rightarrow> 'v"

definition js_str :: "'v json_api \<Rightarrow> 'v \<Rightarrow> string \<Rightarrow> string option" where
  "js_str J v k = Option.bind (js_get J v k) (js_as_str J)"

section \<open>\<open>control.rs\<close>\<close>

datatype control_error = CtlProtocol string | CtlIo string | CtlJson string

fun control_error_text :: "control_error \<Rightarrow> string" where
  "control_error_text (CtlProtocol e) = ''protocol error: '' @ e"
| "control_error_text (CtlIo e) = ''io error: '' @ e"
| "control_error_text (CtlJson e) = ''json error: '' @ e"

definition encode_control_json :: "'v json_api \<Rightarrow> 'v \<Rightarrow> control_error + bytes" where
  "encode_control_json J v =
     (case js_to_vec J v of
        Inl e \<Rightarrow> Inl (CtlJson e)
      | Inr payload \<Rightarrow> Inr (encode_frame payload))"

definition decode_control_json :: "'v json_api \<Rightarrow> bytes \<Rightarrow> nat \<Rightarrow> control_error + 'v" where
  "decode_control_json J frame max_size =
     (case decode_frame frame max_size of
        Inl e \<Rightarrow> Inl (CtlProtocol (framing_error_text e))
      | Inr payload \<Rightarrow>
          (case js_from_slice J payload of
             Inl e \<Rightarrow> Inl (CtlJson e)
           | Inr v \<Rightarrow> Inr v))"

definition message_type :: "'v json_api \<Rightarrow> 'v \<Rightarrow> string option" where
  "message_type J v = js_str J v ''type''"

definition is_error_code :: "'v json_api \<Rightarrow> 'v \<Rightarrow> string \<Rightarrow> bool" where
  "is_error_code J v code \<longleftrightarrow> js_str J v ''code'' = Some code"

section \<open>Reading replies\<close>

definition client_max_control_frame :: nat where "client_max_control_frame = 64 * 1024"

text \<open>The frame part of \<open>read_json\<close>; \<open>e\<close> is the text of the stream's error.\<close>

definition read_json_frame :: "string \<Rightarrow> bytes \<Rightarrow> cli_error + (bytes \<times> bytes)" where
  "read_json_frame e s =
     (case read_exact 4 s of
        None \<Rightarrow> Inl (CliProtocol (''read control len failed: '' @ e))
      | Some (len_buf, s1) \<Rightarrow>
          let payload_len =
            unat (from_be_bytes (len_buf ! 0) (len_buf ! 1) (len_buf ! 2) (len_buf ! 3))
          in if payload_len > client_max_control_frame
             then Inl (CliProtocol ''control frame too large'')
             else
               (case read_exact payload_len s1 of
                  None \<Rightarrow> Inl (CliProtocol (''read control payload failed: '' @ e))
                | Some (payload, s2) \<Rightarrow> Inr (payload, s2)))"

definition read_json :: "'v json_api \<Rightarrow> string \<Rightarrow> bytes \<Rightarrow> cli_error + ('v \<times> bytes)" where
  "read_json J e s =
     (case read_json_frame e s of
        Inl x \<Rightarrow> Inl x
      | Inr (payload, rest) \<Rightarrow>
          (case js_from_slice J payload of
             Inl je \<Rightarrow> Inl (CliProtocol (''invalid json: '' @ je))
           | Inr v \<Rightarrow> Inr (v, rest)))"

lemma read_exact_header:
  assumes "4 \<le> length s"
  shows "read_exact 4 s = Some (take 4 s, drop 4 s) \<and>
    unat (from_be_bytes (take 4 s ! 0) (take 4 s ! 1) (take 4 s ! 2) (take 4 s ! 3)) = header_len s"
  using assms by (simp add: read_exact_def header_len_def)

lemma read_json_frame_alt:
  "read_json_frame e s =
     (if length s < 4 then Inl (CliProtocol (''read control len failed: '' @ e))
      else if header_len s > client_max_control_frame then Inl (CliProtocol ''control frame too large'')
      else if length s < 4 + header_len s
        then Inl (CliProtocol (''read control payload failed: '' @ e))
      else Inr (take (header_len s) (drop 4 s), drop (4 + header_len s) s))"
proof (cases "length s < 4")
  case True
  then show ?thesis by (simp add: read_json_frame_def read_exact_def)
next
  case False
  then have "4 \<le> length s" by simp
  note h = read_exact_header [OF this]
  have r: "read_exact (header_len s) (drop 4 s) = (if length s < 4 + header_len s then None
      else Some (take (header_len s) (drop 4 s), drop (4 + header_len s) s))"
    using False by (auto simp: read_exact_def add.commute)
  show ?thesis
    using False by (simp only: read_json_frame_def conjunct1 [OF h] conjunct2 [OF h] option.case prod.case Let_def r
        if_False) (simp split: option.split)
qed

interpretation client_frames: frame_reader "read_json_frame e" client_max_control_frame for e
  by (rule frame_readerI [OF read_json_frame_alt]) (simp add: client_max_control_frame_def)

lemma read_json_shorter: "read_json J e s = Inr (v, rest) \<Longrightarrow> length rest < length s"
  by (auto simp: read_json_def split: sum.splits dest: client_frames.reader_shorter)

lemma read_json_encode:
  "length p \<le> client_max_control_frame \<Longrightarrow> js_from_slice J p = Inr v \<Longrightarrow>
   read_json J e (encode_frame p @ rest) = Inr (v, rest)"
  by (simp add: read_json_def client_frames.reader_encode)

section \<open>Watching the control stream\<close>

datatype 'v control_signal =
    SigClose
  | SigError 'v
  | SigDisconnected
  | SigStreamClosed

text \<open>
  The loop over replies while the session is attached: the signal it ends with, none when the
  stream ends or fails. An unknown message is wrapped in an error object of the client's own
  (\<open>js_unknown\<close>).
\<close>

function control_watch_loop :: "'v json_api \<Rightarrow> string \<Rightarrow> bytes \<Rightarrow> 'v control_signal option" where
  "control_watch_loop J e s =
     (case read_json J e s of
        Inl _ \<Rightarrow> None
      | Inr (frame, rest) \<Rightarrow>
          if message_type J frame = Some ''CLOSE'' then Some SigClose
          else if message_type J frame = Some ''ERROR'' then Some (SigError frame)
          else if message_type J frame = Some ''PONG'' then control_watch_loop J e rest
          else Some (SigError (js_unknown J frame)))"
  by pat_completeness auto
termination
  by (relation "measure (\<lambda>(J, e, s). length s)") (auto dest: read_json_shorter)

declare control_watch_loop.simps [simp del]

end
