(* ===== verification/Client_Session.thy ===== *)
theory Client_Session
  imports Client_Control Client_Cache Client_State
begin

text \<open>
  One session of the client (\<open>run_session\<close> in \<open>src/src/bin/neosh.rs\<close> with its helpers): the
  verified connection, the handshake, the cache entry, attaching or resuming, the control socket,
  and the end of the session by the first event. A step returns its result or error and the new
  state; what its calls into the outside return is the record \<open>sess_env\<close>.
\<close>

section \<open>State and environment\<close>

text \<open>
  What a session leaves behind: the rest of the control stream, the messages sent on it, the files
  of the cache, the control socket, whether the endpoint was closed, and the names of the logged
  events.
\<close>

record client_sess =
  cs_recv :: bytes
  cs_sent :: "client_msg list"
  cs_files :: files
  cs_socket :: bool
  cs_closed :: bool
  cs_log :: "string list"

datatype session_mode = SmAttach | SmResume uuid string

datatype 'v session_event =
    SeDetach bool
  | SeSignal "'v control_signal" "bool \<times> bool"

text \<open>
  \<open>ev_write m\<close> is the result of writing the frame of \<open>m\<close>. \<open>ev_event\<close> is what the session waits
  for: the detachment was requested, with the flag \<open>detach_requested_from_ipc\<close> as it is read
  then, or a signal, with the flag as it is read on a disconnection before and after the wait.
\<close>

record 'v sess_env =
  ev_json :: "'v json_api"
  ev_io :: cache_io
  ev_root :: string
  ev_open_bi :: "string + unit"
  ev_read_err :: string
  ev_write :: "client_msg \<Rightarrow> string + unit"
  ev_now1 :: system_time
  ev_now2 :: system_time
  ev_tty_size :: "(u16 \<times> u16) option"
  ev_ipc_dir :: "string + unit"
  ev_ipc_bind :: "string + unit"
  ev_ipc_chmod :: "string + unit"
  ev_accept_uni :: "string + unit"
  ev_open_uni :: "string + unit"
  ev_event :: "'v session_event"

type_synonym 'a sess_act = "client_sess \<Rightarrow> (cli_error + 'a) \<times> client_sess"

definition act_return :: "'a \<Rightarrow> 'a sess_act" where
  "act_return x s = (Inr x, s)"

definition act_fail :: "cli_error \<Rightarrow> 'a sess_act" where
  "act_fail e s = (Inl e, s)"

definition act_then :: "'a sess_act \<Rightarrow> ('a \<Rightarrow> 'b sess_act) \<Rightarrow> 'b sess_act" where
  "act_then m f s = (case m s of (Inl e, s') \<Rightarrow> (Inl e, s') | (Inr x, s') \<Rightarrow> f x s')"

text \<open>A result of the outside, with its error turned into one of the client's.\<close>

definition act_lift :: "(string \<Rightarrow> cli_error) \<Rightarrow> string + 'a \<Rightarrow> 'a sess_act" where
  "act_lift err r s = (case r of Inl e \<Rightarrow> (Inl (err e), s) | Inr x \<Rightarrow> (Inr x, s))"

definition log_event :: "string \<Rightarrow> unit sess_act" where
  "log_event ev s = (Inr (), s\<lparr>cs_log := cs_log s @ [ev]\<rparr>)"

section \<open>Messages\<close>

definition send_json :: "'v sess_env \<Rightarrow> client_msg \<Rightarrow> unit sess_act" where
  "send_json env m s =
     (case encode_control_json (ev_json env) (js_object (ev_json env) m) of
        Inl e \<Rightarrow> (Inl (CliProtocol (control_error_text e)), s)
      | Inr frame \<Rightarrow>
          (case ev_write env m of
             Inl e \<Rightarrow> (Inl (CliProtocol (''write control failed: '' @ e)), s)
           | Inr _ \<Rightarrow> (Inr (), s\<lparr>cs_sent := cs_sent s @ [m]\<rparr>)))"

definition recv_json :: "'v sess_env \<Rightarrow> 'v sess_act" where
  "recv_json env s =
     (case read_json (ev_json env) (ev_read_err env) (cs_recv s) of
        Inl e \<Rightarrow> (Inl e, s)
      | Inr (v, rest) \<Rightarrow> (Inr v, s\<lparr>cs_recv := rest\<rparr>))"

definition expect_type :: "'v sess_env \<Rightarrow> string \<Rightarrow> 'v sess_act" where
  "expect_type env expected =
     act_then (recv_json env) (\<lambda>v.
       if message_type (ev_json env) v \<noteq> Some expected
       then act_fail (CliProtocol (''expected '' @ expected @ '', got '' @ js_display (ev_json env) v))
       else act_return v)"

section \<open>The handshake\<close>

definition client_version :: string where "client_version = ''neosh/0.1.0''"

definition hello_phase :: "'v sess_env \<Rightarrow> unit sess_act" where
  "hello_phase env =
     act_then (send_json env (CHello ''0.1.0'' client_version [''stdin-bytes'', ''resume-v1''])) (\<lambda>_.
     act_then (expect_type env ''HELLO_ACK'') (\<lambda>_. act_return ()))"

definition auth_phase :: "'v sess_env \<Rightarrow> string \<Rightarrow> auth_ok sess_act" where
  "auth_phase env token =
     act_then (send_json env (CAuth ''ssh-token'' token)) (\<lambda>_.
     act_then (recv_json env) (\<lambda>v.
       if message_type (ev_json env) v = Some ''ERROR'' then
         act_then (log_event ''auth_fail'') (\<lambda>_.
           if is_error_code (ev_json env) v ''AUTH_FAILED'' then act_fail CliAuthFailed
           else act_fail (CliProtocol (''AUTH failed: '' @ js_display (ev_json env) v)))
       else if message_type (ev_json env) v \<noteq> Some ''AUTH_OK'' then
         act_then (log_event ''auth_fail'') (\<lambda>_.
           act_fail (CliProtocol (''expected AUTH_OK, got '' @ js_display (ev_json env) v)))
       else
         act_then (log_event ''auth_ok'') (\<lambda>_.
           act_lift (\<lambda>e. CliProtocol (''bad AUTH_OK: '' @ e)) (js_auth_ok (ev_json env) v))))"

text \<open>
  The entry of the cache; the addition of the seconds wraps around, as in a build without overflow
  checks.
\<close>

definition session_entry ::
  "'v sess_env \<Rightarrow> string \<Rightarrow> bootstrap_payload \<Rightarrow> auth_ok \<Rightarrow> cache_entry" where
  "session_entry env target payload ok =
     \<lparr>ce_session_id = ak_session_id ok, ce_ssh_target = target, ce_resume_token = ak_resume_token ok,
      ce_resume_token_expires_at =
        now_epoch_seconds (ev_now1 env) + ak_resume_token_expires_in_seconds ok,
      ce_quic_addr = bp_quic_addr payload, ce_cert_fingerprint = bp_cert_fingerprint payload,
      ce_updated_at = now_epoch_seconds (ev_now2 env)\<rparr>"

definition store_entry :: "'v sess_env \<Rightarrow> cache_entry \<Rightarrow> unit sess_act" where
  "store_entry env entry s =
     (case cache_put (ev_io env) (ev_root env) entry (cs_files s) of
        (Inl e, fs) \<Rightarrow> (Inl (CliCache (cache_error_text e)), s\<lparr>cs_files := fs\<rparr>)
      | (Inr _, fs) \<Rightarrow> (Inr (), s\<lparr>cs_files := fs\<rparr>))"

text \<open>\<open>let _ = cache.delete(..)\<close>: a failure is ignored.\<close>

definition drop_entry :: "'v sess_env \<Rightarrow> uuid \<Rightarrow> unit sess_act" where
  "drop_entry env sid s =
     (Inr (), s\<lparr>cs_files := snd (cache_delete (ev_io env) (ev_root env) sid (cs_files s))\<rparr>)"

definition join_phase :: "'v sess_env \<Rightarrow> session_mode \<Rightarrow> auth_ok \<Rightarrow> unit sess_act" where
  "join_phase env mode ok =
     (case mode of
        SmAttach \<Rightarrow>
          act_then (send_json env (CAttach (ak_session_id ok) ''exclusive'')) (\<lambda>_.
          act_then (expect_type env ''ATTACH_OK'') (\<lambda>_. log_event ''attach_ok''))
      | SmResume sid token \<Rightarrow>
          act_then (send_json env (CResume (ak_session_id ok) token)) (\<lambda>_.
          act_then (recv_json env) (\<lambda>v.
            if message_type (ev_json env) v = Some ''ERROR'' then
              act_then (if is_error_code (ev_json env) v ''SESSION_EXPIRED'' then drop_entry env sid
                        else act_return ()) (\<lambda>_.
              act_then (log_event ''resume_fail'') (\<lambda>_.
                act_fail (CliProtocol (''RESUME failed: '' @ js_display (ev_json env) v))))
            else
              act_then (act_lift (\<lambda>e. CliProtocol (''bad RESUME_OK: '' @ e)) (js_resume_ok (ev_json env) v))
                (\<lambda>_. log_event ''resume_ok''))))"

section \<open>The attached session\<close>

text \<open>\<open>let _ = send_json(..)\<close>.\<close>

definition try_send :: "'v sess_env \<Rightarrow> client_msg \<Rightarrow> unit sess_act" where
  "try_send env m s = (Inr (), snd (send_json env m s))"

definition send_size :: "'v sess_env \<Rightarrow> unit sess_act" where
  "send_size env =
     (case ev_tty_size env of
        Some (rows, cols) \<Rightarrow> try_send env (CResize rows cols)
      | None \<Rightarrow> act_return ())"

text \<open>The control socket: its directory, the removal of an old one, binding, and its mode.\<close>

definition set_socket :: "bool \<Rightarrow> unit sess_act" where
  "set_socket b s = (Inr (), s\<lparr>cs_socket := b\<rparr>)"

definition open_socket :: "'v sess_env \<Rightarrow> unit sess_act" where
  "open_socket env =
     act_then (act_lift CliIo (ev_ipc_dir env)) (\<lambda>_.
     act_then (set_socket False) (\<lambda>_.
     act_then (act_lift CliIo (ev_ipc_bind env)) (\<lambda>_.
     act_then (set_socket True) (\<lambda>_.
     act_lift CliIo (ev_ipc_chmod env)))))"

definition open_streams :: "'v sess_env \<Rightarrow> unit sess_act" where
  "open_streams env =
     act_then (act_lift (\<lambda>e. CliProtocol (''accept stdout stream failed: '' @ e)) (ev_accept_uni env)) (\<lambda>_.
     act_lift (\<lambda>e. CliProtocol (''open stdin stream failed: '' @ e)) (ev_open_uni env))"

definition close_endpoint :: "unit sess_act" where
  "close_endpoint s = (Inr (), s\<lparr>cs_socket := False, cs_closed := True\<rparr>)"

text \<open>The end without an error: the \<open>DETACH\<close> message when it is due, and the closing.\<close>

definition leave :: "'v sess_env \<Rightarrow> bool \<Rightarrow> unit sess_act" where
  "leave env should_send_detach =
     act_then (if should_send_detach
               then act_then (log_event ''detach_sent'') (\<lambda>_. send_json env CDetach)
               else act_return ()) (\<lambda>_.
     close_endpoint)"

definition end_session :: "'v sess_env \<Rightarrow> uuid \<Rightarrow> unit sess_act" where
  "end_session env sid =
     (case ev_event env of
        SeDetach from_ipc \<Rightarrow> leave env (\<not> from_ipc)
      | SeSignal sig (ipc_before, ipc_after) \<Rightarrow>
          (case sig of
             SigClose \<Rightarrow>
               act_then (log_event ''close_received'') (\<lambda>_.
               act_then (drop_entry env sid) (\<lambda>_. leave env False))
           | SigError v \<Rightarrow>
               act_then close_endpoint (\<lambda>_.
                 act_fail (CliProtocol (''control error: '' @ js_display (ev_json env) v)))
           | SigDisconnected \<Rightarrow>
               act_then (leave env False) (\<lambda>_.
                 if \<not> ipc_before \<and> \<not> ipc_after then act_fail (CliDisconnected sid) else act_return ())
           | SigStreamClosed \<Rightarrow>
               act_then (try_send env (CClose sid)) (\<lambda>_.
               act_then (log_event ''close_sent'') (\<lambda>_.
               act_then (log_event ''close_received'') (\<lambda>_.
               act_then (drop_entry env sid) (\<lambda>_.
               act_then close_endpoint (\<lambda>_. act_fail CliClosed)))))))"

definition attached_part :: "'v sess_env \<Rightarrow> uuid \<Rightarrow> unit sess_act" where
  "attached_part env sid =
     act_then (send_size env) (\<lambda>_.
     act_then (open_socket env) (\<lambda>_.
     act_then (open_streams env) (\<lambda>_. end_session env sid)))"

section \<open>The whole session\<close>

definition run_handshake ::
  "'v sess_env \<Rightarrow> string \<Rightarrow> bootstrap_payload \<Rightarrow> session_mode \<Rightarrow> auth_ok sess_act" where
  "run_handshake env target payload mode =
     act_then (hello_phase env) (\<lambda>_.
     act_then (auth_phase env (bp_auth_token payload)) (\<lambda>ok.
     act_then (store_entry env (session_entry env target payload ok)) (\<lambda>_.
     act_then (join_phase env mode ok) (\<lambda>_. act_return ok))))"

definition run_session ::
  "crypto \<Rightarrow> ('addr, 'con) quic_api \<Rightarrow> 'v sess_env \<Rightarrow> string \<Rightarrow> bootstrap_payload \<Rightarrow> session_mode
   \<Rightarrow> u64 \<Rightarrow> unit sess_act" where
  "run_session C q env target payload mode idle =
     act_then (log_event ''quic_connect_start'') (\<lambda>_.
       case connect_and_verify C q (bp_quic_addr payload) (bp_cert_fingerprint payload) idle of
         Inl e \<Rightarrow>
           act_then (if e = FingerprintMismatch then log_event ''fingerprint_verify_fail''
                     else act_return ()) (\<lambda>_.
           act_then (log_event ''quic_connect_fail'') (\<lambda>_.
             act_fail (CliQuic (quic_client_error_text e))))
       | Inr _ \<Rightarrow>
           act_then (log_event ''quic_connect_ok'') (\<lambda>_.
           act_then (log_event ''fingerprint_verify_ok'') (\<lambda>_.
           act_then (act_lift (\<lambda>e. CliProtocol (''open control stream failed: '' @ e)) (ev_open_bi env)) (\<lambda>_.
           act_then (run_handshake env target payload mode) (\<lambda>ok.
             attached_part env (ak_session_id ok))))))"

section \<open>What each step leaves\<close>

lemma act_simps [simp]:
  "act_return x s = (Inr x, s)"
  "act_fail e s = (Inl e, s)"
  "log_event ev s = (Inr (), s\<lparr>cs_log := cs_log s @ [ev]\<rparr>)"
  "act_lift err (Inl msg) s = (Inl (err msg), s)"
  "act_lift err (Inr y) s = (Inr y, s)"
  "drop_entry env sid s =
     (Inr (), s\<lparr>cs_files := snd (cache_delete (ev_io env) (ev_root env) sid (cs_files s))\<rparr>)"
  "try_send env m s = (Inr (), snd (send_json env m s))"
  "set_socket b s = (Inr (), s\<lparr>cs_socket := b\<rparr>)"
  "close_endpoint s = (Inr (), s\<lparr>cs_socket := False, cs_closed := True\<rparr>)"
  by (simp_all add: act_return_def act_fail_def log_event_def act_lift_def drop_entry_def
      try_send_def set_socket_def close_endpoint_def)

lemma act_then_Inr:
  "act_then m f s = (Inr y, s') \<longleftrightarrow> (\<exists>x t. m s = (Inr x, t) \<and> f x t = (Inr y, s'))"
  by (auto simp: act_then_def split: prod.splits sum.splits)

lemma act_then_Inl:
  "act_then m f s = (Inl e, s') \<longleftrightarrow>
     m s = (Inl e, s') \<or> (\<exists>x t. m s = (Inr x, t) \<and> f x t = (Inl e, s'))"
  by (auto simp: act_then_def split: prod.splits sum.splits)

lemma act_lift_Inr: "act_lift err r s = (Inr y, s') \<longleftrightarrow> r = Inr y \<and> s' = s"
  by (auto simp: act_lift_def split: sum.splits)

lemma act_lift_Inl: "act_lift err r s = (Inl e, s') \<longleftrightarrow> (\<exists>x. r = Inl x \<and> e = err x) \<and> s' = s"
  by (auto simp: act_lift_def split: sum.splits)

lemma send_json_Inr: "send_json env m s = (Inr u, s') \<Longrightarrow> s' = s\<lparr>cs_sent := cs_sent s @ [m]\<rparr>"
  by (auto simp: send_json_def split: sum.splits)

lemma send_json_Inl: "send_json env m s = (Inl e, s') \<Longrightarrow> s' = s \<and> (\<exists>t. e = CliProtocol t)"
  by (auto simp: send_json_def split: sum.splits)

lemma send_json_state:
  "snd (send_json env m s) = s \<or> snd (send_json env m s) = s\<lparr>cs_sent := cs_sent s @ [m]\<rparr>"
  by (auto simp: send_json_def split: sum.splits)

text \<open>A reply taken off the stream: its frame was at the front.\<close>

definition reply_frame :: "'v sess_env \<Rightarrow> bytes \<Rightarrow> 'v \<Rightarrow> bytes \<Rightarrow> bool" where
  "reply_frame env before v after \<longleftrightarrow>
     (\<exists>p. before = encode_frame p @ after \<and> length p \<le> client_max_control_frame \<and>
        js_from_slice (ev_json env) p = Inr v)"

lemma recv_json_Inr:
  assumes "recv_json env s = (Inr v, s')"
  shows "\<exists>rest. reply_frame env (cs_recv s) v rest \<and> s' = s\<lparr>cs_recv := rest\<rparr>"
proof -
  from assms obtain rest where r: "read_json (ev_json env) (ev_read_err env) (cs_recv s) = Inr (v, rest)"
    and s': "s' = s\<lparr>cs_recv := rest\<rparr>"
    by (auto simp: recv_json_def split: sum.splits)
  from r have "reply_frame env (cs_recv s) v rest"
    by (auto simp: read_json_def reply_frame_def split: sum.splits dest!: client_frames.reader_sound)
  with s' show ?thesis by blast
qed

lemma read_json_frame_error: "read_json_frame x t = Inl e \<Longrightarrow> \<exists>m. e = CliProtocol m"
  by (auto simp: read_json_frame_alt split: if_splits)

lemma recv_json_Inl: "recv_json env s = (Inl e, s') \<Longrightarrow> s' = s \<and> (\<exists>t. e = CliProtocol t)"
  by (auto simp: recv_json_def read_json_def split: sum.splits dest: read_json_frame_error)

lemma expect_type_Inr:
  "expect_type env ty s = (Inr v, s') \<Longrightarrow>
   \<exists>rest. reply_frame env (cs_recv s) v rest \<and> s' = s\<lparr>cs_recv := rest\<rparr> \<and>
     message_type (ev_json env) v = Some ty"
  by (auto simp: expect_type_def act_then_Inr split: if_splits dest!: recv_json_Inr)

lemma expect_type_Inl:
  assumes "expect_type env ty s = (Inl e, s')"
  shows "(\<exists>t. e = CliProtocol t) \<and> (\<exists>rest. s' = s\<lparr>cs_recv := rest\<rparr>)"
proof -
  from assms consider "recv_json env s = (Inl e, s')"
    | v t where "recv_json env s = (Inr v, t)" "s' = t" "\<exists>m. e = CliProtocol m"
    by (auto simp: expect_type_def act_then_Inl split: if_splits)
  then show ?thesis
  proof cases
    case 1
    then have "s' = s" "\<exists>t. e = CliProtocol t" by (auto dest: recv_json_Inl)
    then have "s' = s\<lparr>cs_recv := cs_recv s\<rparr>" by simp
    with \<open>\<exists>t. e = CliProtocol t\<close> show ?thesis by blast
  next
    case 2
    then show ?thesis by (auto dest: recv_json_Inr)
  qed
qed

section \<open>The phases\<close>

definition hello_msg :: client_msg where
  "hello_msg = CHello ''0.1.0'' client_version [''stdin-bytes'', ''resume-v1'']"

fun join_msg :: "session_mode \<Rightarrow> auth_ok \<Rightarrow> client_msg" where
  "join_msg SmAttach ok = CAttach (ak_session_id ok) ''exclusive''"
| "join_msg (SmResume sid token) ok = CResume (ak_session_id ok) token"

lemma hello_phase_Inr:
  "hello_phase env s = (Inr u, s') \<Longrightarrow>
   (\<exists>v. reply_frame env (cs_recv s) v (cs_recv s') \<and>
     message_type (ev_json env) v = Some ''HELLO_ACK'') \<and>
   cs_sent s' = cs_sent s @ [hello_msg] \<and> cs_files s' = cs_files s \<and>
   cs_socket s' = cs_socket s \<and> cs_closed s' = cs_closed s"
  by (auto simp: hello_phase_def act_then_Inr hello_msg_def dest!: expect_type_Inr send_json_Inr)

lemma hello_phase_Inl:
  "hello_phase env s = (Inl e, s') \<Longrightarrow>
   (\<exists>t. e = CliProtocol t) \<and> cs_sent s' \<in> {cs_sent s, cs_sent s @ [hello_msg]} \<and> cs_files s' = cs_files s"
  by (auto simp: hello_phase_def act_then_Inl hello_msg_def
      dest!: expect_type_Inl send_json_Inl send_json_Inr)

lemma auth_phase_Inr:
  "auth_phase env token s = (Inr ok, s') \<Longrightarrow>
   (\<exists>v. reply_frame env (cs_recv s) v (cs_recv s') \<and>
     message_type (ev_json env) v = Some ''AUTH_OK'' \<and> js_auth_ok (ev_json env) v = Inr ok) \<and>
   cs_sent s' = cs_sent s @ [CAuth ''ssh-token'' token] \<and> cs_files s' = cs_files s \<and>
   cs_socket s' = cs_socket s \<and> cs_closed s' = cs_closed s"
  by (auto simp: auth_phase_def act_then_Inr act_lift_Inr split: if_splits
      dest!: recv_json_Inr send_json_Inr)

lemma auth_phase_Inl:
  "auth_phase env token s = (Inl e, s') \<Longrightarrow>
   (e = CliAuthFailed \<or> (\<exists>t. e = CliProtocol t)) \<and>
   cs_sent s' \<in> {cs_sent s, cs_sent s @ [CAuth ''ssh-token'' token]} \<and> cs_files s' = cs_files s"
  by (auto simp: auth_phase_def act_then_Inl act_lift_Inl split: if_splits
      dest!: recv_json_Inr recv_json_Inl send_json_Inl send_json_Inr)

lemma store_entry_Inr:
  "store_entry env e s = (Inr u, s') \<Longrightarrow>
   \<exists>fs. cache_put (ev_io env) (ev_root env) e (cs_files s) = (Inr (), fs) \<and> s' = s\<lparr>cs_files := fs\<rparr>"
  by (auto simp: store_entry_def split: prod.splits sum.splits)

lemma store_entry_Inl:
  "store_entry env e s = (Inl x, s') \<Longrightarrow>
   (\<exists>t. x = CliCache t) \<and> cs_sent s' = cs_sent s \<and>
   (\<exists>r. cache_put (ev_io env) (ev_root env) e (cs_files s) = (r, cs_files s'))"
  by (auto simp: store_entry_def split: prod.splits sum.splits)

lemma join_phase_Inr:
  "join_phase env mode ok s = (Inr u, s') \<Longrightarrow>
   cs_sent s' = cs_sent s @ [join_msg mode ok] \<and> cs_files s' = cs_files s \<and>
   cs_socket s' = cs_socket s \<and> cs_closed s' = cs_closed s"
  by (auto simp: join_phase_def act_then_Inr act_lift_Inr split: if_splits session_mode.splits
      dest!: recv_json_Inr expect_type_Inr send_json_Inr)

lemma join_phase_Inl:
  "join_phase env mode ok s = (Inl e, s') \<Longrightarrow>
   (\<exists>t. e = CliProtocol t) \<and> cs_sent s' \<in> {cs_sent s, cs_sent s @ [join_msg mode ok]} \<and>
   (cs_files s' = cs_files s \<or>
    (\<exists>sid token r. mode = SmResume sid token \<and>
      cache_delete (ev_io env) (ev_root env) sid (cs_files s) = (r, cs_files s')))"
  by (auto simp: join_phase_def act_then_Inl act_then_Inr act_lift_Inl split: if_splits session_mode.splits
      dest!: recv_json_Inr recv_json_Inl expect_type_Inl send_json_Inl send_json_Inr)
    (metis prod.collapse)+

lemma run_handshake_Inr:
  assumes "run_handshake env target payload mode s = (Inr ok, s')"
  shows "\<exists>v1 r1 v2 r2. reply_frame env (cs_recv s) v1 r1 \<and>
    message_type (ev_json env) v1 = Some ''HELLO_ACK'' \<and> reply_frame env r1 v2 r2 \<and>
    message_type (ev_json env) v2 = Some ''AUTH_OK'' \<and> js_auth_ok (ev_json env) v2 = Inr ok \<and>
    cache_put (ev_io env) (ev_root env) (session_entry env target payload ok) (cs_files s) =
      (Inr (), cs_files s') \<and>
    cs_sent s' = cs_sent s @
      [hello_msg, CAuth ''ssh-token'' (bp_auth_token payload), join_msg mode ok] \<and>
    cs_socket s' = cs_socket s \<and> cs_closed s' = cs_closed s"
proof -
  from assms obtain a b c where h: "hello_phase env s = (Inr (), a)"
    and au: "auth_phase env (bp_auth_token payload) a = (Inr ok, b)"
    and st: "store_entry env (session_entry env target payload ok) b = (Inr (), c)"
    and jo: "join_phase env mode ok c = (Inr (), s')"
    by (auto simp: run_handshake_def act_then_Inr)
  from store_entry_Inr [OF st] obtain fs
    where "cache_put (ev_io env) (ev_root env) (session_entry env target payload ok) (cs_files b) = (Inr (), fs)"
      and c: "c = b\<lparr>cs_files := fs\<rparr>" by blast
  moreover obtain v1 where "reply_frame env (cs_recv s) v1 (cs_recv a)"
    "message_type (ev_json env) v1 = Some ''HELLO_ACK''"
    using hello_phase_Inr [OF h] by blast
  moreover obtain v2 where "reply_frame env (cs_recv a) v2 (cs_recv b)"
    "message_type (ev_json env) v2 = Some ''AUTH_OK''" "js_auth_ok (ev_json env) v2 = Inr ok"
    using auth_phase_Inr [OF au] by blast
  ultimately show ?thesis
    using hello_phase_Inr [OF h] auth_phase_Inr [OF au] join_phase_Inr [OF jo]
    by (intro exI [of _ v1] exI [of _ v2] exI [of _ "cs_recv a"] exI [of _ "cs_recv b"]) simp
qed

text \<open>What may be sent when the handshake fails, and how far the server must have come for it.\<close>

definition sent_so_far ::
  "'v sess_env \<Rightarrow> string \<Rightarrow> session_mode \<Rightarrow> bytes \<Rightarrow> client_msg list \<Rightarrow> bool" where
  "sent_so_far env token mode recv sent \<longleftrightarrow>
     sent = [] \<or> sent = [hello_msg] \<or>
     (\<exists>v1 r1. reply_frame env recv v1 r1 \<and> message_type (ev_json env) v1 = Some ''HELLO_ACK'' \<and>
       (sent = [hello_msg, CAuth ''ssh-token'' token] \<or>
        (\<exists>v2 r2 ok later. reply_frame env r1 v2 r2 \<and>
           message_type (ev_json env) v2 = Some ''AUTH_OK'' \<and> js_auth_ok (ev_json env) v2 = Inr ok \<and>
           sent = [hello_msg, CAuth ''ssh-token'' token, join_msg mode ok] @ later \<and>
           set later \<subseteq> {CDetach, CClose (ak_session_id ok)} \<union> range (\<lambda>(r, c). CResize r c))))"

lemma run_handshake_Inl:
  assumes "run_handshake env target payload mode s = (Inl e, s')" and "cs_sent s = []"
  shows "sent_so_far env (bp_auth_token payload) mode (cs_recv s) (cs_sent s') \<and>
    e \<noteq> CliClosed \<and> (\<forall>sid. e \<noteq> CliDisconnected sid)"
proof -
  let ?tok = "bp_auth_token payload"
  consider "hello_phase env s = (Inl e, s')"
    | a where "hello_phase env s = (Inr (), a)" "auth_phase env ?tok a = (Inl e, s')"
    | a ok b where "hello_phase env s = (Inr (), a)" "auth_phase env ?tok a = (Inr ok, b)"
        "store_entry env (session_entry env target payload ok) b = (Inl e, s')"
    | a ok b c where "hello_phase env s = (Inr (), a)" "auth_phase env ?tok a = (Inr ok, b)"
        "store_entry env (session_entry env target payload ok) b = (Inr (), c)"
        "join_phase env mode ok c = (Inl e, s')"
    using assms(1) by (auto simp: run_handshake_def act_then_Inl act_then_Inr)
  then show ?thesis
  proof cases
    case 1
    then show ?thesis using assms(2) by (auto dest!: hello_phase_Inl simp: sent_so_far_def)
  next
    case 2
    from hello_phase_Inr [OF 2(1)] auth_phase_Inl [OF 2(2)] assms(2) show ?thesis
      by (auto simp: sent_so_far_def)
  next
    case 3
    from hello_phase_Inr [OF 3(1)] auth_phase_Inr [OF 3(2)] store_entry_Inl [OF 3(3)] assms(2)
    show ?thesis by (auto simp: sent_so_far_def)
  next
    case 4
    from store_entry_Inr [OF 4(3)] have "cs_sent c = cs_sent b" by auto
    with hello_phase_Inr [OF 4(1)] auth_phase_Inr [OF 4(2)] join_phase_Inl [OF 4(4)] assms(2)
    have "cs_sent s' = [hello_msg, CAuth ''ssh-token'' ?tok] \<or>
        cs_sent s' = [hello_msg, CAuth ''ssh-token'' ?tok, join_msg mode ok] @ []"
      by auto
    moreover have "e \<noteq> CliClosed \<and> (\<forall>sid. e \<noteq> CliDisconnected sid)"
      using join_phase_Inl [OF 4(4)] by auto
    moreover obtain v1 where "reply_frame env (cs_recv s) v1 (cs_recv a)"
      "message_type (ev_json env) v1 = Some ''HELLO_ACK''"
      using hello_phase_Inr [OF 4(1)] by blast
    moreover obtain v2 where "reply_frame env (cs_recv a) v2 (cs_recv b)"
      "message_type (ev_json env) v2 = Some ''AUTH_OK''" "js_auth_ok (ev_json env) v2 = Inr ok"
      using auth_phase_Inr [OF 4(2)] by blast
    ultimately show ?thesis unfolding sent_so_far_def
      by (metis empty_iff empty_set subsetI)
  qed
qed

text \<open>The attached part: the files and the socket when it ends in one of its three regular ways.\<close>

definition ends_closed :: "'v session_event \<Rightarrow> bool" where
  "ends_closed ev \<longleftrightarrow> (\<exists>sig flags. ev = SeSignal sig flags \<and> sig \<in> {SigClose, SigStreamClosed})"

definition regular_end :: "cli_error + unit \<Rightarrow> uuid \<Rightarrow> bool" where
  "regular_end r sid \<longleftrightarrow> r \<in> {Inr (), Inl CliClosed, Inl (CliDisconnected sid)}"

lemma open_socket_Inr: "open_socket env s = (Inr u, s') \<Longrightarrow> s' = s\<lparr>cs_socket := True\<rparr>"
  by (auto simp: open_socket_def act_then_Inr act_lift_Inr)

lemma open_socket_Inl:
  "open_socket env s = (Inl e, s') \<Longrightarrow> (\<exists>t. e = CliIo t) \<and> cs_sent s' = cs_sent s"
  by (auto simp: open_socket_def act_then_Inl act_lift_Inl act_lift_Inr)

lemma send_size_state:
  "send_size env s = (r, s') \<Longrightarrow>
   r = Inr () \<and> cs_files s' = cs_files s \<and>
   (cs_sent s' = cs_sent s \<or> (\<exists>m n. cs_sent s' = cs_sent s @ [CResize m n]))"
proof (cases "ev_tty_size env")
  case (Some size)
  obtain m n where "size = (m, n)" by fastforce
  moreover assume "send_size env s = (r, s')"
  ultimately have "r = Inr ()" "s' = snd (send_json env (CResize m n) s)"
    using Some by (auto simp: send_size_def)
  with send_json_state [of env "CResize m n" s] show ?thesis by auto
qed (auto simp: send_size_def)

lemma leave_cases:
  "leave env b s = (r, s') \<Longrightarrow>
   (r = Inr () \<and> cs_sent s' = cs_sent s @ (if b then [CDetach] else []) \<and> cs_files s' = cs_files s \<and>
     \<not> cs_socket s' \<and> cs_closed s') \<or>
   ((\<exists>t. r = Inl (CliProtocol t)) \<and> cs_sent s' = cs_sent s)"
  by (cases r)
    (auto simp: leave_def act_then_Inr act_then_Inl split: if_splits dest!: send_json_Inr send_json_Inl)

lemma leave_quiet: "leave env False s = (Inr (), s\<lparr>cs_socket := False, cs_closed := True\<rparr>)"
  by (simp add: leave_def act_then_def)

lemma end_session_sent:
  "end_session env sid s = (r, s') \<Longrightarrow>
   \<exists>ms. cs_sent s' = cs_sent s @ ms \<and> set ms \<subseteq> {CDetach, CClose sid}"
  using send_json_state [of env "CClose sid" s]
  by (auto simp: end_session_def act_then_def leave_quiet split: session_event.splits prod.splits
      control_signal.splits if_splits sum.splits dest!: leave_cases)

lemma end_session_regular:
  assumes "end_session env sid s = (r, s')" and "r \<in> {Inr (), Inl CliClosed} \<or> (\<exists>x. r = Inl (CliDisconnected x))"
  shows "cs_files s' = (if ends_closed (ev_event env)
      then snd (cache_delete (ev_io env) (ev_root env) sid (cs_files s)) else cs_files s) \<and>
    \<not> cs_socket s' \<and> cs_closed s' \<and> regular_end r sid"
proof -
  have f: "cs_files (snd (send_json env (CClose sid) s)) = cs_files s"
    using send_json_state [of env "CClose sid" s] by auto
  show ?thesis
    using assms f
    by (auto simp: end_session_def act_then_def leave_quiet ends_closed_def regular_end_def
        split: session_event.splits prod.splits control_signal.splits if_splits sum.splits
        dest!: leave_cases)
qed

lemma attached_part_sent:
  assumes "attached_part env sid s = (r, s')"
  shows "\<exists>ms. cs_sent s' = cs_sent s @ ms \<and>
    set ms \<subseteq> {CDetach, CClose sid} \<union> range (\<lambda>(r, c). CResize r c)"
proof -
  obtain r1 t where sz: "send_size env s = (r1, t)" by fastforce
  note z = send_size_state [OF sz]
  have "\<exists>ms. cs_sent s' = cs_sent t @ ms \<and> set ms \<subseteq> {CDetach, CClose sid}"
  proof (cases "open_socket env t")
    case (Pair r2 u)
    show ?thesis
    proof (cases r2)
      case (Inl e)
      then show ?thesis using Pair assms sz z open_socket_Inl [of env t e u]
        by (auto simp: attached_part_def act_then_def)
    next
      case (Inr x)
      then have u: "cs_sent u = cs_sent t" using Pair open_socket_Inr by fastforce
      have "r = Inl e \<and> s' = u \<or> end_session env sid u = (r, s')"
        if "open_streams env u = (Inl e, u)" for e
        using that Inr Pair assms sz z by (auto simp: attached_part_def act_then_def)
      moreover have "end_session env sid u = (r, s')" if "open_streams env u = (Inr y, u)" for y
        using that Inr Pair assms sz z by (auto simp: attached_part_def act_then_def)
      moreover have "\<exists>q. open_streams env u = (q, u)"
        by (auto simp: open_streams_def act_then_def act_lift_def split: sum.splits)
      ultimately consider "s' = u" | "end_session env sid u = (r, s')"
        by (metis sum.exhaust)
      then show ?thesis using u end_session_sent by (cases; fastforce)
    qed
  qed
  with z show ?thesis by fastforce
qed

lemma attached_part_regular:
  assumes "attached_part env sid s = (r, s')"
    and "r \<in> {Inr (), Inl CliClosed} \<or> (\<exists>x. r = Inl (CliDisconnected x))"
  shows "cs_files s' = (if ends_closed (ev_event env)
      then snd (cache_delete (ev_io env) (ev_root env) sid (cs_files s)) else cs_files s) \<and>
    \<not> cs_socket s' \<and> cs_closed s' \<and> regular_end r sid"
proof -
  obtain r1 t where sz: "send_size env s = (r1, t)" by fastforce
  note z = send_size_state [OF sz]
  have str: "open_streams env u = (q, v) \<Longrightarrow> v = u \<and> (\<forall>e. q = Inl e \<longrightarrow> (\<exists>x. e = CliProtocol x))" for u q v
    by (auto simp: open_streams_def act_then_def act_lift_def split: sum.splits)
  from assms sz z obtain u x where u: "open_socket env t = (Inr x, u)" and "end_session env sid u = (r, s')"
    by (auto simp: attached_part_def act_then_def split: prod.splits sum.splits
        dest!: open_socket_Inl str)
  from end_session_regular [OF this(2) assms(2)] open_socket_Inr [OF u] z show ?thesis by simp
qed

section \<open>Properties of a session\<close>

lemma pinned:
  "connect_and_verify C q addr fp idle = Inr con \<Longrightarrow>
   \<exists>cert certs. qa_peer_certs q con = Some (cert # certs) \<and> sha256_fingerprint C cert = fp"
  by (auto simp: connect_and_verify_def verify_peer_fingerprint_def peer_cert_fingerprint_def
      split: option.splits sum.splits list.splits if_splits)

lemma run_session_cases:
  assumes "run_session C q env target payload mode idle s = (r, s')"
  shows "(\<exists>e. connect_and_verify C q (bp_quic_addr payload) (bp_cert_fingerprint payload) idle = Inl e \<and>
      r = Inl (CliQuic (quic_client_error_text e)) \<and> cs_sent s' = cs_sent s) \<or>
    (\<exists>con. connect_and_verify C q (bp_quic_addr payload) (bp_cert_fingerprint payload) idle = Inr con \<and>
      ((\<exists>t. r = Inl (CliProtocol t)) \<and> cs_sent s' = cs_sent s \<or>
       (\<exists>t. cs_recv t = cs_recv s \<and> cs_sent t = cs_sent s \<and> cs_files t = cs_files s \<and>
          act_then (run_handshake env target payload mode) (\<lambda>ok. attached_part env (ak_session_id ok)) t =
            (r, s'))))"
proof (cases "connect_and_verify C q (bp_quic_addr payload) (bp_cert_fingerprint payload) idle")
  case (Inl e)
  then show ?thesis using assms by (auto simp: run_session_def act_then_def split: if_splits)
next
  case (Inr con)
  then show ?thesis using assms
    by (cases "ev_open_bi env") (fastforce simp: run_session_def act_then_def [of "log_event x" for x]
        act_then_def [of "act_lift x y" for x y])+
qed

lemma sent_needs_pin:
  assumes "run_session C q env target payload mode idle s = (r, s')" and "cs_sent s = []" and "cs_sent s' \<noteq> []"
  shows "\<exists>con cert certs.
    connect_and_verify C q (bp_quic_addr payload) (bp_cert_fingerprint payload) idle = Inr con \<and>
    qa_peer_certs q con = Some (cert # certs) \<and> sha256_fingerprint C cert = bp_cert_fingerprint payload"
proof -
  obtain con where "connect_and_verify C q (bp_quic_addr payload) (bp_cert_fingerprint payload) idle = Inr con"
    using run_session_cases [OF assms(1)] assms(2,3) by auto
  with pinned [OF this] show ?thesis by blast
qed

text \<open>
  C31: Secrets leave the client in order and only to whom they are meant for: nothing is sent unless
  the server's certificate has the pinned fingerprint; the auth token follows only a \<open>HELLO_ACK\<close>;
  \<open>ATTACH\<close> or \<open>RESUME\<close>, with the resume token, follows only an \<open>AUTH_OK\<close> that could be read; and
  nothing else is sent but window sizes and the final \<open>DETACH\<close> or \<open>CLOSE\<close>.
\<close>

theorem secrets_sent_in_order:
  assumes "run_session C q env target payload mode idle s = (r, s')" and "cs_sent s = []"
  shows "sent_so_far env (bp_auth_token payload) mode (cs_recv s) (cs_sent s') \<and>
    (cs_sent s' \<noteq> [] \<longrightarrow>
      (\<exists>con cert certs.
        connect_and_verify C q (bp_quic_addr payload) (bp_cert_fingerprint payload) idle = Inr con \<and>
        qa_peer_certs q con = Some (cert # certs) \<and>
        sha256_fingerprint C cert = bp_cert_fingerprint payload))"
proof -
  have "sent_so_far env (bp_auth_token payload) mode (cs_recv s) (cs_sent s')"
    if t: "cs_recv t = cs_recv s" "cs_sent t = cs_sent s" and run: "act_then (run_handshake env target payload mode)
      (\<lambda>ok. attached_part env (ak_session_id ok)) t = (r, s')" for t
  proof (cases "run_handshake env target payload mode t")
    case (Pair h u)
    show ?thesis
    proof (cases h)
      case (Inl e)
      with Pair run have "s' = u" by (simp add: act_then_def)
      with Inl Pair run_handshake_Inl [of env target payload mode t e u] t assms(2) show ?thesis by simp
    next
      case (Inr ok)
      with Pair have hs: "run_handshake env target payload mode t = (Inr ok, u)" by simp
      have "attached_part env (ak_session_id ok) u = (r, s')" using run hs by (simp add: act_then_def)
      from attached_part_sent [OF this] obtain ms where "cs_sent s' = cs_sent u @ ms"
        "set ms \<subseteq> {CDetach, CClose (ak_session_id ok)} \<union> range (\<lambda>(r, c). CResize r c)" by blast
      moreover from run_handshake_Inr [OF hs] obtain v1 r1 v2 r2 where
        "reply_frame env (cs_recv t) v1 r1" "message_type (ev_json env) v1 = Some ''HELLO_ACK''"
        "reply_frame env r1 v2 r2" "message_type (ev_json env) v2 = Some ''AUTH_OK''"
        "js_auth_ok (ev_json env) v2 = Inr ok"
        "cs_sent u = cs_sent t @ [hello_msg, CAuth ''ssh-token'' (bp_auth_token payload), join_msg mode ok]"
        by blast
      ultimately show ?thesis unfolding sent_so_far_def using t assms(2)
        by (intro disjI2 exI [of _ v1] exI [of _ r1] conjI exI [of _ v2] exI [of _ r2] exI [of _ ok]
            exI [of _ ms]) simp_all
    qed
  qed
  with run_session_cases [OF assms(1)] assms(2)
  have "sent_so_far env (bp_auth_token payload) mode (cs_recv s) (cs_sent s')"
    by (elim disjE exE conjE) (auto simp: sent_so_far_def [of env _ mode _ "[]"])
  with sent_needs_pin [OF assms] show ?thesis by blast
qed

text \<open>
  C32: The cache follows the session: when a session ends in one of its three regular ways, the server has
  answered with \<open>HELLO_ACK\<close> and an \<open>AUTH_OK\<close>, and the client's files hold for the id in that \<open>AUTH_OK\<close> exactly
  the entry with its resume token, that token's time of expiry by the client's clock, and the address
  and fingerprint the connection was made with; unless the server or the remote shell closed the
  session, and then they hold none. So what \<open>resume\<close> needs is kept as long as there is something to
  resume. The control socket is gone and the endpoint closed in each case.
\<close>

theorem cache_follows_session:
  assumes "run_session C q env target payload mode idle s = (r, s')"
    and "r \<in> {Inr (), Inl CliClosed} \<or> (\<exists>x. r = Inl (CliDisconnected x))"
    and "entry_json (ev_io env)" and "\<forall>p. ci_read (ev_io env) p = Inr () \<and> ci_remove (ev_io env) p = Inr ()"
    and "cs_sent s = []"
  shows "\<exists>v1 r1 v2 r2 ok. reply_frame env (cs_recv s) v1 r1 \<and> message_type (ev_json env) v1 = Some ''HELLO_ACK'' \<and>
    reply_frame env r1 v2 r2 \<and> message_type (ev_json env) v2 = Some ''AUTH_OK'' \<and>
    js_auth_ok (ev_json env) v2 = Inr ok \<and>
    cache_get (ev_io env) (ev_root env) (ak_session_id ok) (cs_files s') =
      (if ends_closed (ev_event env) then Inl (CacheIo (no_file (ev_io env)))
       else Inr \<lparr>ce_session_id = ak_session_id ok, ce_ssh_target = target, ce_resume_token = ak_resume_token ok,
         ce_resume_token_expires_at =
           now_epoch_seconds (ev_now1 env) + ak_resume_token_expires_in_seconds ok,
         ce_quic_addr = bp_quic_addr payload, ce_cert_fingerprint = bp_cert_fingerprint payload,
         ce_updated_at = now_epoch_seconds (ev_now2 env)\<rparr>) \<and>
    (\<forall>x. r = Inl (CliDisconnected x) \<longrightarrow> x = ak_session_id ok) \<and> \<not> cs_socket s' \<and> cs_closed s'"
proof -
  from run_session_cases [OF assms(1)] assms(2) obtain t where t: "cs_sent t = []" "cs_recv t = cs_recv s"
    and run: "act_then (run_handshake env target payload mode) (\<lambda>ok. attached_part env (ak_session_id ok)) t = (r, s')"
    using assms(5) by auto
  obtain h u where hs: "run_handshake env target payload mode t = (h, u)" by fastforce
  from run hs run_handshake_Inl [of env target payload mode t _ u] t assms(2)
  obtain ok where ok: "h = Inr ok" and at: "attached_part env (ak_session_id ok) u = (r, s')"
    by (cases h) (auto simp: act_then_def)
  note reg = attached_part_regular [OF at assms(2)]
  from run_handshake_Inr [OF hs [unfolded ok]] obtain v1 r1 v2 r2 where
    frames: "reply_frame env (cs_recv s) v1 r1" "message_type (ev_json env) v1 = Some ''HELLO_ACK''"
      "reply_frame env r1 v2 r2" "message_type (ev_json env) v2 = Some ''AUTH_OK''"
      "js_auth_ok (ev_json env) v2 = Inr ok" and
    put: "cache_put (ev_io env) (ev_root env) (session_entry env target payload ok) (cs_files t) = (Inr (), cs_files u)"
    unfolding t(2) by blast
  have kept: "cache_get (ev_io env) (ev_root env) (ak_session_id ok) (cs_files u) =
      Inr (session_entry env target payload ok)"
    using get_put_same [OF assms(3) put] assms(4) by (simp add: session_entry_def)
  have gone: "cache_get (ev_io env) (ev_root env) (ak_session_id ok)
      (snd (cache_delete (ev_io env) (ev_root env) (ak_session_id ok) (cs_files u))) =
      Inl (CacheIo (no_file (ev_io env)))"
    using assms(4) by (simp add: cache_delete_def cache_get_def Let_def)
  show ?thesis
    by (rule exI [of _ v1], rule exI [of _ r1], rule exI [of _ v2], rule exI [of _ r2], rule exI [of _ ok])
      (use frames reg kept gone in \<open>auto simp: regular_end_def session_entry_def\<close>)
qed

section \<open>What a session does to the files\<close>

text \<open>
  A predicate on the files that is kept by storing the entry of the session and by deletions is
  kept by the whole session, whatever happens in it.
\<close>

named_theorems keeps_intro \<open>steps of a session that keep a predicate on the files\<close>

definition keeps :: "(files \<Rightarrow> bool) \<Rightarrow> 'a sess_act \<Rightarrow> bool" where
  "keeps P m \<longleftrightarrow> (\<forall>s r s'. P (cs_files s) \<longrightarrow> m s = (r, s') \<longrightarrow> P (cs_files s'))"

lemma keepsD: "keeps P m \<Longrightarrow> m s = (r, s') \<Longrightarrow> P (cs_files s) \<Longrightarrow> P (cs_files s')"
  unfolding keeps_def by blast

lemma keeps_then [keeps_intro]:
  "keeps P m \<Longrightarrow> (\<And>x. keeps P (f x)) \<Longrightarrow> keeps P (act_then m f)"
proof -
  assume m: "keeps P m" and f: "\<And>x. keeps P (f x)"
  have "P (cs_files s')" if p: "P (cs_files s)" and r: "act_then m f s = (r, s')" for s r s'
  proof (cases "m s")
    case (Pair q t)
    then have t: "P (cs_files t)" by (rule keepsD [OF m _ p])
    show ?thesis
    proof (cases q)
      case (Inl e)
      then show ?thesis using Pair r t by (simp add: act_then_def)
    next
      case (Inr x)
      then have "f x t = (r, s')" using Pair r by (simp add: act_then_def)
      then show ?thesis by (rule keepsD [OF f _ t])
    qed
  qed
  then show ?thesis unfolding keeps_def by blast
qed

lemma keeps_quiet: "(\<And>s. cs_files (snd (m s)) = cs_files s) \<Longrightarrow> keeps P m"
  unfolding keeps_def by (metis snd_conv)

lemma keeps_if [keeps_intro]: "keeps P a \<Longrightarrow> keeps P b \<Longrightarrow> keeps P (if c then a else b)"
  by simp

lemma keeps_simple [keeps_intro]:
  "keeps P (act_return x)" "keeps P (act_fail e)" "keeps P (log_event ev)"
  "keeps P (set_socket b)" "keeps P close_endpoint"
  by (rule keeps_quiet; simp)+

lemma keeps_lift [keeps_intro]: "keeps P (act_lift err res)"
  by (rule keeps_quiet) (simp add: act_lift_def split: sum.split)

lemma keeps_send [keeps_intro]: "keeps P (send_json env m)" "keeps P (try_send env m)"
proof -
  have "cs_files (snd (send_json env m s)) = cs_files s" for s
    using send_json_state [of env m s] by auto
  then show "keeps P (send_json env m)" and "keeps P (try_send env m)"
    by (auto intro: keeps_quiet)
qed

lemma keeps_recv [keeps_intro]: "keeps P (recv_json env)"
  by (rule keeps_quiet) (simp add: recv_json_def split: sum.split prod.split)

lemma keeps_expect [keeps_intro]: "keeps P (expect_type env ty)"
  unfolding expect_type_def by (intro keeps_intro)

lemma run_session_keeps:
  assumes put: "\<And>ok fs r fs'. P fs \<Longrightarrow>
      cache_put (ev_io env) (ev_root env) (session_entry env target payload ok) fs = (r, fs') \<Longrightarrow> P fs'"
    and del: "\<And>sid fs r fs'. P fs \<Longrightarrow> cache_delete (ev_io env) (ev_root env) sid fs = (r, fs') \<Longrightarrow> P fs'"
  shows "keeps P (run_session C q env target payload mode idle)"
proof -
  have st: "keeps P (store_entry env (session_entry env target payload ok))" for ok
    unfolding keeps_def store_entry_def using put by (fastforce split: prod.splits sum.splits)
  have dr: "keeps P (drop_entry env sid)" for sid
    unfolding keeps_def using del by (auto simp: prod_eq_iff)
  have sz: "keeps P (send_size env)"
    unfolding send_size_def by (cases "ev_tty_size env") (auto intro: keeps_intro split: prod.split)
  have lv: "keeps P (leave env b)" for b
    unfolding leave_def by (intro keeps_intro)
  have en: "keeps P (end_session env sid)" for sid
    unfolding end_session_def
    by (auto intro!: keeps_intro lv dr split: session_event.split prod.split control_signal.split)
  have at: "keeps P (attached_part env sid)" for sid
    unfolding attached_part_def open_socket_def open_streams_def by (intro keeps_intro sz en)
  have jo: "keeps P (join_phase env mode ok)" for ok
    unfolding join_phase_def by (cases mode) (auto intro!: keeps_intro dr)
  have "keeps P (run_handshake env target payload mode)"
    unfolding run_handshake_def hello_phase_def auth_phase_def by (intro keeps_intro st jo)
  then show ?thesis
    unfolding run_session_def
    by (cases "connect_and_verify C q (bp_quic_addr payload) (bp_cert_fingerprint payload) idle")
      (auto intro!: keeps_intro at)
qed

section \<open>A concrete session\<close>

text \<open>Messages are numbers; a reply is the single byte of its number.\<close>

definition demo_json :: "nat json_api" where
  "demo_json =
     \<lparr>js_get = (\<lambda>v k. if k = ''type'' then Some v else None),
      js_as_str = (\<lambda>v. if v = 2 then Some ''HELLO_ACK'' else if v = 3 then Some ''AUTH_OK''
        else if v = 4 then Some ''ATTACH_OK'' else if v = 5 then Some ''CLOSE'' else None),
      js_as_bool = (\<lambda>_. None),
      js_from_slice = (\<lambda>b. case b of [x] \<Rightarrow> Inr (unat x) | _ \<Rightarrow> Inl ''invalid''),
      js_to_vec = (\<lambda>v. Inr [of_nat v]), js_display = show_nat,
      js_object = (\<lambda>m. case m of CHello _ _ _ \<Rightarrow> 10 | CAuth _ _ \<Rightarrow> 11 | _ \<Rightarrow> 12),
      js_auth_ok = (\<lambda>_. Inr \<lparr>ak_session_id = 7, ak_resume_token = ''r'',
        ak_resume_token_expires_in_seconds = 3600\<rparr>),
      js_resume_ok = (\<lambda>_. Inr \<lparr>rk_session_id = 7, rk_replay_bytes = 0\<rparr>), js_unknown = (\<lambda>v. v)\<rparr>"

definition demo_env :: "nat session_event \<Rightarrow> nat sess_env" where
  "demo_env ev =
     \<lparr>ev_json = demo_json, ev_io = demo_io, ev_root = ''/c'', ev_open_bi = Inr (), ev_read_err = ''eof'',
      ev_write = (\<lambda>_. Inr ()), ev_now1 = 0, ev_now2 = 0, ev_tty_size = Some (24, 80),
      ev_ipc_dir = Inr (), ev_ipc_bind = Inr (), ev_ipc_chmod = Inr (), ev_accept_uni = Inr (),
      ev_open_uni = Inr (), ev_event = ev\<rparr>"

abbreviation demo_sess_env :: "nat sess_env" where
  "demo_sess_env \<equiv> demo_env (SeDetach False)"

text \<open>A hash of full length, so that the fingerprint passes the checks of the bootstrap data.\<close>

definition demo_hash :: crypto where
  "demo_hash = demo_crypto\<lparr>sha256 := \<lambda>_. replicate 32 171\<rparr>"

definition demo_payload :: bootstrap_payload where
  "demo_payload =
     \<lparr>bp_session_id = 7, bp_auth_token = ''a'', bp_auth_token_expires_in_seconds = 60,
      bp_quic_addr = ''127.0.0.1:30001'', bp_cert_fingerprint = ''sha256:'' @ concat (replicate 32 ''ab'')\<rparr>"

definition demo_replies :: bytes where
  "demo_replies = encode_frame [2] @ encode_frame [3] @ encode_frame [4] @ [0]"

definition demo_sess :: client_sess where
  "demo_sess =
     \<lparr>cs_recv = demo_replies, cs_sent = [], cs_files = Map.empty, cs_socket = False, cs_closed = False,
      cs_log = []\<rparr>"

definition demo_sent :: "client_msg list" where
  "demo_sent = [hello_msg, CAuth ''ssh-token'' ''a'', CAttach 7 ''exclusive'', CResize 24 80, CDetach]"

definition demo_ok :: auth_ok where
  "demo_ok = \<lparr>ak_session_id = 7, ak_resume_token = ''r'', ak_resume_token_expires_in_seconds = 3600\<rparr>"

lemma demo_send: "send_json (demo_env ev) m s = (Inr (), s\<lparr>cs_sent := cs_sent s @ [m]\<rparr>)"
  by (simp add: send_json_def demo_env_def encode_control_json_def demo_json_def)

lemma demo_recv:
  "recv_json (demo_env ev)
     \<lparr>cs_recv = encode_frame [x] @ rest, cs_sent = a, cs_files = b, cs_socket = c, cs_closed = d, cs_log = e\<rparr> =
   (Inr (unat x), \<lparr>cs_recv = rest, cs_sent = a, cs_files = b, cs_socket = c, cs_closed = d, cs_log = e\<rparr>)"
  using read_json_encode [of "[x]" demo_json "unat x" "''eof''" rest]
  by (simp add: recv_json_def demo_env_def client_max_control_frame_def demo_json_def)

lemma demo_put:
  "cache_put demo_io ''/c'' (demo_entry 7) fs = (Inr (), fs(cache_path demo_io ''/c'' 7 \<mapsto> [7]))"
proof -
  have "ci_create_dir demo_io p = Inr ()" and "ci_write demo_io p c = Inr ()"
    and "ci_to_json demo_io (demo_entry 7) = Inr [7]" for p c
    by (simp_all add: demo_io_def demo_entry_id)
  then show ?thesis by (simp add: cache_put_def demo_entry_id Let_def)
qed

lemma demo_entry_eq: "session_entry (demo_env ev) ''host'' demo_payload demo_ok = demo_entry 7"
  by (simp add: session_entry_def demo_entry_def demo_payload_def demo_env_def demo_ok_def
      now_epoch_seconds_def duration_since_def duration_as_secs_def)

lemma demo_connect:
  "connect_and_verify demo_hash demo_quic ''127.0.0.1:30001'' (''sha256:'' @ concat (replicate 32 ''ab'')) 60 = Inr 9"
proof -
  have "sha256_fingerprint demo_hash [7, 7] = ''sha256:'' @ concat (replicate 32 ''ab'')" by code_simp
  then show ?thesis
    by (simp add: connect_and_verify_def demo_quic_def build_insecure_pinned_client_config_def
        verify_peer_fingerprint_def peer_cert_fingerprint_def)
qed

lemma demo_types:
  "message_type demo_json 2 = Some ''HELLO_ACK''" "message_type demo_json 3 = Some ''AUTH_OK''"
  "message_type demo_json 4 = Some ''ATTACH_OK''" "js_auth_ok demo_json v = Inr demo_ok"
  "js_resume_ok demo_json v = Inr \<lparr>rk_session_id = 7, rk_replay_bytes = 0\<rparr>"
  by (simp_all add: message_type_def js_str_def demo_json_def demo_ok_def)

lemma demo_env_sel:
  "ev_json (demo_env ev) = demo_json" "ev_io (demo_env ev) = demo_io" "ev_root (demo_env ev) = ''/c''"
  "ev_open_bi (demo_env ev) = Inr ()" "ev_tty_size (demo_env ev) = Some (24, 80)"
  "ev_ipc_dir (demo_env ev) = Inr ()" "ev_ipc_bind (demo_env ev) = Inr ()"
  "ev_ipc_chmod (demo_env ev) = Inr ()" "ev_accept_uni (demo_env ev) = Inr ()"
  "ev_open_uni (demo_env ev) = Inr ()" "ev_event (demo_env ev) = ev"
  by (simp_all add: demo_env_def)

lemma demo_payload_sel:
  "bp_session_id demo_payload = 7" "bp_auth_token demo_payload = ''a''"
  "bp_quic_addr demo_payload = ''127.0.0.1:30001''"
  "bp_cert_fingerprint demo_payload = ''sha256:'' @ concat (replicate 32 ''ab'')"
  by (simp_all add: demo_payload_def)

lemma demo_handshake:
  "run_handshake (demo_env ev) ''host'' demo_payload m
     \<lparr>cs_recv = demo_replies, cs_sent = [], cs_files = fs, cs_socket = False, cs_closed = False, cs_log = l\<rparr> =
   (Inr demo_ok,
    \<lparr>cs_recv = [0], cs_sent = [hello_msg, CAuth ''ssh-token'' ''a'', join_msg m demo_ok],
     cs_files = fs(cache_path demo_io ''/c'' 7 \<mapsto> [7]), cs_socket = False, cs_closed = False,
     cs_log = l @ [''auth_ok'', if m = SmAttach then ''attach_ok'' else ''resume_ok'']\<rparr>)"
  by (cases m)
    (simp_all add: run_handshake_def hello_phase_def auth_phase_def join_phase_def expect_type_def act_then_def
      demo_replies_def demo_send demo_recv demo_env_sel demo_types store_entry_def demo_entry_eq demo_put
      demo_payload_sel hello_msg_def)

lemma demo_session:
  "run_session demo_hash demo_quic (demo_env ev) ''host'' demo_payload m 60
     \<lparr>cs_recv = demo_replies, cs_sent = [], cs_files = fs, cs_socket = False, cs_closed = False, cs_log = []\<rparr> =
   end_session (demo_env ev) 7
     \<lparr>cs_recv = [0], cs_sent = [hello_msg, CAuth ''ssh-token'' ''a'', join_msg m demo_ok, CResize 24 80],
      cs_files = fs(cache_path demo_io ''/c'' 7 \<mapsto> [7]), cs_socket = True, cs_closed = False,
      cs_log = [''quic_connect_start'', ''quic_connect_ok'', ''fingerprint_verify_ok'', ''auth_ok'',
        if m = SmAttach then ''attach_ok'' else ''resume_ok'']\<rparr>"
proof -
  note c = demo_connect [folded demo_payload_sel]
  have id: "ak_session_id demo_ok = 7" by (simp add: demo_ok_def)
  show ?thesis
    by (simp add: run_session_def act_then_def c demo_env_sel demo_handshake attached_part_def
        send_size_def demo_send open_socket_def open_streams_def id)
qed

lemma demo_session_run:
  "run_session demo_hash demo_quic demo_sess_env ''host'' demo_payload SmAttach 60 demo_sess =
   (Inr (), \<lparr>cs_recv = [0], cs_sent = demo_sent, cs_files = [cache_path demo_io ''/c'' 7 \<mapsto> [7]],
     cs_socket = False, cs_closed = True, cs_log = [''quic_connect_start'', ''quic_connect_ok'',
       ''fingerprint_verify_ok'', ''auth_ok'', ''attach_ok'', ''detach_sent'']\<rparr>)"
  unfolding demo_sess_def demo_session
  by (simp add: end_session_def leave_def act_then_def demo_env_sel demo_send demo_sent_def demo_ok_def)

theorem secrets_sent_in_order_witness:
  "cs_sent (snd (run_session demo_hash demo_quic demo_sess_env ''host'' demo_payload SmAttach 60 demo_sess)) =
     demo_sent \<and>
   sent_so_far demo_sess_env ''a'' SmAttach demo_replies demo_sent"
  using secrets_sent_in_order [OF demo_session_run] demo_session_run
  by (simp add: demo_sess_def demo_payload_sel)

theorem cache_follows_session_witness:
  "\<exists>e. cache_get demo_io ''/c'' 7 (cs_files (snd (run_session demo_hash demo_quic demo_sess_env
       ''host'' demo_payload SmAttach 60 demo_sess))) = Inr e \<and>
     ce_resume_token e = ''r'' \<and> ce_quic_addr e = ''127.0.0.1:30001''"
proof -
  let ?s = "snd (run_session demo_hash demo_quic demo_sess_env ''host'' demo_payload SmAttach 60 demo_sess)"
  have "cs_sent demo_sess = []" "\<forall>p. ci_read demo_io p = Inr () \<and> ci_remove demo_io p = Inr ()"
    by (simp_all add: demo_sess_def demo_io_def)
  with cache_follows_session [OF demo_session_run] demo_entry_json obtain v2 ok where
    ok: "js_auth_ok demo_json v2 = Inr ok" and
    get: "cache_get demo_io ''/c'' (ak_session_id ok) (cs_files ?s) = Inr \<lparr>ce_session_id = ak_session_id ok,
        ce_ssh_target = ''host'', ce_resume_token = ak_resume_token ok,
        ce_resume_token_expires_at =
          now_epoch_seconds (ev_now1 demo_sess_env) + ak_resume_token_expires_in_seconds ok,
        ce_quic_addr = bp_quic_addr demo_payload, ce_cert_fingerprint = bp_cert_fingerprint demo_payload,
        ce_updated_at = now_epoch_seconds (ev_now2 demo_sess_env)\<rparr>" (is "_ = Inr ?e")
    unfolding demo_session_run by (auto simp: ends_closed_def demo_env_sel)
  have o: "ak_resume_token ok = ''r''" "ak_session_id ok = 7" using ok by (auto simp: demo_types demo_ok_def)
  from get have "\<exists>e. cache_get demo_io ''/c'' 7 (cs_files ?s) = Inr e \<and> ce_resume_token e = ak_resume_token ok \<and>
      ce_quic_addr e = bp_quic_addr demo_payload" unfolding o(2) by simp
  moreover have "bp_quic_addr demo_payload = ''127.0.0.1:30001''" by (simp add: demo_payload_def)
  ultimately show ?thesis unfolding o(1) by simp
qed

end
