(* ===== verification/Client_Ipc.thy ===== *)
theory Client_Ipc
  imports Client_Session
begin

text \<open>
  The control socket of an attached client (the task spawned in \<open>run_session\<close>, with the functions
  around its path and its peer) and the command that talks to it (\<open>detach_cmd\<close>), all in
  \<open>src/src/bin/neosh.rs\<close>. A socket is what its calls return.
\<close>

section \<open>Requests\<close>

definition is_valid_detach_request :: "'v json_api \<Rightarrow> (uuid \<Rightarrow> string) \<Rightarrow> 'v \<Rightarrow> uuid \<Rightarrow> bool" where
  "is_valid_detach_request J show_uuid v sid \<longleftrightarrow>
     js_str J v ''type'' = Some ''DETACH'' \<and> js_str J v ''session_id'' = Some (show_uuid sid)"

text \<open>The system call's return code, and the user id it stored.\<close>

definition peer_uid_matches_owner :: "int \<times> u32 \<Rightarrow> u32 \<Rightarrow> bool" where
  "peer_uid_matches_owner cred owner_uid \<longleftrightarrow> fst cred = 0 \<and> snd cred = owner_uid"

datatype detach_reply = DetachOk | DetachError string

text \<open>
  One accepted connection: the peer's credentials, the bytes it sent up to its end of stream, and
  whether the \<open>DETACH\<close> frame could be sent to the server.
\<close>

record detach_req =
  dr_cred :: "int \<times> u32"
  dr_body :: "string + bytes"
  dr_sent :: bool

text \<open>The reply, and whether the detachment was requested (which ends the task).\<close>

definition detach_round ::
  "'v json_api \<Rightarrow> (uuid \<Rightarrow> string) \<Rightarrow> u32 \<Rightarrow> uuid \<Rightarrow> detach_req \<Rightarrow> detach_reply \<times> bool" where
  "detach_round J show_uuid owner_uid sid r =
     (if \<not> peer_uid_matches_owner (dr_cred r) owner_uid then (DetachError ''peer uid mismatch'', False)
      else
        case dr_body r of
          Inl _ \<Rightarrow> (DetachError ''invalid request body'', False)
        | Inr buf \<Rightarrow>
            (case js_from_slice J buf of
               Inl _ \<Rightarrow> (DetachError ''invalid request json'', False)
             | Inr req \<Rightarrow>
                 if is_valid_detach_request J show_uuid req sid
                 then if dr_sent r then (DetachOk, True)
                      else (DetachError ''failed to send detach'', False)
                 else (DetachError ''invalid detach request'', False)))"

text \<open>
  The task over what \<open>accept\<close> returns (\<open>None\<close> is its failure): the replies and the final value of
  the flag \<open>detach_requested_from_ipc\<close>, which is also whether the session was notified.
\<close>

fun detach_task ::
  "'v json_api \<Rightarrow> (uuid \<Rightarrow> string) \<Rightarrow> u32 \<Rightarrow> uuid \<Rightarrow> detach_req option list \<Rightarrow> detach_reply list \<times> bool" where
  "detach_task J show_uuid owner_uid sid [] = ([], False)"
| "detach_task J show_uuid owner_uid sid (None # rs) = ([], False)"
| "detach_task J show_uuid owner_uid sid (Some r # rs) =
     (case detach_round J show_uuid owner_uid sid r of
        (reply, True) \<Rightarrow> ([reply], True)
      | (reply, False) \<Rightarrow>
          (case detach_task J show_uuid owner_uid sid rs of
             (replies, flag) \<Rightarrow> (reply # replies, flag)))"

section \<open>Paths\<close>

definition client_ipc_socket_path :: "(uuid \<Rightarrow> string) \<Rightarrow> string option \<Rightarrow> uuid \<Rightarrow> string" where
  "client_ipc_socket_path show_uuid xdg sid =
     (let runtime_dir = (case xdg of Some d \<Rightarrow> d | None \<Rightarrow> ''/tmp'')
      in path_join (path_join runtime_dir ''neosh'') (show_uuid sid @ ''.sock''))"

text \<open>
  \<open>Path::file_name\<close> on Unix: the last component; empty components and single dots do not count, and
  two dots are no name.
\<close>

definition file_name :: "string \<Rightarrow> string option" where
  "file_name p =
     (let parts = filter (\<lambda>c. c \<noteq> [] \<and> c \<noteq> ''.'') (split_on (CHR ''/'') p)
      in if parts = [] \<or> last parts = ''..'' then None else Some (last parts))"

text \<open>
  \<open>Path::file_stem\<close> and \<open>Path::extension\<close>: the name before and after its last dot; a name whose
  only dot is its first character has no extension.
\<close>

definition file_stem :: "string \<Rightarrow> string option" where
  "file_stem p = map_option (\<lambda>name.
     case rsplit_once (CHR ''.'') name of
       Some (a, b) \<Rightarrow> if a = [] then name else a
     | None \<Rightarrow> name) (file_name p)"

definition extension :: "string \<Rightarrow> string option" where
  "extension p = Option.bind (file_name p) (\<lambda>name.
     case rsplit_once (CHR ''.'') name of
       Some (a, b) \<Rightarrow> if a = [] then None else Some b
     | None \<Rightarrow> None)"

text \<open>\<open>parse_uuid\<close> is \<open>Uuid::parse_str\<close>; paths are valid UTF-8.\<close>

definition session_id_from_socket_path ::
  "(string \<Rightarrow> string + uuid) \<Rightarrow> string \<Rightarrow> cli_error + uuid" where
  "session_id_from_socket_path parse_uuid path =
     (case file_stem path of
        None \<Rightarrow> Inl (CliIo (''invalid session socket name: '' @ path))
      | Some stem \<Rightarrow>
          (case parse_uuid stem of
             Inl e \<Rightarrow> Inl (CliIo (''invalid session socket id: '' @ e))
           | Inr sid \<Rightarrow> Inr sid))"

text \<open>
  \<open>entries\<close> is what \<open>read_dir\<close> returns for the directory: the names of its entries, \<open>None\<close> for one
  that could not be read.
\<close>

definition discover_active_socket ::
  "string option \<Rightarrow> string + string option list \<Rightarrow> cli_error + string" where
  "discover_active_socket xdg entries =
     (let dir = path_join (case xdg of Some d \<Rightarrow> d | None \<Rightarrow> ''/tmp'') ''neosh''
      in case entries of
           Inl e \<Rightarrow> Inl (CliIo (''read '' @ dir @ '' failed: '' @ e))
         | Inr es \<Rightarrow>
             (case List.find (\<lambda>p. extension p = Some ''sock'')
                     (map (path_join dir) (map the (filter (\<lambda>x. x \<noteq> None) es))) of
                Some p \<Rightarrow> Inr p
              | None \<Rightarrow> Inl (CliIo ''no active session socket found'')))"

section \<open>The command\<close>

text \<open>
  \<open>neosh detach\<close>: the socket, the request it writes to it (its session id), and the answer. Each
  call on the stream may fail. The result is also the request that was written.
\<close>

record 'v detach_env =
  de_connect :: "string \<Rightarrow> string + unit"
  de_write :: "string + unit"
  de_shutdown :: "string + unit"
  de_answer :: "string + bytes"

definition detach_cmd ::
  "'v json_api \<Rightarrow> (uuid \<Rightarrow> string) \<Rightarrow> (string \<Rightarrow> string + uuid) \<Rightarrow> string option \<Rightarrow> string + string option list
   \<Rightarrow> 'v detach_env \<Rightarrow> uuid option \<Rightarrow> (cli_error + unit) \<times> (string \<times> uuid) option" where
  "detach_cmd J show_uuid parse_uuid xdg entries env requested =
     (case (case requested of
              Some sid \<Rightarrow> Inr (client_ipc_socket_path show_uuid xdg sid)
            | None \<Rightarrow> discover_active_socket xdg entries) of
        Inl e \<Rightarrow> (Inl e, None)
      | Inr path \<Rightarrow>
     (case session_id_from_socket_path parse_uuid path of
        Inl e \<Rightarrow> (Inl e, None)
      | Inr path_sid \<Rightarrow>
          let resolved = (case requested of Some sid \<Rightarrow> sid | None \<Rightarrow> path_sid)
          in
     (case de_connect env path of
        Inl e \<Rightarrow> (Inl (CliIo (''connect '' @ path @ '' failed: '' @ e)), None)
      | Inr _ \<Rightarrow>
     (case de_write env of
        Inl e \<Rightarrow> (Inl (CliIo e), None)
      | Inr _ \<Rightarrow>
          let req = Some (path, resolved)
          in
     (case de_shutdown env of
        Inl e \<Rightarrow> (Inl (CliIo e), req)
      | Inr _ \<Rightarrow>
     (case de_answer env of
        Inl e \<Rightarrow> (Inl (CliIo e), req)
      | Inr buf \<Rightarrow>
     (case js_from_slice J buf of
        Inl e \<Rightarrow> (Inl (CliProtocol e), req)
      | Inr v \<Rightarrow>
          if Option.bind (js_get J v ''ok'') (js_as_bool J) \<noteq> Some True
          then (Inl (CliProtocol (''detach failed: '' @ js_display J v)), req)
          else (Inr (), req))))))))"

section \<open>Who can detach\<close>

definition asks_detach :: "'v json_api \<Rightarrow> (uuid \<Rightarrow> string) \<Rightarrow> u32 \<Rightarrow> uuid \<Rightarrow> detach_req \<Rightarrow> bool" where
  "asks_detach J show_uuid owner sid r \<longleftrightarrow>
     dr_cred r = (0, owner) \<and> dr_sent r \<and>
     (\<exists>buf v. dr_body r = Inr buf \<and> js_from_slice J buf = Inr v \<and>
        js_str J v ''type'' = Some ''DETACH'' \<and> js_str J v ''session_id'' = Some (show_uuid sid))"

lemma detach_round_asks:
  "snd (detach_round J show_uuid owner sid r) \<longleftrightarrow> asks_detach J show_uuid owner sid r"
  "fst (detach_round J show_uuid owner sid r) = DetachOk \<longleftrightarrow> asks_detach J show_uuid owner sid r"
  by (cases "dr_cred r"; auto simp: detach_round_def asks_detach_def peer_uid_matches_owner_def
      is_valid_detach_request_def split: sum.splits)+

text \<open>
  C35: The control socket detaches the session exactly when a process of the owner's user id, among
  those accepted before the first failure of \<open>accept\<close>, asks for this session by id and the
  \<open>DETACH\<close> can be sent; that request is then the last one answered and the only one answered with
  success.
\<close>

theorem socket_detaches_for_owner:
  "detach_task J show_uuid owner sid rs = (replies, flag) \<Longrightarrow>
   (flag \<longleftrightarrow> (\<exists>r\<in>set (takeWhile (\<lambda>x. x \<noteq> None) rs). asks_detach J show_uuid owner sid (the r))) \<and>
   (flag \<longrightarrow> replies \<noteq> [] \<and> last replies = DetachOk) \<and>
   (\<forall>i<length replies. replies ! i = DetachOk \<longrightarrow> flag \<and> Suc i = length replies)"
proof (induction J show_uuid owner sid rs arbitrary: replies flag rule: detach_task.induct)
  case (3 J show_uuid owner sid r rs)
  note asks = detach_round_asks [of J show_uuid owner sid r]
  show ?case
  proof (cases "detach_round J show_uuid owner sid r")
    case (Pair reply b)
    show ?thesis
    proof (cases b)
      case True
      then have "asks_detach J show_uuid owner sid r" and "reply = DetachOk"
        using asks Pair by simp_all
      moreover have "replies = [reply]" and flag using 3 Pair True by simp_all
      ultimately show ?thesis by simp
    next
      case False
      then obtain replies' where dt: "detach_task J show_uuid owner sid rs = (replies', flag)"
        and "replies = reply # replies'"
        using 3 Pair by (auto split: prod.splits)
      moreover have "reply \<noteq> DetachOk" using asks Pair False by simp
      ultimately have "(flag \<longleftrightarrow> (\<exists>r\<in>set (takeWhile (\<lambda>x. x \<noteq> None) rs). asks_detach J show_uuid owner sid (the r))) \<and>
          (flag \<longrightarrow> replies' \<noteq> [] \<and> last replies' = DetachOk) \<and>
          (\<forall>i<length replies'. replies' ! i = DetachOk \<longrightarrow> flag \<and> Suc i = length replies')"
        using False Pair by (intro "3.IH" [of reply False, OF _ refl dt]) simp
      with \<open>replies = reply # replies'\<close> \<open>reply \<noteq> DetachOk\<close> Pair False asks show ?thesis
        by (auto simp: nth_Cons split: nat.splits)
    qed
  qed
qed simp_all

text \<open>A client whose messages are bytes, for the evaluation of requests.\<close>

definition demo_detach_json :: "bytes json_api" where
  "demo_detach_json =
     \<lparr>js_get = (\<lambda>v k. if v = [1, 7] then Some (if k = ''type'' then [0] else [7]) else None),
      js_as_str = (\<lambda>v. if v = [0] then Some ''DETACH'' else if v = [7] then Some ''7'' else None),
      js_as_bool = (\<lambda>_. None), js_from_slice = Inr, js_to_vec = Inr, js_display = (\<lambda>_. []),
      js_object = (\<lambda>_. []), js_auth_ok = (\<lambda>_. Inl []), js_resume_ok = (\<lambda>_. Inl []), js_unknown = (\<lambda>v. v)\<rparr>"

theorem socket_detaches_for_owner_witness:
  "let rs = [Some \<lparr>dr_cred = (0, 5), dr_body = Inr [1, 7], dr_sent = True\<rparr>,
             Some \<lparr>dr_cred = (0, 1000), dr_body = Inr [1, 7], dr_sent = True\<rparr>]
   in detach_task demo_detach_json (\<lambda>_. ''7'') 1000 7 rs =
        ([DetachError ''peer uid mismatch'', DetachOk], True) \<and>
      (\<exists>r\<in>set (takeWhile (\<lambda>x. x \<noteq> None) rs). asks_detach demo_detach_json (\<lambda>_. ''7'') 1000 7 (the r))"
proof -
  have t: "detach_task demo_detach_json (\<lambda>_. ''7'') 1000 7
      [Some \<lparr>dr_cred = (0, 5), dr_body = Inr [1, 7], dr_sent = True\<rparr>,
       Some \<lparr>dr_cred = (0, 1000), dr_body = Inr [1, 7], dr_sent = True\<rparr>] =
      ([DetachError ''peer uid mismatch'', DetachOk], True)"
    by (simp add: detach_round_def peer_uid_matches_owner_def is_valid_detach_request_def js_str_def
        demo_detach_json_def)
  from socket_detaches_for_owner [OF t] t show ?thesis unfolding Let_def by blast
qed

section \<open>Sockets and sessions\<close>

lemma split_on_append_sep: "split_on c (a @ c # b) = split_on c a @ split_on c b"
proof (induction a)
  case (Cons x a)
  have "split_on c a \<noteq> []" by simp
  then obtain p ps where "split_on c a = p # ps" by (cases "split_on c a") auto
  with Cons show ?case by simp
qed simp

lemma file_name_join:
  assumes "CHR ''/'' \<notin> set name" and "name \<notin> {[], ''.'', ''..''}" and "base \<noteq> []" and "last base \<noteq> CHR ''/''"
  shows "file_name (path_join base name) = Some name"
proof -
  have "\<not> (name \<noteq> [] \<and> hd name = CHR ''/'')" using assms(1,2) by (cases name) auto
  then have "path_join base name = base @ CHR ''/'' # name"
    unfolding path_join_def using assms(3,4) by simp
  then show ?thesis using assms(1,2)
    by (simp add: file_name_def split_on_append_sep split_on_free)
qed

lemma file_stem_socket:
  assumes "uuid_text show_uuid"
  shows "file_stem (client_ipc_socket_path show_uuid xdg sid) = Some (show_uuid sid)"
    and "extension (client_ipc_socket_path show_uuid xdg sid) = Some ''sock''"
proof -
  let ?dir = "case xdg of Some d \<Rightarrow> d | None \<Rightarrow> ''/tmp''"
  let ?base = "path_join ?dir ''neosh''"
  have u: "show_uuid sid \<noteq> []" "CHR ''/'' \<notin> set (show_uuid sid)"
    using assms by (simp_all add: uuid_text_def)
  have b: "?base \<noteq> []" "last ?base \<noteq> CHR ''/''" by (auto simp: path_join_def)
  have n: "show_uuid sid @ ''.sock'' \<notin> {[], ''.'', ''..''}"
  proof -
    have "length (show_uuid sid @ ''.sock'') > 2" by simp
    then show ?thesis by (auto simp del: length_append)
  qed
  have "file_name (client_ipc_socket_path show_uuid xdg sid) = Some (show_uuid sid @ ''.sock'')"
    unfolding client_ipc_socket_path_def Let_def using u(2) by (intro file_name_join n b) simp
  moreover have "rsplit_once (CHR ''.'') (show_uuid sid @ CHR ''.'' # ''sock'') = Some (show_uuid sid, ''sock'')"
    by (rule rsplit_once_append) simp
  ultimately show "file_stem (client_ipc_socket_path show_uuid xdg sid) = Some (show_uuid sid)"
    and "extension (client_ipc_socket_path show_uuid xdg sid) = Some ''sock''"
    using u(1) by (simp_all add: file_stem_def extension_def)
qed

text \<open>
  Socket paths and session ids determine each other: the id read from a session's socket path is
  that session's, the path counts as a socket in the search for an active session, and two sessions
  never share a path.
\<close>

theorem socket_path_round_trip:
  assumes "uuid_text show_uuid" and "\<And>u. parse_uuid (show_uuid u) = Inr u"
  shows "session_id_from_socket_path parse_uuid (client_ipc_socket_path show_uuid xdg sid) = Inr sid \<and>
    extension (client_ipc_socket_path show_uuid xdg sid) = Some ''sock'' \<and>
    (client_ipc_socket_path show_uuid xdg sid = client_ipc_socket_path show_uuid xdg sid' \<longleftrightarrow> sid = sid')"
proof -
  have r: "session_id_from_socket_path parse_uuid (client_ipc_socket_path show_uuid xdg s) = Inr s" for s
    by (simp add: session_id_from_socket_path_def file_stem_socket(1) [OF assms(1)] assms(2))
  then have "client_ipc_socket_path show_uuid xdg sid = client_ipc_socket_path show_uuid xdg sid' \<longleftrightarrow> sid = sid'"
    by (metis sum.inject(2))
  with r file_stem_socket(2) [OF assms(1)] show ?thesis by blast
qed

definition demo_parse_uuid :: "string \<Rightarrow> string + uuid" where
  "demo_parse_uuid s = (case parse_uint (2 ^ 128) s of None \<Rightarrow> Inl ''invalid'' | Some n \<Rightarrow> Inr (of_nat n))"

lemma demo_parse_show: "demo_parse_uuid (demo_uuid u) = Inr u"
proof -
  have "unat u < 2 ^ 128" using unsigned_less [of u, where ?'a = nat] by simp
  then show ?thesis by (simp only: demo_parse_uuid_def demo_uuid_def parse_uint_show_nat) simp
qed

theorem socket_path_round_trip_witness:
  "session_id_from_socket_path demo_parse_uuid (client_ipc_socket_path demo_uuid None 7) = Inr 7"
  using socket_path_round_trip [OF demo_uuid_text demo_parse_show, of None 7 7] by blast

end
