(* ===== verification/Client_Commands.thy ===== *)
theory Client_Commands
  imports Client_Session
begin

text \<open>
  The commands of the client that run sessions (\<open>connect_cmd\<close>, \<open>resume_cmd\<close> and
  \<open>resume_with_backoff\<close> in \<open>src/src/bin/neosh.rs\<close>): the bootstrap over ssh, the session, and the
  automatic resumption after a lost connection with its bounded number of attempts.
\<close>

section \<open>Contexts and attempts\<close>

text \<open>
  What stays the same during a command, and what one attempt gets from outside: the answers of
  \<open>ssh\<close> to its two tries, the QUIC interface, the session's environment with the bytes the server
  sends on the control stream, and the clock.
\<close>

record cmd_ctx =
  cx_crypto :: crypto
  cx_show_uuid :: "uuid \<Rightarrow> string"
  cx_from_json :: "string \<Rightarrow> string + bootstrap_payload"
  cx_neoshd_path :: string
  cx_idle :: u64
  cx_terminal :: bool

record ('addr, 'con, 'v) attempt =
  at_ssh1 :: ssh
  at_ssh2 :: ssh
  at_quic :: "('addr, 'con) quic_api"
  at_env :: "'v sess_env"
  at_recv :: bytes
  at_now :: system_time
  at_stamp :: system_time

text \<open>
  The state of a command: the files of the cache, the sessions it ran with what each was given and
  left, and the delays it slept between them.
\<close>

record cmd_state =
  cm_files :: files
  cm_runs :: "(bootstrap_payload \<times> session_mode \<times> (cli_error + unit) \<times> client_sess) list"
  cm_sleeps :: "duration list"

definition cmd_start :: "files \<Rightarrow> cmd_state" where
  "cmd_start fs = \<lparr>cm_files = fs, cm_runs = [], cm_sleeps = []\<rparr>"

text \<open>\<open>Duration::from_millis(100)\<close>, and \<open>saturating_mul\<close> on durations.\<close>

definition initial_backoff :: duration where "initial_backoff = 100000000"

definition duration_max :: duration where
  "duration_max = (2 ^ 64 - 1) * nanos_per_sec + 999999999"

definition duration_saturating_mul :: "duration \<Rightarrow> nat \<Rightarrow> duration" where
  "duration_saturating_mul d n = min (d * n) duration_max"

section \<open>One attempt\<close>

definition resume_entry_expired :: "cache_entry \<Rightarrow> u64 \<Rightarrow> bool" where
  "resume_entry_expired entry now \<longleftrightarrow> ce_resume_token_expires_at entry \<le> now"

definition validate_renew_payload :: "uuid \<Rightarrow> bootstrap_payload \<Rightarrow> cli_error + unit" where
  "validate_renew_payload expected payload =
     (if bp_session_id payload \<noteq> expected
      then Inl (CliProtocol ''renew-auth returned mismatched session_id'')
      else Inr ())"

definition expired_text :: string where
  "expired_text = ''resume token expired; start a new connect''"

definition attempt_bootstrap ::
  "cmd_ctx \<Rightarrow> ('addr, 'con, 'v) attempt \<Rightarrow> string \<Rightarrow> bootstrap_mode \<Rightarrow> string option
   \<Rightarrow> cli_error + bootstrap_payload" where
  "attempt_bootstrap cx a target mode log_file =
     ssh_bootstrap_with_retry (cx_show_uuid cx) (at_ssh1 a) (at_ssh2 a) (cx_from_json cx) target mode
       (cx_neoshd_path cx) log_file"

text \<open>A session of its own on the files of the command.\<close>

definition attempt_session ::
  "cmd_ctx \<Rightarrow> ('addr, 'con, 'v) attempt \<Rightarrow> string \<Rightarrow> bootstrap_payload \<Rightarrow> session_mode \<Rightarrow> cmd_state
   \<Rightarrow> (cli_error + unit) \<times> cmd_state" where
  "attempt_session cx a target payload mode st =
     (case run_session (cx_crypto cx) (at_quic a) (at_env a) target payload mode (cx_idle cx)
             \<lparr>cs_recv = at_recv a, cs_sent = [], cs_files = cm_files st, cs_socket = False,
              cs_closed = False, cs_log = []\<rparr> of
        (r, s) \<Rightarrow>
          (r, st\<lparr>cm_files := cs_files s, cm_runs := cm_runs st @ [(payload, mode, r, s)]\<rparr>))"

definition sleep_for :: "duration \<Rightarrow> cmd_state \<Rightarrow> cmd_state" where
  "sleep_for d st = st\<lparr>cm_sleeps := cm_sleeps st @ [d]\<rparr>"

definition cached_entry ::
  "('addr, 'con, 'v) attempt \<Rightarrow> uuid \<Rightarrow> cmd_state \<Rightarrow> cli_error + cache_entry" where
  "cached_entry a sid st =
     (case cache_get (ev_io (at_env a)) (ev_root (at_env a)) sid (cm_files st) of
        Inl e \<Rightarrow> Inl (CliCache (cache_error_text e))
      | Inr entry \<Rightarrow> Inr entry)"

text \<open>\<open>let _ = cache.delete(session_id)\<close>.\<close>

definition forget_entry :: "('addr, 'con, 'v) attempt \<Rightarrow> uuid \<Rightarrow> cmd_state \<Rightarrow> cmd_state" where
  "forget_entry a sid st =
     st\<lparr>cm_files := snd (cache_delete (ev_io (at_env a)) (ev_root (at_env a)) sid (cm_files st))\<rparr>"

section \<open>Resuming\<close>

text \<open>The new address of a session that moved is stored before it is used.\<close>

definition update_addr ::
  "('addr, 'con, 'v) attempt \<Rightarrow> cache_entry \<Rightarrow> bootstrap_payload \<Rightarrow> cmd_state
   \<Rightarrow> (cli_error + unit) \<times> cmd_state" where
  "update_addr a cached payload st =
     (if bp_quic_addr payload \<noteq> ce_quic_addr cached
      then (case cache_put (ev_io (at_env a)) (ev_root (at_env a))
                   (cached\<lparr>ce_quic_addr := bp_quic_addr payload,
                           ce_updated_at := now_epoch_seconds (at_stamp a)\<rparr>) (cm_files st) of
              (Inl e, fs) \<Rightarrow> (Inl (CliCache (cache_error_text e)), st\<lparr>cm_files := fs\<rparr>)
            | (Inr _, fs) \<Rightarrow> (Inr (), st\<lparr>cm_files := fs\<rparr>))
      else (Inr (), st))"

text \<open>The body of the loop up to the session, and the session: the result is the loop's match.\<close>

definition resume_attempt ::
  "cmd_ctx \<Rightarrow> ('addr, 'con, 'v) attempt \<Rightarrow> uuid \<Rightarrow> string \<Rightarrow> cmd_state
   \<Rightarrow> (cli_error + (cli_error + unit)) \<times> cmd_state" where
  "resume_attempt cx a sid target st =
     (case cached_entry a sid st of
        Inl e \<Rightarrow> (Inl e, st)
      | Inr cached \<Rightarrow>
          if resume_entry_expired cached (now_epoch_seconds (at_now a))
          then (Inl (CliCache expired_text), forget_entry a sid st)
          else
     (case attempt_bootstrap cx a target (ModeRenew sid) None of
        Inl e \<Rightarrow> (Inl e, st)
      | Inr payload \<Rightarrow>
     (case validate_renew_payload sid payload of
        Inl e \<Rightarrow> (Inl e, st)
      | Inr _ \<Rightarrow>
          if bp_cert_fingerprint payload \<noteq> ce_cert_fingerprint cached
          then (Inl (CliProtocol ''cert_fingerprint changed for existing session_id''), st)
          else
     (case update_addr a cached payload st of
        (Inl e, st') \<Rightarrow> (Inl e, st')
      | (Inr _, st') \<Rightarrow>
     (case attempt_session cx a target payload (SmResume sid (ce_resume_token cached)) st' of
        (r, st'') \<Rightarrow> (Inr r, st''))))))"

fun may_retry :: "cli_error \<Rightarrow> bool" where
  "may_retry CliAuthFailed = True"
| "may_retry (CliDisconnected sid) = True"
| "may_retry e = False"

fun resume_loop ::
  "cmd_ctx \<Rightarrow> (nat \<Rightarrow> ('addr, 'con, 'v) attempt) \<Rightarrow> uuid \<Rightarrow> string \<Rightarrow> nat list \<Rightarrow> duration \<Rightarrow> cmd_state
   \<Rightarrow> (cli_error + unit) \<times> cmd_state" where
  "resume_loop cx ats sid target [] backoff st =
     (Inl (CliProtocol ''resume attempts exhausted after connection/auth failures''), st)"
| "resume_loop cx ats sid target (attempt # rest) backoff st =
     (case resume_attempt cx (ats attempt) sid target st of
        (Inl e, st') \<Rightarrow> (Inl e, st')
      | (Inr (Inr u), st') \<Rightarrow> (Inr (), st')
      | (Inr (Inl e), st') \<Rightarrow>
          if e = CliClosed then (Inr (), st')
          else if may_retry e \<and> attempt < 2
            then resume_loop cx ats sid target rest (duration_saturating_mul backoff 2)
                   (sleep_for backoff st')
          else (Inl e, st'))"

definition resume_with_backoff ::
  "cmd_ctx \<Rightarrow> (nat \<Rightarrow> ('addr, 'con, 'v) attempt) \<Rightarrow> uuid \<Rightarrow> string \<Rightarrow> cmd_state
   \<Rightarrow> (cli_error + unit) \<times> cmd_state" where
  "resume_with_backoff cx ats sid target st = resume_loop cx ats sid target [0, 1, 2] initial_backoff st"

text \<open>\<open>a0\<close> is what the command sees before the loop.\<close>

definition resume_cmd ::
  "cmd_ctx \<Rightarrow> ('addr, 'con, 'v) attempt \<Rightarrow> (nat \<Rightarrow> ('addr, 'con, 'v) attempt) \<Rightarrow> uuid \<Rightarrow> string option
   \<Rightarrow> cmd_state \<Rightarrow> (cli_error + unit) \<times> cmd_state" where
  "resume_cmd cx a0 ats sid target_override st =
     (case cached_entry a0 sid st of
        Inl e \<Rightarrow> (Inl e, st)
      | Inr cached \<Rightarrow>
          if resume_entry_expired cached (now_epoch_seconds (at_now a0))
          then (Inl (CliCache expired_text), forget_entry a0 sid st)
          else
            let target = (case target_override of Some t \<Rightarrow> t | None \<Rightarrow> ce_ssh_target cached)
            in if target = []
               then (Inl (CliCache ''missing ssh_target in cache; pass --target explicitly''), st)
               else resume_with_backoff cx ats sid target st)"

section \<open>Connecting\<close>

fun connect_loop ::
  "cmd_ctx \<Rightarrow> (nat \<Rightarrow> ('addr, 'con, 'v) attempt) \<Rightarrow> (nat \<Rightarrow> ('addr, 'con, 'v) attempt) \<Rightarrow> string
   \<Rightarrow> bootstrap_mode \<Rightarrow> string option \<Rightarrow> nat list \<Rightarrow> duration \<Rightarrow> cmd_state
   \<Rightarrow> (cli_error + unit) \<times> cmd_state" where
  "connect_loop cx ats rats target mode log_file [] backoff st = (Inl CliAuthFailed, st)"
| "connect_loop cx ats rats target mode log_file (attempt # rest) backoff st =
     (case attempt_bootstrap cx (ats attempt) target mode log_file of
        Inl e \<Rightarrow> (Inl e, st)
      | Inr payload \<Rightarrow>
          (case attempt_session cx (ats attempt) target payload SmAttach st of
             (Inr _, st') \<Rightarrow> (Inr (), st')
           | (Inl e, st') \<Rightarrow>
               (case e of
                  CliClosed \<Rightarrow> (Inr (), st')
                | CliAuthFailed \<Rightarrow>
                    if attempt = 0
                    then connect_loop cx ats rats target mode log_file rest
                           (duration_saturating_mul backoff 2) (sleep_for backoff st')
                    else (Inl CliAuthFailed, st')
                | CliDisconnected sid \<Rightarrow>
                    if \<not> cx_terminal cx then (Inr (), st')
                    else resume_with_backoff cx rats sid target st'
                | _ \<Rightarrow> (Inl e, st'))))"

definition connect_cmd ::
  "cmd_ctx \<Rightarrow> (nat \<Rightarrow> ('addr, 'con, 'v) attempt) \<Rightarrow> (nat \<Rightarrow> ('addr, 'con, 'v) attempt) \<Rightarrow> string
   \<Rightarrow> string option \<Rightarrow> string option \<Rightarrow> string option \<Rightarrow> cmd_state \<Rightarrow> (cli_error + unit) \<times> cmd_state" where
  "connect_cmd cx ats rats target dir command log_file st =
     connect_loop cx ats rats target (ModeNew dir command) log_file [0, 1] initial_backoff st"

section \<open>What an attempt leaves\<close>

lemma attempt_session_runs:
  "attempt_session cx a target payload mode st = (r, st') \<Longrightarrow>
   \<exists>s. cm_runs st' = cm_runs st @ [(payload, mode, r, s)] \<and> cm_sleeps st' = cm_sleeps st \<and>
     cm_files st' = cs_files s \<and>
     run_session (cx_crypto cx) (at_quic a) (at_env a) target payload mode (cx_idle cx)
       \<lparr>cs_recv = at_recv a, cs_sent = [], cs_files = cm_files st, cs_socket = False,
        cs_closed = False, cs_log = []\<rparr> = (r, s)"
  by (auto simp: attempt_session_def split: prod.splits)

lemma update_addr_runs:
  "update_addr a cached payload st = (r, st') \<Longrightarrow> cm_runs st' = cm_runs st \<and> cm_sleeps st' = cm_sleeps st"
  by (auto simp: update_addr_def split: prod.splits sum.splits if_splits)

text \<open>The two ways an attempt ends: before its session, or with the result of its session.\<close>

lemma resume_attempt_Inl:
  "resume_attempt cx a sid target st = (Inl e, st') \<Longrightarrow>
   cm_runs st' = cm_runs st \<and> cm_sleeps st' = cm_sleeps st"
  by (auto simp: resume_attempt_def forget_entry_def split: sum.splits prod.splits if_splits
      dest: update_addr_runs)

lemma resume_attempt_Inr:
  assumes "resume_attempt cx a sid target st = (Inr r, st')"
  obtains cached payload st1 s where "cached_entry a sid st = Inr cached"
    and "\<not> resume_entry_expired cached (now_epoch_seconds (at_now a))"
    and "bp_session_id payload = sid" and "bp_cert_fingerprint payload = ce_cert_fingerprint cached"
    and "update_addr a cached payload st = (Inr (), st1)"
    and "attempt_session cx a target payload (SmResume sid (ce_resume_token cached)) st1 = (r, st')"
  using assms
  by (auto simp: resume_attempt_def validate_renew_payload_def split: sum.splits prod.splits if_splits)

lemma resume_attempt_one_run:
  assumes "resume_attempt cx a sid target st = (Inr r, st')"
  shows "\<exists>payload mode s. cm_runs st' = cm_runs st @ [(payload, mode, r, s)] \<and> cm_sleeps st' = cm_sleeps st"
  using assms
  by (elim resume_attempt_Inr) (auto dest!: attempt_session_runs update_addr_runs)

lemma backoff_values:
  "initial_backoff = 100000000" "duration_saturating_mul initial_backoff 2 = 200000000"
  "duration_saturating_mul 100000000 2 = 200000000"
  by (simp_all add: initial_backoff_def duration_saturating_mul_def duration_max_def nanos_per_sec_def)

text \<open>
  One round of the loop, on the results it leads to: \<open>ends\<close> is what makes it stop.
\<close>

definition run_result :: "bootstrap_payload \<times> session_mode \<times> (cli_error + unit) \<times> client_sess \<Rightarrow> cli_error + unit" where
  "run_result x = fst (snd (snd x))"

definition resume_outcome ::
  "cmd_ctx \<Rightarrow> (nat \<Rightarrow> ('addr, 'con, 'v) attempt) \<Rightarrow> uuid \<Rightarrow> string \<Rightarrow> cli_error + unit \<Rightarrow> cmd_state \<Rightarrow> bool" where
  "resume_outcome cx ats sid target r st \<longleftrightarrow>
     (\<exists>n<3. \<exists>st1 e. resume_attempt cx (ats n) sid target st1 = (Inl e, st) \<and> r = Inl e) \<or>
     (cm_runs st \<noteq> [] \<and>
      r = (if run_result (last (cm_runs st)) = Inl CliClosed then Inr ()
           else run_result (last (cm_runs st))))"

lemma resume_round:
  assumes "resume_loop cx ats sid target (n # rest) b st = (r, st')" and "n < 3"
  shows "(resume_outcome cx ats sid target r st' \<and> cm_sleeps st' = cm_sleeps st \<and>
      length (cm_runs st') \<le> Suc (length (cm_runs st))) \<or>
    (n < 2 \<and> (\<exists>st1 x. resume_loop cx ats sid target rest (duration_saturating_mul b 2) st1 = (r, st') \<and>
      cm_sleeps st1 = cm_sleeps st @ [b] \<and> cm_runs st1 = cm_runs st @ [x]))"
proof (cases "resume_attempt cx (ats n) sid target st")
  case (Pair q t)
  show ?thesis
  proof (cases q)
    case (Inl e)
    then have "r = Inl e" "st' = t" using Pair assms(1) by auto
    then show ?thesis using Pair Inl assms(2) resume_attempt_Inl [of cx "ats n" sid target st e t]
      unfolding resume_outcome_def by auto
  next
    case (Inr res)
    then have "resume_attempt cx (ats n) sid target st = (Inr res, t)" using Pair by simp
    from resume_attempt_one_run [OF this] obtain p m s
      where t: "cm_runs t = cm_runs st @ [(p, m, res, s)]" "cm_sleeps t = cm_sleeps st" by blast
    show ?thesis
    proof (cases "\<exists>e. res = Inl e \<and> may_retry e \<and> n < 2")
      case True
      then obtain e where e: "res = Inl e" "may_retry e" "n < 2" by blast
      then have "e \<noteq> CliClosed" by auto
      then have "resume_loop cx ats sid target rest (duration_saturating_mul b 2) (sleep_for b t) = (r, st')"
        using assms(1) Pair Inr e by simp
      with t e(3) show ?thesis
        by (intro disjI2 conjI exI [of _ "sleep_for b t"] exI) (auto simp: sleep_for_def)
    next
      case False
      have "r = (if res = Inl CliClosed then Inr () else res) \<and> st' = t"
      proof (cases res)
        case (Inl e)
        then show ?thesis using False assms(1) Pair Inr by (auto split: if_splits)
      next
        case r: (Inr u)
        then show ?thesis using assms(1) Pair Inr by simp
      qed
      then show ?thesis using t unfolding resume_outcome_def run_result_def by simp
    qed
  qed
qed

text \<open>
  C34: Resuming ends after at most three sessions, with delays of 100 and then 200 milliseconds
  between them; and its result is that of the last session (a closed session counts as success) or
  the error that kept an attempt from having one. The error for exhausted attempts at the end of
  the function is never the reason.
\<close>

theorem resume_bounded:
  assumes "resume_with_backoff cx ats sid target (cmd_start fs) = (r, st)"
  shows "length (cm_runs st) \<le> 3 \<and> (\<exists>k\<le>2. cm_sleeps st = take k [100000000, 200000000]) \<and>
    resume_outcome cx ats sid target r st"
proof -
  let ?b = initial_backoff and ?m = "duration_saturating_mul initial_backoff 2"
  let ?s = "cmd_start fs"
  have s: "cm_runs ?s = []" "cm_sleeps ?s = []" by (simp_all add: cmd_start_def)
  from assms have l: "resume_loop cx ats sid target (0 # [1, 2]) ?b ?s = (r, st)"
    by (simp add: resume_with_backoff_def)
  have lt: "0 < (3::nat)" "1 < (3::nat)" "2 < (3::nat)" by simp_all
  show ?thesis
    using resume_round [OF l lt(1)]
  proof (elim disjE exE conjE)
    assume "resume_outcome cx ats sid target r st" "cm_sleeps st = cm_sleeps ?s"
      "length (cm_runs st) \<le> Suc (length (cm_runs ?s))"
    then show ?thesis using s by (intro conjI exI [of _ 0]) auto
  next
    fix st1 x
    assume l1: "resume_loop cx ats sid target [1, 2] ?m st1 = (r, st)"
      and s1: "cm_sleeps st1 = cm_sleeps ?s @ [?b]" "cm_runs st1 = cm_runs ?s @ [x]"
    show ?thesis
      using resume_round [OF l1 lt(2)]
    proof (elim disjE exE conjE)
      assume "resume_outcome cx ats sid target r st" "cm_sleeps st = cm_sleeps st1"
        "length (cm_runs st) \<le> Suc (length (cm_runs st1))"
      then show ?thesis using s s1 by (intro conjI exI [of _ 1]) (auto simp: backoff_values)
    next
      fix st2 y
      assume l2: "resume_loop cx ats sid target [2] (duration_saturating_mul ?m 2) st2 = (r, st)"
        and s2: "cm_sleeps st2 = cm_sleeps st1 @ [?m]" "cm_runs st2 = cm_runs st1 @ [y]"
      from resume_round [OF l2 lt(3)] have "resume_outcome cx ats sid target r st" "cm_sleeps st = cm_sleeps st2"
        "length (cm_runs st) \<le> Suc (length (cm_runs st2))" by auto
      then show ?thesis using s s1 s2 by (intro conjI exI [of _ 2]) (auto simp: backoff_values)
    qed
  qed
qed

section \<open>The pinned certificate across resumptions\<close>

text \<open>
  What is known of a failed write: the file it leaves is not read as an entry (a JSON object that
  was cut short).
\<close>

definition torn_unreadable :: "cache_io \<Rightarrow> bool" where
  "torn_unreadable io \<longleftrightarrow>
     (\<forall>p c e left. ci_write io p c = Inl (e, Some left) \<longrightarrow> (\<exists>x. ci_from_json io left = Inl x))"

text \<open>The file of a session, if it can be read at all, holds the fingerprint \<open>fp\<close>.\<close>

definition pinned_file :: "cache_io \<Rightarrow> string \<Rightarrow> uuid \<Rightarrow> string \<Rightarrow> files \<Rightarrow> bool" where
  "pinned_file io root sid fp fs \<longleftrightarrow>
     (\<forall>data e. fs (cache_path io root sid) = Some data \<longrightarrow> ci_from_json io data = Inr e \<longrightarrow>
        ce_cert_fingerprint e = fp)"

lemma pinned_file_get:
  "pinned_file io root sid fp fs \<Longrightarrow> cache_get io root sid fs = Inr e \<Longrightarrow> ce_cert_fingerprint e = fp"
  by (auto simp: pinned_file_def cache_get_def Let_def split: sum.splits option.splits)

lemma pinned_file_of_get:
  "cache_get io root sid fs = Inr e \<Longrightarrow> pinned_file io root sid (ce_cert_fingerprint e) fs"
  by (auto simp: pinned_file_def cache_get_def Let_def split: sum.splits option.splits)

lemma pinned_file_put:
  assumes "uuid_text (ci_show_uuid io)" and "entry_json io" and "torn_unreadable io"
    and "pinned_file io root sid fp fs" and "cache_put io root e fs = (r, fs')"
    and "ce_session_id e = sid \<Longrightarrow> ce_cert_fingerprint e = fp"
  shows "pinned_file io root sid fp fs'"
proof (cases "ce_session_id e = sid")
  case False
  then have "cache_path io root sid \<noteq> cache_path io root (ce_session_id e)"
    using cache_path_eq [OF assms(1)] by auto
  then show ?thesis using assms(4) put_other_path [OF assms(5)] by (simp add: pinned_file_def)
next
  case True
  note fp = assms(6) [OF True]
  show ?thesis
  proof (cases "fs' (cache_path io root sid)")
    case (Some data)
    have "ci_to_json io e = Inr data \<or> fs (cache_path io root sid) = Some data \<or>
        (\<exists>x. ci_from_json io data = Inl x)"
      using assms(3,5) Some True unfolding cache_put_def torn_unreadable_def Let_def
      by (auto split: sum.splits prod.splits)
    then show ?thesis
      using assms(2,4) Some fp unfolding pinned_file_def entry_json_def by fastforce
  qed (simp add: pinned_file_def)
qed

lemma pinned_file_delete:
  "pinned_file io root sid fp fs \<Longrightarrow> cache_delete io root s fs = (r, fs') \<Longrightarrow>
   pinned_file io root sid fp fs'"
  by (auto simp: pinned_file_def cache_delete_def Let_def split: sum.splits if_splits)

lemma attempt_session_pinned:
  assumes "uuid_text (ci_show_uuid io)" and "entry_json io" and "torn_unreadable io"
    and "ev_io (at_env a) = io" and "ev_root (at_env a) = root"
    and "bp_cert_fingerprint payload = fp" and "pinned_file io root sid fp (cm_files st)"
    and run: "attempt_session cx a target payload mode st = (r, st')"
  shows "pinned_file io root sid fp (cm_files st')"
proof -
  have "keeps (pinned_file io root sid fp)
      (run_session (cx_crypto cx) (at_quic a) (at_env a) target payload mode (cx_idle cx))"
    using assms(1-6) by (intro run_session_keeps)
      (auto intro: pinned_file_put pinned_file_delete simp: session_entry_def)
  with attempt_session_runs [OF run] assms(7) show ?thesis by (auto dest: keepsD)
qed

text \<open>One round keeps the fingerprint in the file, and its session was run with it.\<close>

definition pinned_run ::
  "cmd_ctx \<Rightarrow> (nat \<Rightarrow> ('addr, 'con, 'v) attempt) \<Rightarrow> uuid \<Rightarrow> string
   \<Rightarrow> bootstrap_payload \<times> session_mode \<times> (cli_error + unit) \<times> client_sess \<Rightarrow> bool" where
  "pinned_run cx ats sid fp x \<longleftrightarrow>
     (case x of (payload, mode, r, s) \<Rightarrow>
        bp_session_id payload = sid \<and> bp_cert_fingerprint payload = fp \<and>
        (\<exists>token. mode = SmResume sid token) \<and>
        (cs_sent s \<noteq> [] \<longrightarrow>
          (\<exists>n con cert certs.
             connect_and_verify (cx_crypto cx) (at_quic (ats n)) (bp_quic_addr payload) fp (cx_idle cx) = Inr con \<and>
             qa_peer_certs (at_quic (ats n)) con = Some (cert # certs) \<and>
             sha256_fingerprint (cx_crypto cx) cert = fp)))"

lemma update_addr_pinned:
  assumes "uuid_text (ci_show_uuid io)" and "entry_json io" and "torn_unreadable io"
    and "ev_io (at_env a) = io" and "ev_root (at_env a) = root"
    and "ce_cert_fingerprint cached = fp" and "pinned_file io root sid fp (cm_files st)"
    and "update_addr a cached payload st = (r, st')"
  shows "pinned_file io root sid fp (cm_files st')"
  using assms(8) pinned_file_put [OF assms(1-3) assms(7)] assms(4-7)
  by (auto simp: update_addr_def split: prod.splits sum.splits if_splits)

lemma resume_attempt_pinned:
  assumes io: "uuid_text (ci_show_uuid io)" "entry_json io" "torn_unreadable io"
    and env: "ev_io (at_env (ats n)) = io" "ev_root (at_env (ats n)) = root"
    and p: "pinned_file io root sid fp (cm_files st)"
    and run: "resume_attempt cx (ats n) sid target st = (q, st')"
  shows "pinned_file io root sid fp (cm_files st') \<and>
    (\<forall>x\<in>set (cm_runs st') - set (cm_runs st). pinned_run cx ats sid fp x)"
proof (cases q)
  case (Inl e)
  have c: "cached_entry (ats n) sid st = Inr cached \<Longrightarrow> ce_cert_fingerprint cached = fp" for cached
    using pinned_file_get [OF p] env by (auto simp: cached_entry_def split: sum.splits)
  have d: "pinned_file io root sid fp (cm_files (forget_entry (ats n) sid st))"
    using pinned_file_delete [OF p surjective_pairing] env by (simp add: forget_entry_def)
  have "pinned_file io root sid fp (cm_files st')"
    using run Inl p c d
    by (auto simp: resume_attempt_def split: sum.splits prod.splits if_splits
        intro: update_addr_pinned [OF io env])
  then show ?thesis using resume_attempt_Inl [of cx "ats n" sid target st e st'] run Inl by simp
next
  case (Inr r)
  with run have "resume_attempt cx (ats n) sid target st = (Inr r, st')" by simp
  then obtain cached payload st1 where c: "cached_entry (ats n) sid st = Inr cached"
    and b: "bp_session_id payload = sid" "bp_cert_fingerprint payload = ce_cert_fingerprint cached"
    and u: "update_addr (ats n) cached payload st = (Inr (), st1)"
    and s: "attempt_session cx (ats n) target payload (SmResume sid (ce_resume_token cached)) st1 = (r, st')"
    by (rule resume_attempt_Inr)
  have fp: "ce_cert_fingerprint cached = fp"
    using c pinned_file_get [OF p] env by (auto simp: cached_entry_def split: sum.splits)
  have 1: "pinned_file io root sid fp (cm_files st1)" by (rule update_addr_pinned [OF io env fp p u])
  have 2: "pinned_file io root sid fp (cm_files st')"
    using attempt_session_pinned [OF io env _ 1 s] b fp by simp
  from attempt_session_runs [OF s] obtain t where
    runs: "cm_runs st' = cm_runs st1 @ [(payload, SmResume sid (ce_resume_token cached), r, t)]"
    and t: "run_session (cx_crypto cx) (at_quic (ats n)) (at_env (ats n)) target payload
      (SmResume sid (ce_resume_token cached)) (cx_idle cx)
      \<lparr>cs_recv = at_recv (ats n), cs_sent = [], cs_files = cm_files st1, cs_socket = False,
       cs_closed = False, cs_log = []\<rparr> = (r, t)" by blast
  have "pinned_run cx ats sid fp (payload, SmResume sid (ce_resume_token cached), r, t)"
    unfolding pinned_run_def using b fp sent_needs_pin [OF t] by auto
  then show ?thesis using 2 runs update_addr_runs [OF u] by auto
qed

lemma resume_loop_pinned:
  assumes io: "uuid_text (ci_show_uuid io)" "entry_json io" "torn_unreadable io"
    and env: "\<And>n. ev_io (at_env (ats n)) = io" "\<And>n. ev_root (at_env (ats n)) = root"
  shows "resume_loop cx ats sid target ns b st = (r, st') \<Longrightarrow>
    pinned_file io root sid fp (cm_files st) \<Longrightarrow> \<forall>x\<in>set (cm_runs st). pinned_run cx ats sid fp x \<Longrightarrow>
    pinned_file io root sid fp (cm_files st') \<and> (\<forall>x\<in>set (cm_runs st'). pinned_run cx ats sid fp x)"
proof (induction ns arbitrary: b st)
  case (Cons n ns)
  obtain q t where a: "resume_attempt cx (ats n) sid target st = (q, t)" by fastforce
  have t: "pinned_file io root sid fp (cm_files t)" "\<forall>x\<in>set (cm_runs t). pinned_run cx ats sid fp x"
    using resume_attempt_pinned [of io ats n root sid fp st cx target q t, OF io env Cons.prems(2) a]
      Cons.prems(3) by blast+
  then have "pinned_file io root sid fp (cm_files (sleep_for b t))"
    "\<forall>x\<in>set (cm_runs (sleep_for b t)). pinned_run cx ats sid fp x"
    by (simp_all add: sleep_for_def)
  note next_round = Cons.IH [OF _ this]
  show ?case using Cons.prems(1) a t next_round
    by (auto split: sum.splits if_splits)
qed simp

text \<open>
  C33: Resuming never changes whom the client trusts: from the entry it starts with, every session
  it runs is for this session id and with the cached fingerprint, nothing is sent in it unless the
  server's certificate has that fingerprint, and whatever the server answers, whichever attempts
  fail and whatever is written, an entry that can be read for the session afterwards holds the same
  fingerprint.
\<close>

theorem resume_pins_server:
  assumes "uuid_text (ci_show_uuid io)" and "entry_json io" and "torn_unreadable io"
    and "\<And>n. ev_io (at_env (ats n)) = io" and "\<And>n. ev_root (at_env (ats n)) = root"
    and "cache_get io root sid fs = Inr cached"
    and "resume_with_backoff cx ats sid target (cmd_start fs) = (r, st)"
  shows "(\<forall>x\<in>set (cm_runs st). pinned_run cx ats sid (ce_cert_fingerprint cached) x) \<and>
    (\<forall>e. cache_get io root sid (cm_files st) = Inr e \<longrightarrow>
      ce_cert_fingerprint e = ce_cert_fingerprint cached)"
proof -
  have p: "pinned_file io root sid (ce_cert_fingerprint cached) (cm_files (cmd_start fs))"
    using pinned_file_of_get [OF assms(6)] by (simp add: cmd_start_def)
  have l: "resume_loop cx ats sid target [0, 1, 2] initial_backoff (cmd_start fs) = (r, st)"
    using assms(7) by (simp add: resume_with_backoff_def)
  from resume_loop_pinned [OF assms(1-5) l p] pinned_file_get show ?thesis
    by (auto simp: cmd_start_def)
qed

section \<open>A concrete resumption\<close>

text \<open>The first attempt loses its connection while attached, the second ends with a detachment.\<close>

definition demo_cx :: cmd_ctx where
  "demo_cx =
     \<lparr>cx_crypto = demo_hash, cx_show_uuid = demo_uuid, cx_from_json = (\<lambda>_. Inr demo_payload),
      cx_neoshd_path = ''neoshd'', cx_idle = 60, cx_terminal = True\<rparr>"

definition demo_ssh :: ssh where
  "demo_ssh = (\<lambda>_ _. Inr \<lparr>so_success = True, so_stdout = ''x'', so_stderr = []\<rparr>)"

definition demo_attempt :: "nat session_event \<Rightarrow> (nat, nat, nat) attempt" where
  "demo_attempt ev =
     \<lparr>at_ssh1 = demo_ssh, at_ssh2 = demo_ssh, at_quic = demo_quic, at_env = demo_env ev,
      at_recv = demo_replies, at_now = 0, at_stamp = 0\<rparr>"

definition demo_attempts :: "nat \<Rightarrow> (nat, nat, nat) attempt" where
  "demo_attempts n = demo_attempt (if n = 0 then SeSignal SigDisconnected (False, False) else SeDetach False)"

definition demo_files :: files where
  "demo_files = [cache_path demo_io ''/c'' 7 \<mapsto> [7]]"

lemma demo_get: "cache_get demo_io ''/c'' 7 demo_files = Inr (demo_entry 7)"
proof -
  have "ci_read demo_io p = Inr ()" and "ci_from_json demo_io [7] = Inr (demo_entry 7)" for p
    by (simp_all add: demo_io_def)
  then show ?thesis by (simp add: cache_get_def demo_files_def Let_def)
qed

lemma demo_valid: "validate_bootstrap_payload demo_payload = Inr ()"
proof -
  have n: "show_nat 30001 = ''30001''"
    by (simp add: show_nat.simps [of 30001] show_nat.simps [of 3000] show_nat.simps [of 300]
        show_nat.simps [of 30] show_nat.simps [of 3] show_nat.simps [of 0] digit_char_def) code_simp
  have h: "is_valid_host_port ''127.0.0.1:30001''"
    using host_port_ok [of "''127.0.0.1''" 30001] n by simp
  have "is_ascii_hexdigit (CHR ''a'')" "is_ascii_hexdigit (CHR ''b'')" by code_simp+
  then have x: "list_all is_ascii_hexdigit (concat (replicate 32 ''ab''))"
    by (simp add: list_all_iff)
  have l: "length (concat (replicate 32 ''ab'')) = 64" by (simp add: length_concat sum_list_replicate)
  show ?thesis
    unfolding validate_bootstrap_payload_def demo_payload_sel
    using h x l by (simp add: demo_payload_def del: concat.simps)
qed

lemma demo_attempt_round:
  assumes "cm_files st = demo_files"
  shows "resume_attempt demo_cx (demo_attempt ev) 7 ''host'' st =
    (let (r, s) = end_session (demo_env ev) 7
        \<lparr>cs_recv = [0], cs_sent = [hello_msg, CAuth ''ssh-token'' ''a'', CResume 7 ''r'', CResize 24 80],
         cs_files = demo_files, cs_socket = True, cs_closed = False,
         cs_log = [''quic_connect_start'', ''quic_connect_ok'', ''fingerprint_verify_ok'', ''auth_ok'', ''resume_ok'']\<rparr>
     in (Inr r, st\<lparr>cm_files := cs_files s, cm_runs := cm_runs st @ [(demo_payload, SmResume 7 ''r'', r, s)]\<rparr>))"
proof -
  have f: "demo_files(cache_path demo_io ''/c'' 7 \<mapsto> [7]) = demo_files" by (simp add: demo_files_def)
  have g: "cached_entry (demo_attempt ev) 7 st = Inr (demo_entry 7)"
    by (simp add: cached_entry_def demo_attempt_def demo_env_sel assms demo_get)
  have e: "\<not> resume_entry_expired (demo_entry 7) (now_epoch_seconds 0)" "ce_resume_token (demo_entry 7) = ''r''"
    "ce_cert_fingerprint (demo_entry 7) = bp_cert_fingerprint demo_payload"
    "ce_quic_addr (demo_entry 7) = bp_quic_addr demo_payload"
    by (simp_all add: resume_entry_expired_def demo_entry_def demo_payload_sel now_epoch_seconds_def
        duration_since_def duration_as_secs_def)
  have b: "attempt_bootstrap demo_cx (demo_attempt ev) ''host'' (ModeRenew 7) None = Inr demo_payload"
    by (simp add: attempt_bootstrap_def ssh_bootstrap_with_retry_def run_ssh_bootstrap_def run_remote_command_def
        demo_attempt_def demo_ssh_def demo_cx_def parse_bootstrap_payload_def demo_valid)
  have s: "attempt_session demo_cx (demo_attempt ev) ''host'' demo_payload (SmResume 7 ''r'') st =
    (let (r, s) = end_session (demo_env ev) 7
        \<lparr>cs_recv = [0], cs_sent = [hello_msg, CAuth ''ssh-token'' ''a'', CResume 7 ''r'', CResize 24 80],
         cs_files = demo_files, cs_socket = True, cs_closed = False,
         cs_log = [''quic_connect_start'', ''quic_connect_ok'', ''fingerprint_verify_ok'', ''auth_ok'', ''resume_ok'']\<rparr>
     in (r, st\<lparr>cm_files := cs_files s, cm_runs := cm_runs st @ [(demo_payload, SmResume 7 ''r'', r, s)]\<rparr>))"
    by (simp add: attempt_session_def demo_attempt_def demo_cx_def assms demo_session f demo_ok_def Let_def)
  have n: "at_now (demo_attempt ev) = 0" by (simp add: demo_attempt_def)
  show ?thesis
    by (simp add: resume_attempt_def g n e b validate_renew_payload_def demo_payload_sel(1) update_addr_def s Let_def
        split: prod.split)
qed

lemma demo_resume:
  "\<exists>s1 s2. resume_with_backoff demo_cx demo_attempts 7 ''host'' (cmd_start demo_files) =
     (Inr (), \<lparr>cm_files = demo_files,
       cm_runs = [(demo_payload, SmResume 7 ''r'', Inl (CliDisconnected 7), s1),
                  (demo_payload, SmResume 7 ''r'', Inr (), s2)],
       cm_sleeps = [100000000]\<rparr>) \<and> cs_sent s2 \<noteq> []"
proof -
  have 0: "demo_attempts 0 = demo_attempt (SeSignal SigDisconnected (False, False))"
    and 1: "demo_attempts (Suc 0) = demo_attempt (SeDetach False)"
    by (simp_all add: demo_attempts_def)
  have a: "\<exists>s. resume_attempt demo_cx (demo_attempts 0) 7 ''host'' st = (Inr (Inl (CliDisconnected 7)),
      st\<lparr>cm_files := demo_files,
        cm_runs := cm_runs st @ [(demo_payload, SmResume 7 ''r'', Inl (CliDisconnected 7), s)]\<rparr>)"
    if "cm_files st = demo_files" for st
    unfolding 0 demo_attempt_round [OF that] using that
    by (simp add: end_session_def leave_quiet act_then_def demo_env_sel) (rule exI, rule refl)
  have b: "\<exists>s. resume_attempt demo_cx (demo_attempts (Suc 0)) 7 ''host'' st = (Inr (Inr ()),
      st\<lparr>cm_files := demo_files, cm_runs := cm_runs st @ [(demo_payload, SmResume 7 ''r'', Inr (), s)]\<rparr>) \<and> cs_sent s \<noteq> []"
    if "cm_files st = demo_files" for st
    unfolding 1 demo_attempt_round [OF that] using that
    by (simp add: end_session_def leave_def act_then_def demo_env_sel demo_send)
      (rule exI, rule conjI, rule refl, simp)
  from a [of "cmd_start demo_files"] obtain s1 where
    s1: "resume_attempt demo_cx (demo_attempts 0) 7 ''host'' (cmd_start demo_files) =
      (Inr (Inl (CliDisconnected 7)), \<lparr>cm_files = demo_files,
        cm_runs = [(demo_payload, SmResume 7 ''r'', Inl (CliDisconnected 7), s1)], cm_sleeps = []\<rparr>)"
    by (auto simp: cmd_start_def)
  from b [of "\<lparr>cm_files = demo_files,
        cm_runs = [(demo_payload, SmResume 7 ''r'', Inl (CliDisconnected 7), s1)], cm_sleeps = [100000000]\<rparr>"]
  obtain s2 where s2: "resume_attempt demo_cx (demo_attempts (Suc 0)) 7 ''host'' \<lparr>cm_files = demo_files,
        cm_runs = [(demo_payload, SmResume 7 ''r'', Inl (CliDisconnected 7), s1)], cm_sleeps = [100000000]\<rparr> =
      (Inr (Inr ()), \<lparr>cm_files = demo_files,
        cm_runs = [(demo_payload, SmResume 7 ''r'', Inl (CliDisconnected 7), s1),
                   (demo_payload, SmResume 7 ''r'', Inr (), s2)], cm_sleeps = [100000000]\<rparr>)"
    and "cs_sent s2 \<noteq> []" by auto
  then show ?thesis
    by (intro exI [of _ s1] exI [of _ s2])
      (simp add: resume_with_backoff_def s1 sleep_for_def backoff_values)
qed

theorem resume_bounded_witness:
  "\<exists>r st. resume_with_backoff demo_cx demo_attempts 7 ''host'' (cmd_start demo_files) = (r, st) \<and>
     length (cm_runs st) = 2 \<and> resume_outcome demo_cx demo_attempts 7 ''host'' r st"
proof -
  from demo_resume obtain s1 s2 where r: "resume_with_backoff demo_cx demo_attempts 7 ''host'' (cmd_start demo_files) =
     (Inr (), \<lparr>cm_files = demo_files,
       cm_runs = [(demo_payload, SmResume 7 ''r'', Inl (CliDisconnected 7), s1),
                  (demo_payload, SmResume 7 ''r'', Inr (), s2)],
       cm_sleeps = [100000000]\<rparr>)" by blast
  from resume_bounded [OF r] r show ?thesis by auto
qed

theorem resume_pins_server_witness:
  "\<exists>r st. resume_with_backoff demo_cx demo_attempts 7 ''host'' (cmd_start demo_files) = (r, st) \<and>
     cm_runs st \<noteq> [] \<and>
     (\<forall>x\<in>set (cm_runs st). pinned_run demo_cx demo_attempts 7 (ce_cert_fingerprint (demo_entry 7)) x)"
proof -
  from demo_resume obtain s1 s2 where r: "resume_with_backoff demo_cx demo_attempts 7 ''host'' (cmd_start demo_files) =
     (Inr (), \<lparr>cm_files = demo_files,
       cm_runs = [(demo_payload, SmResume 7 ''r'', Inl (CliDisconnected 7), s1),
                  (demo_payload, SmResume 7 ''r'', Inr (), s2)],
       cm_sleeps = [100000000]\<rparr>)" by blast
  have "uuid_text (ci_show_uuid demo_io)" "torn_unreadable demo_io"
    by (simp_all add: demo_io_def demo_uuid_text torn_unreadable_def)
  moreover have "ev_io (at_env (demo_attempts n)) = demo_io" "ev_root (at_env (demo_attempts n)) = ''/c''" for n
    by (simp_all add: demo_attempts_def demo_attempt_def demo_env_sel)
  ultimately have "\<forall>x\<in>set [(demo_payload, SmResume 7 ''r'', Inl (CliDisconnected 7), s1),
      (demo_payload, SmResume 7 ''r'', Inr (), s2)].
      pinned_run demo_cx demo_attempts 7 (ce_cert_fingerprint (demo_entry 7)) x"
    using resume_pins_server [OF _ demo_entry_json _ _ _ demo_get r] by simp
  with r show ?thesis by (intro exI conjI) auto
qed

end
