(* ===== verification/Client_Main.thy ===== *)
theory Client_Main
  imports Client_Commands Client_Ipc Stdin_Filter
begin

text \<open>
  The rest of the program \<open>neosh\<close> (\<open>src/src/bin/neosh.rs\<close>): its command line and exit status, the
  raw mode of the terminal and its restoration, and the two tasks that send window sizes and
  keep-alives. The terminal's driver is its settings with the return codes of the system calls.
\<close>

section \<open>The terminal\<close>

text \<open>The return code of \<open>TIOCGWINSZ\<close> with the rows and columns it stored.\<close>

definition read_tty_size :: "int \<Rightarrow> u16 \<Rightarrow> u16 \<Rightarrow> (u16 \<times> u16) option" where
  "read_tty_size rc ws_row ws_col = (if rc = 0 \<and> ws_row > 0 \<and> ws_col > 0 then Some (ws_row, ws_col) else None)"

text \<open>
  \<open>make_raw\<close> is \<open>cfmakeraw\<close>. The guard is the settings to restore, and the second result the
  terminal's settings afterwards; a failed \<open>tcsetattr\<close> changes nothing.
\<close>

definition raw_mode_activate :: "('t \<Rightarrow> 't) \<Rightarrow> bool \<Rightarrow> int \<Rightarrow> int \<Rightarrow> 't \<Rightarrow> 't option \<times> 't" where
  "raw_mode_activate make_raw is_tty rc_get rc_set term =
     (if \<not> is_tty then (None, term)
      else if rc_get \<noteq> 0 then (None, term)
      else if rc_set \<noteq> 0 then (None, term)
      else (Some term, make_raw term))"

definition raw_mode_drop :: "int \<Rightarrow> 't option \<Rightarrow> 't \<Rightarrow> 't" where
  "raw_mode_drop rc_set guard term =
     (case guard of Some orig \<Rightarrow> (if rc_set = 0 then orig else term) | None \<Rightarrow> term)"

section \<open>Background tasks\<close>

text \<open>A round of a task that waits for its event or for the end of the session.\<close>

datatype 'e task_round = TaskStop | TaskEvent 'e

text \<open>At each change of the window size the size is read and sent, when it can be.\<close>

fun resize_watch_task :: "(u16 \<times> u16) option task_round list \<Rightarrow> client_msg list" where
  "resize_watch_task [] = []"
| "resize_watch_task (TaskStop # rs) = []"
| "resize_watch_task (TaskEvent dims # rs) =
     (case dims of
        Some (rows, cols) \<Rightarrow> CResize rows cols # resize_watch_task rs
      | None \<Rightarrow> resize_watch_task rs)"

text \<open>
  Every 15 seconds a \<open>PING\<close>, whose nonce is the time in milliseconds (zero before the epoch).
\<close>

fun keepalive_task :: "system_time task_round list \<Rightarrow> client_msg list" where
  "keepalive_task [] = []"
| "keepalive_task (TaskStop # rs) = []"
| "keepalive_task (TaskEvent now # rs) =
     CPing (case duration_since now 0 of
        Some d \<Rightarrow> show_nat (d div 1000000)
      | None \<Rightarrow> ''0'') # keepalive_task rs"

section \<open>The command line\<close>

datatype commands =
    CmdConnect string string "string option" "string option" u64 "string option"
  | CmdResume uuid "string option" string u64
  | CmdDetach "uuid option"
  | CmdVersion

fun cli_error_text :: "cli_error \<Rightarrow> string" where
  "cli_error_text (CliBootstrap e) = ''bootstrap failed: '' @ e"
| "cli_error_text (CliQuic e) = ''quic failed: '' @ e"
| "cli_error_text (CliProtocol e) = ''protocol failed: '' @ e"
| "cli_error_text (CliCache e) = ''cache failed: '' @ e"
| "cli_error_text (CliIo e) = ''io failed: '' @ e"
| "cli_error_text CliAuthFailed = ''auth failed''"
| "cli_error_text (CliDisconnected sid) = ''connection lost while attached''"
| "cli_error_text CliClosed = ''session closed''"

text \<open>
  What the commands see: \<open>mn_connect\<close> and \<open>mn_resume\<close> give the attempts of the two loops, \<open>mn_first\<close>
  what \<open>resume\<close> sees before its loop, \<open>mn_detach\<close> is \<open>detach_cmd\<close> in its surroundings.
\<close>

record ('addr, 'con, 'v) main_env =
  mn_cx :: cmd_ctx
  mn_connect :: "nat \<Rightarrow> ('addr, 'con, 'v) attempt"
  mn_resume :: "nat \<Rightarrow> ('addr, 'con, 'v) attempt"
  mn_first :: "('addr, 'con, 'v) attempt"
  mn_detach :: "uuid option \<Rightarrow> (cli_error + unit) \<times> (string \<times> uuid) option"

definition run_command ::
  "('addr, 'con, 'v) main_env \<Rightarrow> commands \<Rightarrow> cmd_state \<Rightarrow> (cli_error + string list) \<times> cmd_state" where
  "run_command mn cmd st =
     (case cmd of
        CmdVersion \<Rightarrow> (Inr [client_version], st)
      | CmdConnect target path dir command idle log_file \<Rightarrow>
          (case connect_cmd (mn_cx mn\<lparr>cx_neoshd_path := path, cx_idle := idle\<rparr>) (mn_connect mn) (mn_resume mn)
                  target dir command log_file st of
             (r, st') \<Rightarrow> (map_sum id (\<lambda>_. []) r, st'))
      | CmdResume sid target path idle \<Rightarrow>
          (case resume_cmd (mn_cx mn\<lparr>cx_neoshd_path := path, cx_idle := idle\<rparr>) (mn_first mn) (mn_resume mn)
                  sid target st of
             (r, st') \<Rightarrow> (map_sum id (\<lambda>_. []) r, st'))
      | CmdDetach sid \<Rightarrow> (map_sum id (\<lambda>_. [''ok'']) (fst (mn_detach mn sid)), st))"

text \<open>The exit status, with the lines on the standard output and the error on the other one.\<close>

definition neosh_main ::
  "('addr, 'con, 'v) main_env \<Rightarrow> commands \<Rightarrow> cmd_state \<Rightarrow> int \<times> string list \<times> string option \<times> cmd_state" where
  "neosh_main mn cmd st =
     (case run_command mn cmd st of
        (Inr out, st') \<Rightarrow> (0, out, None, st')
      | (Inl err, st') \<Rightarrow> (1, [], Some (cli_error_text err), st'))"

text \<open>
  Whether raw mode was entered or not, dropping the guard leaves the terminal as it was, provided
  the settings can be restored.
\<close>

lemma raw_mode_restored:
  "raw_mode_activate make_raw is_tty rc_get rc_set term = (guard, t) \<Longrightarrow> raw_mode_drop 0 guard t = term"
  by (auto simp: raw_mode_activate_def raw_mode_drop_def split: if_splits)

section \<open>Connecting\<close>

text \<open>The sessions of \<open>connect\<close> itself, before any resumption.\<close>

lemma resume_loop_runs:
  "resume_loop cx ats sid target ns b st = (r, st') \<Longrightarrow> \<exists>new. cm_runs st' = cm_runs st @ new \<and>
     length new \<le> length ns \<and> (\<forall>x\<in>set new. \<exists>tok. fst (snd x) = SmResume sid tok)"
proof (induction ns arbitrary: b st)
  case (Cons n ns)
  obtain q t where a: "resume_attempt cx (ats n) sid target st = (q, t)" by fastforce
  have "\<exists>x. cm_runs t = cm_runs st @ x \<and> length x \<le> 1 \<and> (\<forall>y\<in>set x. \<exists>tok. fst (snd y) = SmResume sid tok)"
  proof (cases q)
    case (Inl e)
    then show ?thesis using a resume_attempt_Inl [of cx "ats n" sid target st e t] by simp
  next
    case (Inr res)
    with a have "resume_attempt cx (ats n) sid target st = (Inr res, t)" by simp
    then show ?thesis
      by (elim resume_attempt_Inr) (auto dest!: attempt_session_runs update_addr_runs)
  qed
  then obtain x where x: "cm_runs t = cm_runs st @ x" "length x \<le> 1"
    "\<forall>y\<in>set x. \<exists>tok. fst (snd y) = SmResume sid tok" by blast
  from Cons.prems a consider "st' = t"
    | "resume_loop cx ats sid target ns (duration_saturating_mul b 2) (sleep_for b t) = (r, st')"
    by (auto split: sum.splits if_splits)
  then show ?case
  proof cases
    case 1
    then show ?thesis using x by (intro exI [of _ x]) simp
  next
    case 2
    from Cons.IH [OF this] obtain new where "cm_runs st' = cm_runs (sleep_for b t) @ new"
      "length new \<le> length ns" "\<forall>y\<in>set new. \<exists>tok. fst (snd y) = SmResume sid tok" by blast
    then show ?thesis using x by (intro exI [of _ "x @ new"]) (auto simp: sleep_for_def)
  qed
qed simp

definition attach_runs ::
  "(bootstrap_payload \<times> session_mode \<times> (cli_error + unit) \<times> client_sess) list \<Rightarrow> bool" where
  "attach_runs a \<longleftrightarrow>
     (\<forall>x\<in>set a. fst (snd x) = SmAttach) \<and> (\<forall>x\<in>set (butlast a). run_result x = Inl CliAuthFailed)"

definition resume_runs ::
  "(bootstrap_payload \<times> session_mode \<times> (cli_error + unit) \<times> client_sess) list
   \<Rightarrow> (bootstrap_payload \<times> session_mode \<times> (cli_error + unit) \<times> client_sess) list \<Rightarrow> bool" where
  "resume_runs a b \<longleftrightarrow>
     (b \<noteq> [] \<longrightarrow> a \<noteq> [] \<and> (\<exists>sid. run_result (last a) = Inl (CliDisconnected sid) \<and>
        (\<forall>x\<in>set b. \<exists>tok. fst (snd x) = SmResume sid tok)))"

lemma connect_round:
  assumes "connect_loop cx ats rats target mode log_file (n # rest) b st = (r, st')"
  shows "(\<exists>a c. cm_runs st' = cm_runs st @ a @ c \<and> length a \<le> 1 \<and> length c \<le> 3 \<and>
      (\<forall>x\<in>set a. fst (snd x) = SmAttach) \<and> resume_runs a c) \<or>
    (\<exists>p s st1 b'. n = 0 \<and> connect_loop cx ats rats target mode log_file rest b' st1 = (r, st') \<and>
      cm_runs st1 = cm_runs st @ [(p, SmAttach, Inl CliAuthFailed, s)])"
proof (cases "attempt_bootstrap cx (ats n) target mode log_file")
  case (Inl e)
  then have "st' = st" using assms by simp
  then show ?thesis by (intro disjI1 exI [of _ "[]"]) (simp add: resume_runs_def)
next
  case (Inr payload)
  obtain q t where a: "attempt_session cx (ats n) target payload SmAttach st = (q, t)" by fastforce
  from attempt_session_runs [OF a] obtain s where t: "cm_runs t = cm_runs st @ [(payload, SmAttach, q, s)]"
    by blast
  consider "st' = t" | "q = Inl CliAuthFailed" "n = 0"
      "connect_loop cx ats rats target mode log_file rest (duration_saturating_mul b 2) (sleep_for b t) = (r, st')"
    | sid where "q = Inl (CliDisconnected sid)" "resume_with_backoff cx rats sid target t = (r, st')"
    using assms Inr a by (auto split: sum.splits cli_error.splits if_splits)
  then show ?thesis
  proof cases
    case 1
    then show ?thesis using t
      by (intro disjI1 exI [of _ "[(payload, SmAttach, q, s)]"] exI [of _ "[]"]) (simp add: resume_runs_def)
  next
    case 2
    have "cm_runs (sleep_for b t) = cm_runs st @ [(payload, SmAttach, Inl CliAuthFailed, s)]"
      using t 2(1) by (simp add: sleep_for_def)
    with 2 show ?thesis by blast
  next
    case 3
    from resume_loop_runs [of cx rats sid target "[0, 1, 2]" initial_backoff t r st'] 3(2)
    obtain new where n: "cm_runs st' = cm_runs t @ new" "length new \<le> 3"
      "\<forall>x\<in>set new. \<exists>tok. fst (snd x) = SmResume sid tok"
      by (auto simp: resume_with_backoff_def)
    then show ?thesis using t 3(1)
      by (intro disjI1 exI [of _ "[(payload, SmAttach, q, s)]"] exI [of _ new])
        (auto simp: resume_runs_def run_result_def)
  qed
qed

text \<open>
  \<open>neosh connect\<close> runs at most two sessions that attach, the second only after the first was
  refused its auth token, and at most three that resume, only after a connection was lost while
  attached and only for the session that was lost.
\<close>

theorem connect_sessions_bounded:
  assumes "connect_cmd cx ats rats target dir command log_file (cmd_start fs) = (r, st)"
  shows "\<exists>a b. cm_runs st = a @ b \<and> length a \<le> 2 \<and> length b \<le> 3 \<and> attach_runs a \<and> resume_runs a b"
proof -
  have l: "connect_loop cx ats rats target (ModeNew dir command) log_file (0 # [1]) initial_backoff (cmd_start fs) = (r, st)"
    using assms by (simp add: connect_cmd_def)
  have s: "cm_runs (cmd_start fs) = []" by (simp add: cmd_start_def)
  from connect_round [OF l] show ?thesis
  proof (elim disjE exE conjE)
    fix a c
    assume "cm_runs st = cm_runs (cmd_start fs) @ a @ c" "length a \<le> 1" "length c \<le> 3"
      "\<forall>x\<in>set a. fst (snd x) = SmAttach" "resume_runs a c"
    then show ?thesis using s
      by (intro exI [of _ a] exI [of _ c]) (cases a; simp add: attach_runs_def)
  next
    fix p s1 st1 b'
    assume l1: "connect_loop cx ats rats target (ModeNew dir command) log_file [1] b' st1 = (r, st)"
      and r1: "cm_runs st1 = cm_runs (cmd_start fs) @ [(p, SmAttach, Inl CliAuthFailed, s1)]"
    from connect_round [OF l1] obtain a c where "cm_runs st = cm_runs st1 @ a @ c" "length a \<le> 1" "length c \<le> 3"
      "\<forall>x\<in>set a. fst (snd x) = SmAttach" "resume_runs a c" by auto
    then show ?thesis using s r1
      by (intro exI [of _ "(p, SmAttach, Inl CliAuthFailed, s1) # a"] exI [of _ c])
        (cases a; auto simp: attach_runs_def resume_runs_def run_result_def)
  qed
qed

lemma demo_connect_cmd:
  "\<exists>r st. connect_cmd demo_cx demo_attempts demo_attempts ''host'' None None None (cmd_start Map.empty) = (r, st) \<and>
     cm_runs st \<noteq> []"
proof -
  have b: "attempt_bootstrap demo_cx (demo_attempts n) ''host'' m None = Inr demo_payload" for n m
    by (simp add: attempt_bootstrap_def ssh_bootstrap_with_retry_def run_ssh_bootstrap_def run_remote_command_def
        demo_attempts_def demo_attempt_def demo_ssh_def demo_cx_def parse_bootstrap_payload_def demo_valid)
  obtain q t where a: "attempt_session demo_cx (demo_attempts 0) ''host'' demo_payload SmAttach (cmd_start Map.empty) = (q, t)"
    by fastforce
  from attempt_session_runs [OF a] have t: "cm_runs t \<noteq> []" by auto
  obtain r st where c: "connect_cmd demo_cx demo_attempts demo_attempts ''host'' None None None (cmd_start Map.empty) = (r, st)"
    by fastforce
  have "\<exists>new. cm_runs st = cm_runs t @ new"
  proof -
    have "connect_loop demo_cx demo_attempts demo_attempts ''host'' (ModeNew None None) None (0 # [1])
        initial_backoff (cmd_start Map.empty) = (r, st)"
      using c by (simp add: connect_cmd_def)
    moreover have "q \<noteq> Inl CliAuthFailed"
      using a by (auto simp: attempt_session_def demo_attempts_def demo_attempt_def demo_cx_def cmd_start_def
          demo_session end_session_def leave_quiet act_then_def demo_env_sel split: prod.splits)
    ultimately consider "st = t" | sid where "resume_with_backoff demo_cx demo_attempts sid ''host'' t = (r, st)"
      using a b by (auto split: sum.splits cli_error.splits if_splits)
    then show ?thesis
      by cases (simp, unfold resume_with_backoff_def, drule resume_loop_runs, blast)
  qed
  with t c show ?thesis by auto
qed

theorem connect_sessions_bounded_witness:
  "\<exists>r st a b. connect_cmd demo_cx demo_attempts demo_attempts ''host'' None None None (cmd_start Map.empty) = (r, st) \<and>
     cm_runs st \<noteq> [] \<and> cm_runs st = a @ b \<and> length a \<le> 2 \<and> length b \<le> 3"
proof -
  from demo_connect_cmd obtain r st where c: "connect_cmd demo_cx demo_attempts demo_attempts ''host'' None None None
      (cmd_start Map.empty) = (r, st)" "cm_runs st \<noteq> []" by blast
  from connect_sessions_bounded [OF c(1)] c show ?thesis by blast
qed

end
