(* ===== verification/Ffi_Client.thy ===== *)
theory Ffi_Client
  imports Client_Bootstrap Connection
begin

text \<open>
  The C interface of the client (\<open>src/ffi/neosh-client-c/src/lib.rs\<close>). A pointer argument is an
  option, \<open>None\<close> when null; a buffer is its contents; a client is the record its pointer stands for,
  and what the calls on its streams return are arguments. The results of a call are its code, what
  it stored through its pointers and the client's new state.
\<close>

section \<open>Codes, errors and the client\<close>

definition ffi_ok :: int where "ffi_ok = 0"
definition err_invalid_arg :: int where "err_invalid_arg = - 1"
definition err_buffer_too_small :: int where "err_buffer_too_small = - 2"
definition err_not_ready :: int where "err_not_ready = - 3"
definition err_internal :: int where "err_internal = - 4"

definition ffi_max_control_frame :: nat where "ffi_max_control_frame = 64 * 1024"
definition default_quic_idle_timeout_secs :: u64 where "default_quic_idle_timeout_secs = 60"

text \<open>
  \<open>fc_recv\<close> are the bytes still to be read from the control stream, \<open>fc_sent\<close> those written to it;
  the data streams are there once they were opened.
\<close>

record ffi_client =
  fc_recv :: bytes
  fc_sent :: bytes
  fc_stdin :: "bytes option"
  fc_stdin_finished :: bool
  fc_stdout_open :: bool
  fc_last_error :: string

definition ffi_client_new :: "bytes \<Rightarrow> ffi_client" where
  "ffi_client_new recv =
     \<lparr>fc_recv = recv, fc_sent = [], fc_stdin = None, fc_stdin_finished = False, fc_stdout_open = False,
      fc_last_error = ''ok''\<rparr>"

text \<open>A C string ends at its first NUL, so these are replaced.\<close>

definition cstring_lossy :: "string \<Rightarrow> string" where
  "cstring_lossy input = map (\<lambda>c. if c = CHR 0x00 then CHR ''?'' else c) input"

definition set_client_error :: "ffi_client \<Rightarrow> string \<Rightarrow> int \<Rightarrow> int \<times> ffi_client" where
  "set_client_error c msg code = (code, c\<lparr>fc_last_error := cstring_lossy msg\<rparr>)"

text \<open>\<open>utf8\<close> is \<open>CStr::to_str\<close>.\<close>

definition cstr_to_string :: "(bytes \<Rightarrow> string option) \<Rightarrow> bytes option \<Rightarrow> string \<Rightarrow> string + string" where
  "cstr_to_string utf8 arg name =
     (case arg of
        None \<Rightarrow> Inl (name @ '' is null'')
      | Some c \<Rightarrow>
          (case utf8 c of
             None \<Rightarrow> Inl (name @ '' is not valid UTF-8'')
           | Some t \<Rightarrow>
               let s = trim t in if s = [] then Inl (name @ '' is empty'') else Inr s))"

section \<open>Reading control frames\<close>

definition read_control_payload :: "string \<Rightarrow> bytes \<Rightarrow> string + (bytes \<times> bytes)" where
  "read_control_payload e s =
     (case read_exact 4 s of
        None \<Rightarrow> Inl (''read control length failed: '' @ e)
      | Some (len_buf, s1) \<Rightarrow>
          let payload_len =
            unat (from_be_bytes (len_buf ! 0) (len_buf ! 1) (len_buf ! 2) (len_buf ! 3))
          in if payload_len > ffi_max_control_frame
             then Inl (''control frame too large: '' @ show_nat payload_len)
             else
               (case read_exact payload_len s1 of
                  None \<Rightarrow> Inl (''read control payload failed: '' @ e)
                | Some (payload, s2) \<Rightarrow> Inr (payload, s2)))"

text \<open>
  The read with a time limit on its first four bytes. \<open>late = Some k\<close>: the limit passed when \<open>k\<close>
  of them, less than four, had been read; they are gone with the buffer. The result is also the
  rest of the stream.
\<close>

definition read_control_payload_with_timeout ::
  "nat option \<Rightarrow> string \<Rightarrow> bytes \<Rightarrow> (string + bytes option) \<times> bytes" where
  "read_control_payload_with_timeout late e s =
     (case late of
        Some k \<Rightarrow> (Inr None, drop (min k 3) s)
      | None \<Rightarrow>
          (case read_exact 4 s of
             None \<Rightarrow> (Inl (''read control length failed: '' @ e), [])
           | Some (len_buf, s1) \<Rightarrow>
               let payload_len =
                 unat (from_be_bytes (len_buf ! 0) (len_buf ! 1) (len_buf ! 2) (len_buf ! 3))
               in if payload_len > ffi_max_control_frame
                  then (Inl (''control frame too large: '' @ show_nat payload_len), s1)
                  else
                    (case read_exact payload_len s1 of
                       None \<Rightarrow> (Inl (''read control payload failed: '' @ e), [])
                     | Some (payload, s2) \<Rightarrow> (Inr (Some payload), s2))))"

section \<open>Connecting\<close>

datatype ffi_connected = FfiClient ffi_client | FfiNull

text \<open>
  \<open>opened\<close> is the result of opening the control stream. The second result is the global error: it
  is only set by a failure.
\<close>

definition neosh_client_connect ::
  "crypto \<Rightarrow> ('addr, 'con) quic_api \<Rightarrow> (bytes \<Rightarrow> string option) \<Rightarrow> string + bytes
   \<Rightarrow> bytes option \<Rightarrow> bytes option \<Rightarrow> string \<Rightarrow> ffi_connected \<times> string" where
  "neosh_client_connect C q utf8 opened quic_addr expected_fingerprint global =
     (case cstr_to_string utf8 quic_addr ''quic_addr'' of
        Inl e \<Rightarrow> (FfiNull, cstring_lossy e)
      | Inr addr \<Rightarrow>
          (case cstr_to_string utf8 expected_fingerprint ''expected_fingerprint'' of
             Inl e \<Rightarrow> (FfiNull, cstring_lossy e)
           | Inr fp \<Rightarrow>
               (case connect_and_verify C q addr fp default_quic_idle_timeout_secs of
                  Inl e \<Rightarrow> (FfiNull, cstring_lossy (''connect failed: '' @ quic_client_error_text e))
                | Inr con \<Rightarrow>
                    (case opened of
                       Inl e \<Rightarrow> (FfiNull, cstring_lossy (''open control stream failed: '' @ e))
                     | Inr recv \<Rightarrow> (FfiClient (ffi_client_new recv), global)))))"

text \<open>Freeing a client closes its connection and its endpoint; a null pointer is ignored.\<close>

definition neosh_client_free :: "ffi_client option \<Rightarrow> string list" where
  "neosh_client_free client =
     (case client of None \<Rightarrow> [] | Some _ \<Rightarrow> [''connection client close'', ''endpoint client close''])"

definition neosh_client_last_error :: "ffi_client option \<Rightarrow> string" where
  "neosh_client_last_error client =
     (case client of None \<Rightarrow> ''null client'' | Some c \<Rightarrow> fc_last_error c)"

definition neosh_client_version_from_core :: "string \<Rightarrow> string" where
  "neosh_client_version_from_core core =
     (if core = ''neosh/0.1.0'' then ''neosh/0.1.0'' else ''mismatch'')"

section \<open>Control messages\<close>

definition neosh_client_send_control_json ::
  "string + unit \<Rightarrow> ffi_client option \<Rightarrow> bytes option \<Rightarrow> int \<times> ffi_client option" where
  "neosh_client_send_control_json written client json_bytes =
     (case client of
        None \<Rightarrow> (err_invalid_arg, None)
      | Some c \<Rightarrow>
          (case json_bytes of
             None \<Rightarrow> map_prod id Some (set_client_error c ''json_bytes is null'' err_invalid_arg)
           | Some payload \<Rightarrow>
               let frame = encode_frame payload
               in case written of
                    Inr _ \<Rightarrow> (ffi_ok, Some (c\<lparr>fc_sent := fc_sent c @ frame\<rparr>))
                  | Inl e \<Rightarrow>
                      map_prod id Some (set_client_error c (''write control json failed: '' @ e) err_internal)))"

text \<open>\<open>copy_nonoverlapping\<close> to the beginning of a buffer.\<close>

definition copy_to :: "bytes \<Rightarrow> bytes \<Rightarrow> bytes" where
  "copy_to src buf = src @ drop (length src) buf"

text \<open>
  The caller's memory: the output buffer with the capacity it states, and the integer that receives
  the length.
\<close>

record recv_out =
  ro_buf :: "bytes option"
  ro_cap :: nat
  ro_len :: "nat option"

definition neosh_client_recv_control_json ::
  "nat option \<Rightarrow> string \<Rightarrow> ffi_client option \<Rightarrow> recv_out \<Rightarrow> int \<times> recv_out \<times> ffi_client option" where
  "neosh_client_recv_control_json late e client out =
     (case client of
        None \<Rightarrow> (err_invalid_arg, out, None)
      | Some c \<Rightarrow>
          if ro_len out = None
          then (case set_client_error c ''out_len is null'' err_invalid_arg of (code, c') \<Rightarrow> (code, out, Some c'))
          else
            (case read_control_payload_with_timeout late e (fc_recv c) of
               (res, rest) \<Rightarrow>
                 let c1 = c\<lparr>fc_recv := rest\<rparr>
                 in case res of
                      Inl msg \<Rightarrow>
                        (case set_client_error c1 msg err_internal of (code, c') \<Rightarrow> (code, out, Some c'))
                    | Inr None \<Rightarrow> (err_not_ready, out\<lparr>ro_len := Some 0\<rparr>, Some c1)
                    | Inr (Some payload) \<Rightarrow>
                        let out1 = out\<lparr>ro_len := Some (length payload)\<rparr>
                        in if ro_buf out = None \<and> payload \<noteq> []
                           then (case set_client_error c1 ''out_buf is null'' err_invalid_arg of
                                   (code, c') \<Rightarrow> (code, out1, Some c'))
                           else if length payload > ro_cap out
                           then (case set_client_error c1
                                        (''buffer too small, need '' @ show_nat (length payload))
                                        err_buffer_too_small of
                                   (code, c') \<Rightarrow> (code, out1, Some c'))
                           else if payload = [] then (ffi_ok, out1, Some c1)
                           else (ffi_ok, out1\<lparr>ro_buf := map_option (copy_to payload) (ro_buf out)\<rparr>, Some c1)))"

section \<open>Data streams\<close>

definition neosh_client_open_data_streams ::
  "string + unit \<Rightarrow> string + unit \<Rightarrow> ffi_client option \<Rightarrow> int \<times> ffi_client option" where
  "neosh_client_open_data_streams opened accepted client =
     (case client of
        None \<Rightarrow> (err_invalid_arg, None)
      | Some c \<Rightarrow>
          (case opened of
             Inl e \<Rightarrow> map_prod id Some (set_client_error c (''open stdin stream failed: '' @ e) err_internal)
           | Inr _ \<Rightarrow>
               (case accepted of
                  Inl e \<Rightarrow>
                    map_prod id Some (set_client_error c (''accept stdout stream failed: '' @ e) err_internal)
                | Inr _ \<Rightarrow>
                    (ffi_ok, Some (c\<lparr>fc_stdin := Some [], fc_stdin_finished := False, fc_stdout_open := True\<rparr>)))))"

definition not_ready_text :: "string \<Rightarrow> string" where
  "not_ready_text name = name @ '' stream not ready, call neosh_client_open_data_streams first''"

text \<open>
  \<open>data\<close> with \<open>len\<close>: null is allowed for an empty input. \<open>written_len\<close> is the caller's integer.
\<close>

definition neosh_client_send_stdin ::
  "string + unit \<Rightarrow> ffi_client option \<Rightarrow> bytes option \<Rightarrow> nat \<Rightarrow> nat option
   \<Rightarrow> int \<times> nat option \<times> ffi_client option" where
  "neosh_client_send_stdin written client data len written_len =
     (case client of
        None \<Rightarrow> (err_invalid_arg, written_len, None)
      | Some c \<Rightarrow>
          let failed = (\<lambda>msg code. case set_client_error c msg code of (k, c') \<Rightarrow> (k, written_len, Some c'))
          in if written_len = None then failed ''written_len is null'' err_invalid_arg
             else if data = None \<and> len > 0 then failed ''data is null'' err_invalid_arg
             else
               (case fc_stdin c of
                  None \<Rightarrow> failed (not_ready_text ''stdin'') err_not_ready
                | Some sent \<Rightarrow>
                    let input = (case data of None \<Rightarrow> [] | Some d \<Rightarrow> take len d)
                    in case written of
                         Inr _ \<Rightarrow> (ffi_ok, Some len, Some (c\<lparr>fc_stdin := Some (sent @ input)\<rparr>))
                       | Inl e \<Rightarrow> failed (''write stdin failed: '' @ e) err_internal))"

definition neosh_client_finish_stdin :: "string + unit \<Rightarrow> ffi_client option \<Rightarrow> int \<times> ffi_client option" where
  "neosh_client_finish_stdin finished client =
     (case client of
        None \<Rightarrow> (err_invalid_arg, None)
      | Some c \<Rightarrow>
          (case fc_stdin c of
             None \<Rightarrow> map_prod id Some (set_client_error c (not_ready_text ''stdin'') err_not_ready)
           | Some _ \<Rightarrow>
               (case finished of
                  Inr _ \<Rightarrow> (ffi_ok, Some (c\<lparr>fc_stdin_finished := True\<rparr>))
                | Inl e \<Rightarrow> map_prod id Some (set_client_error c (''finish stdin failed: '' @ e) err_internal))))"

datatype stdout_read = StdoutData bytes | StdoutEof | StdoutError string | StdoutTimeout

text \<open>\<open>ro_len\<close> and \<open>eof\<close> are the caller's two integers; a read returns at most the capacity.\<close>

definition neosh_client_recv_stdout ::
  "(nat \<Rightarrow> stdout_read) \<Rightarrow> ffi_client option \<Rightarrow> recv_out \<Rightarrow> nat option
   \<Rightarrow> int \<times> recv_out \<times> nat option \<times> ffi_client option" where
  "neosh_client_recv_stdout rd client out eof =
     (case client of
        None \<Rightarrow> (err_invalid_arg, out, eof, None)
      | Some c \<Rightarrow>
          let failed = (\<lambda>msg code. case set_client_error c msg code of (k, c') \<Rightarrow> (k, out, eof, Some c'))
          in if ro_len out = None \<or> eof = None then failed ''out_len or eof is null'' err_invalid_arg
             else if ro_cap out = 0 then failed ''out_cap is zero'' err_invalid_arg
             else if ro_buf out = None then failed ''out_buf is null'' err_invalid_arg
             else if \<not> fc_stdout_open c then failed (not_ready_text ''stdout'') err_not_ready
             else
               (case rd (ro_cap out) of
                  StdoutData d \<Rightarrow>
                    (ffi_ok, out\<lparr>ro_buf := map_option (copy_to d) (ro_buf out), ro_len := Some (length d)\<rparr>,
                     Some 0, Some c)
                | StdoutEof \<Rightarrow> (ffi_ok, out\<lparr>ro_len := Some 0\<rparr>, Some 1, Some c)
                | StdoutError e \<Rightarrow> failed (''read stdout failed: '' @ e) err_internal
                | StdoutTimeout \<Rightarrow> (err_not_ready, out\<lparr>ro_len := Some 0\<rparr>, Some 0, Some c)))"

section \<open>Frames through the C interface\<close>

lemma read_control_payload_alt:
  "read_control_payload e s =
     (if length s < 4 then Inl (''read control length failed: '' @ e)
      else if header_len s > ffi_max_control_frame then Inl (''control frame too large: '' @ show_nat (header_len s))
      else if length s < 4 + header_len s then Inl (''read control payload failed: '' @ e)
      else Inr (take (header_len s) (drop 4 s), drop (4 + header_len s) s))"
proof (cases "length s < 4")
  case True
  then show ?thesis by (simp add: read_control_payload_def read_exact_def)
next
  case False
  then have h: "read_exact 4 s = Some (take 4 s, drop 4 s)"
    "unat (from_be_bytes (take 4 s ! 0) (take 4 s ! 1) (take 4 s ! 2) (take 4 s ! 3)) = header_len s"
    by (simp_all add: read_exact_def header_len_def)
  have r: "read_exact (header_len s) (drop 4 s) = (if length s < 4 + header_len s then None
      else Some (take (header_len s) (drop 4 s), drop (4 + header_len s) s))"
    using False by (auto simp: read_exact_def add.commute)
  show ?thesis using False
    by (simp only: read_control_payload_def h option.case prod.case Let_def r if_False)
      (simp split: option.split)
qed

interpretation ffi_frames: frame_reader "read_control_payload e" ffi_max_control_frame for e
  by (rule frame_readerI [OF read_control_payload_alt]) (simp add: ffi_max_control_frame_def)

lemma read_with_timeout_frame:
  assumes "read_control_payload e s = Inr (p, rest)"
  shows "read_control_payload_with_timeout None e s = (Inr (Some p), rest)"
  using assms
  by (auto simp: read_control_payload_def read_control_payload_with_timeout_def Let_def
      split: option.splits if_splits)

lemma recv_frame:
  assumes "length p \<le> ffi_max_control_frame" and "fc_recv c = encode_frame p @ rest"
  shows "read_control_payload_with_timeout None e (fc_recv c) = (Inr (Some p), rest)"
  using ffi_frames.reader_encode [OF assms(1)] assms(2) by (simp add: read_with_timeout_frame)

text \<open>
  C39: A call that receives a control message takes its frame off the stream in every case and
  reports its length; the message reaches the caller's buffer, at its beginning, exactly when there
  is a buffer and its capacity suffices. Otherwise nothing is stored and the message is gone: the
  retry with a larger buffer that the code for a buffer that is too small suggests gets the next
  message, not this one.
\<close>

theorem recv_control_json_exact:
  assumes "length p \<le> ffi_max_control_frame" and "fc_recv c = encode_frame p @ rest"
    and "ro_len out \<noteq> None"
    and "neosh_client_recv_control_json None e (Some c) out = (code, out', c')"
  shows "map_option fc_recv c' = Some rest \<and> ro_len out' = Some (length p) \<and>
    (code = ffi_ok \<longleftrightarrow> (p = [] \<or> ro_buf out \<noteq> None) \<and> length p \<le> ro_cap out) \<and>
    ro_buf out' = (if code = ffi_ok then map_option (copy_to p) (ro_buf out) else ro_buf out) \<and>
    (code = err_buffer_too_small \<longleftrightarrow> (p = [] \<or> ro_buf out \<noteq> None) \<and> ro_cap out < length p)"
proof -
  have cb: "map_option (copy_to []) b = b" for b
    by (cases b) (simp_all add: copy_to_def)
  show ?thesis
    using assms(3,4)
    by (simp add: neosh_client_recv_control_json_def recv_frame [OF assms(1,2)] set_client_error_def Let_def
        ffi_ok_def err_buffer_too_small_def err_invalid_arg_def split: if_splits)
      (auto simp: cb)
qed

theorem recv_control_json_exact_witness:
  "\<exists>out' c'. neosh_client_recv_control_json None [] (Some (ffi_client_new (encode_frame [1, 2] @ [9])))
       \<lparr>ro_buf = Some [0], ro_cap = 1, ro_len = Some 0\<rparr> = (err_buffer_too_small, out', c') \<and>
     ro_len out' = Some 2 \<and> map_option fc_recv c' = Some [9]"
proof -
  have l: "length [1, 2 :: u8] \<le> ffi_max_control_frame" by (simp add: ffi_max_control_frame_def)
  have r: "fc_recv (ffi_client_new (encode_frame [1, 2] @ [9])) = encode_frame [1, 2] @ [9]"
    by (simp add: ffi_client_new_def)
  obtain code out' c' where n: "neosh_client_recv_control_json None []
      (Some (ffi_client_new (encode_frame [1, 2] @ [9])))
      \<lparr>ro_buf = Some [0], ro_cap = 1, ro_len = Some 0\<rparr> = (code, out', c')" by (metis prod_cases3)
  from recv_control_json_exact [OF l r _ n] n show ?thesis by auto
qed

text \<open>Receiving messages one after the other, with buffers as large as a frame may be.\<close>

fun recv_all :: "nat \<Rightarrow> ffi_client \<Rightarrow> bytes list" where
  "recv_all 0 c = []"
| "recv_all (Suc n) c =
     (case neosh_client_recv_control_json None [] (Some c)
             \<lparr>ro_buf = Some (replicate ffi_max_control_frame 0), ro_cap = ffi_max_control_frame, ro_len = Some 0\<rparr> of
        (code, out, c') \<Rightarrow>
          if code = ffi_ok
          then take (the (ro_len out)) (the (ro_buf out)) # recv_all n (the c')
          else [])"

text \<open>
  The C client and the server understand each other's frames: what the client sends for a
  message of at most 64 KiB the server's reader takes off as exactly that message, whatever was
  sent before it was read and whatever follows; and a sequence of frames the server wrote is received
  message by message, in order, by calls with large enough buffers.
\<close>

theorem ffi_talks_to_server:
  assumes "\<forall>m\<in>set msgs. length m \<le> ffi_max_control_frame"
  shows "(\<forall>m\<in>set msgs. \<exists>c'. neosh_client_send_control_json (Inr ()) (Some c) (Some m) = (ffi_ok, Some c') \<and>
      (\<forall>e after. \<exists>new. fc_sent c' = fc_sent c @ new \<and> read_control_frame e (new @ after) = Inr (m, after))) \<and>
    (fc_recv c = concat (map encode_frame msgs) \<longrightarrow> recv_all (length msgs) c = msgs)"
proof (intro conjI ballI impI)
  fix m
  assume "m \<in> set msgs"
  with assms have "length m \<le> max_control_frame" by (simp add: ffi_max_control_frame_def max_control_frame_def)
  then have "read_control_frame e (encode_frame m @ after) = Inr (m, after)" for e after
    by (rule server_frames.reader_encode)
  then show "\<exists>c'. neosh_client_send_control_json (Inr ()) (Some c) (Some m) = (ffi_ok, Some c') \<and>
      (\<forall>e after. \<exists>new. fc_sent c' = fc_sent c @ new \<and> read_control_frame e (new @ after) = Inr (m, after))"
    by (intro exI [of _ "c\<lparr>fc_sent := fc_sent c @ encode_frame m\<rparr>"])
      (simp add: neosh_client_send_control_json_def)
next
  show "fc_recv c = concat (map encode_frame msgs) \<Longrightarrow> recv_all (length msgs) c = msgs"
    using assms
  proof (induction msgs arbitrary: c)
    case (Cons m msgs)
    let ?out = "\<lparr>ro_buf = Some (replicate ffi_max_control_frame 0), ro_cap = ffi_max_control_frame, ro_len = Some 0\<rparr>"
    have m: "length m \<le> ffi_max_control_frame" using Cons.prems by simp
    have r: "fc_recv c = encode_frame m @ concat (map encode_frame msgs)" using Cons.prems by simp
    have "neosh_client_recv_control_json None [] (Some c) ?out =
        (ffi_ok, ?out\<lparr>ro_len := Some (length m), ro_buf := Some (copy_to m (replicate ffi_max_control_frame 0))\<rparr>,
         Some (c\<lparr>fc_recv := concat (map encode_frame msgs)\<rparr>))"
      using m by (simp add: neosh_client_recv_control_json_def recv_frame [OF m r] Let_def copy_to_def)
    moreover have "recv_all (length msgs) (c\<lparr>fc_recv := concat (map encode_frame msgs)\<rparr>) = msgs"
      using Cons.prems by (intro Cons.IH) simp_all
    ultimately show ?case by (simp add: copy_to_def)
  qed simp
qed

theorem ffi_talks_to_server_witness:
  "recv_all 2 (ffi_client_new (encode_frame [1] @ encode_frame [2, 3])) = [[1], [2, 3]]"
proof -
  have "\<forall>m\<in>set [[1], [2, 3 :: u8]]. length m \<le> ffi_max_control_frame"
    by (simp add: ffi_max_control_frame_def)
  from ffi_talks_to_server [OF this, of "ffi_client_new (encode_frame [1] @ encode_frame [2, 3])"]
  show ?thesis by (simp add: ffi_client_new_def numeral_2_eq_2 del: recv_all.simps)
qed

end
