(* ===== verification/End_To_End.thy ===== *)
theory End_To_End
  imports Client_Session Connection_Correct Server_Loop
begin

text \<open>
  Client and server on one connection: the frames the server's connection loop writes for the
  messages of a client's handshake (\<open>handle_connection\<close> in \<open>src/src/bin/neoshd.rs\<close>) are what the
  client reads in that handshake (\<open>run_session\<close> in \<open>src/src/bin/neosh.rs\<close>). The two JSON libraries
  are parameters of each side; that they agree on the messages of the protocol is the hypothesis
  \<open>server_reads\<close> and \<open>client_reads\<close>.
\<close>

section \<open>What the two sides make of each other's messages\<close>

fun reads_as :: "'v codec \<Rightarrow> bytes \<Rightarrow> client_msg \<Rightarrow> bool" where
  "reads_as cd p (CHello _ _ _) \<longleftrightarrow> de_type cd p = Some ''HELLO''"
| "reads_as cd p (CAuth _ token) \<longleftrightarrow>
     de_type cd p = Some ''AUTH'' \<and> de_auth cd p = Inr \<lparr>aq_token = token\<rparr>"
| "reads_as cd p (CAttach sid _) \<longleftrightarrow>
     de_type cd p = Some ''ATTACH'' \<and> de_attach cd p = Inr \<lparr>tq_session_id = sid\<rparr>"
| "reads_as cd p (CResume sid token) \<longleftrightarrow>
     de_type cd p = Some ''RESUME'' \<and>
     de_resume cd p = Inr \<lparr>rq_session_id = sid, rq_resume_token = token\<rparr>"
| "reads_as cd p (CResize rows cols) \<longleftrightarrow>
     de_type cd p = Some ''RESIZE'' \<and> de_resize cd p = Inr \<lparr>zq_rows = rows, zq_cols = cols\<rparr>"
| "reads_as cd p CDetach \<longleftrightarrow> de_type cd p = Some ''DETACH''"
| "reads_as cd p (CClose _) \<longleftrightarrow> de_type cd p = Some ''CLOSE''"
| "reads_as cd p (CPing _) \<longleftrightarrow> de_type cd p = Some ''PING''"

fun shows_as :: "'w json_api \<Rightarrow> 'w \<Rightarrow> 'v server_msg \<Rightarrow> bool" where
  "shows_as J v (HelloAck _ _ _ _) \<longleftrightarrow> message_type J v = Some ''HELLO_ACK''"
| "shows_as J v (AuthOk sid token ttl) \<longleftrightarrow>
     message_type J v = Some ''AUTH_OK'' \<and>
     js_auth_ok J v = Inr \<lparr>ak_session_id = sid, ak_resume_token = token,
       ak_resume_token_expires_in_seconds = ttl\<rparr>"
| "shows_as J v (AttachOk _) \<longleftrightarrow> message_type J v = Some ''ATTACH_OK''"
| "shows_as J v (ResumeOk sid n) \<longleftrightarrow>
     message_type J v = Some ''RESUME_OK'' \<and>
     js_resume_ok J v = Inr \<lparr>rk_session_id = sid, rk_replay_bytes = n\<rparr>"
| "shows_as J v (PongReply _) \<longleftrightarrow> message_type J v = Some ''PONG''"
| "shows_as J v (ErrorFrame _) \<longleftrightarrow> message_type J v = Some ''ERROR''"

text \<open>The payload of a message of the client.\<close>

definition client_payload :: "'w json_api \<Rightarrow> client_msg \<Rightarrow> bytes \<Rightarrow> bool" where
  "client_payload J m p \<longleftrightarrow> js_to_vec J (js_object J m) = Inr p"

definition server_reads :: "'v codec \<Rightarrow> 'w json_api \<Rightarrow> client_msg \<Rightarrow> bool" where
  "server_reads cd J m \<longleftrightarrow>
     (\<exists>p. client_payload J m p \<and> length p \<le> max_control_frame \<and> reads_as cd p m)"

definition client_reads :: "'v codec \<Rightarrow> 'w json_api \<Rightarrow> 'v server_msg \<Rightarrow> bool" where
  "client_reads cd J m \<longleftrightarrow>
     (\<exists>p v. ser_msg cd m = Inr p \<and> length p \<le> client_max_control_frame \<and>
        js_from_slice J p = Inr v \<and> shows_as J v m)"

text \<open>Writes that succeed on either side, and the streams and files of an attachment.\<close>

definition server_io_ok :: "conn_env \<Rightarrow> bool" where
  "server_io_ok e \<longleftrightarrow> (\<forall>b. ce_write e b = Inr ()) \<and> ce_open_uni e = Inr () \<and> (\<forall>b. ce_write_uni e b = Inr ())"

lemma send_json_ok:
  "client_payload (ev_json env) m p \<Longrightarrow> \<forall>m. ev_write env m = Inr () \<Longrightarrow>
   send_json env m s = (Inr (), s\<lparr>cs_sent := cs_sent s @ [m]\<rparr>)"
  by (simp add: send_json_def client_payload_def encode_control_json_def)

lemma recv_json_ok:
  assumes "ser_msg cd m = Inr p" and "client_reads cd (ev_json env) m"
  shows "\<exists>v. (\<forall>s rest. cs_recv s = encode_frame p @ rest \<longrightarrow>
    recv_json env s = (Inr v, s\<lparr>cs_recv := rest\<rparr>)) \<and> shows_as (ev_json env) v m"
  using assms by (fastforce simp: client_reads_def recv_json_def read_json_encode)

lemma write_ok:
  "ser_msg cd m = Inr p \<Longrightarrow> server_io_ok e \<Longrightarrow> write_control_json cd (ce_write e) m = Inr (encode_frame p)"
  by (simp add: write_control_json_def server_io_ok_def)

section \<open>The server's rounds\<close>

lemma hello_round:
  assumes "reads_as cd p (CHello a b l)" and "disp_state (cn_dispatcher c) = AwaitHello" and "server_io_ok e"
    and "ser_msg cd (HelloAck ''0.1.0'' server_version [''stdin-bytes'', ''resume-v1'']
      (duration_as_secs (srv_session_timeout st))) = Inr r"
  shows "conn_round cd C e p c st =
    (NextFrame, encode_frame r, c\<lparr>cn_dispatcher := \<lparr>disp_state = AwaitAuth\<rparr>\<rparr>, st)"
  using assms write_ok [OF assms(4,3)]
  by (simp add: conn_round_def on_control_frame_def parse_message_kind_def handle_hello_def send_then_def)

lemma auth_round:
  assumes "reads_as cd p (CAuth ty token)" and "disp_state (cn_dispatcher c) = AwaitAuth" and "server_io_ok e"
    and "validate_and_consume_auth C (srv_tokens st) token (srv_session_id st) (srv_owner_user st) (ce_now e) =
      (Inr (), svc)"
    and "srv_issue_resume_token C (ce_issue e) (st\<lparr>srv_tokens := svc\<rparr>) = Some (resume, st')"
    and "ser_msg cd (AuthOk (srv_session_id st) resume (duration_as_secs (srv_resume_token_ttl st))) = Inr r"
  shows "conn_round cd C e p c st =
    (NextFrame, encode_frame r,
     c\<lparr>cn_dispatcher := \<lparr>disp_state = AwaitAttachOrResume\<rparr>, cn_authed := True\<rparr>, st')"
proof -
  have "srv_session_id st' = srv_session_id st" "srv_resume_token_ttl st' = srv_resume_token_ttl st"
    using assms(5) by (auto simp: srv_issue_resume_token_def)
  with assms write_ok [OF assms(6,3)] show ?thesis
    by (simp add: conn_round_def on_control_frame_def parse_message_kind_def handle_auth_def send_then_def)
qed


lemma ensure_pty_result:
  "fst (ensure_pty_runtime pe (st\<lparr>srv_tokens := t, srv_sessions := m, srv_detached_at := d\<rparr>)) =
   fst (ensure_pty_runtime pe st)"
  by (auto simp: ensure_pty_runtime_def Let_def split: sum.splits prod.splits)

lemma token_frame:
  "srv_session_id (st\<lparr>srv_tokens := t\<rparr>) = srv_session_id st"
  "srv_owner_user (st\<lparr>srv_tokens := t\<rparr>) = srv_owner_user st"
  "srv_sessions (st\<lparr>srv_tokens := t\<rparr>) = srv_sessions st"
  "srv_replay (st\<lparr>srv_tokens := t\<rparr>) = srv_replay st"
  "server_wf (st\<lparr>srv_tokens := t\<rparr>) \<longleftrightarrow> server_wf st"
  "fst (ensure_pty_runtime pe (st\<lparr>srv_tokens := t\<rparr>)) = fst (ensure_pty_runtime pe st)"
  by (auto simp: server_wf_def srv_session_def ensure_pty_runtime_def Let_def split: sum.splits prod.splits)

lemma data_plane_ok:
  "ensure_pty_runtime pe st = (Inr (), st') \<Longrightarrow> server_wf st \<Longrightarrow> server_io_ok e \<Longrightarrow>
   \<exists>dp. start_data_plane (ce_open_uni e) (ce_write_uni e) st' resume = Inr dp"
  by (auto simp: start_data_plane_def data_plane_snapshot_def server_io_ok_def dest: ensure_pty_ok)

text \<open>The reply to \<open>ATTACH\<close> or \<open>RESUME\<close>.\<close>

fun join_reply :: "session_mode \<Rightarrow> server_state \<Rightarrow> 'v server_msg" where
  "join_reply SmAttach st = AttachOk (srv_session_id st)"
| "join_reply (SmResume _ _) st = ResumeOk (srv_session_id st) (length (srv_replay st))"

fun may_join :: "crypto \<Rightarrow> system_time \<Rightarrow> session_mode \<Rightarrow> server_state \<Rightarrow> bool" where
  "may_join C now SmAttach st \<longleftrightarrow> True"
| "may_join C now (SmResume _ token) st \<longleftrightarrow>
     fst (validate_resume C (srv_tokens st) token (srv_session_id st) (srv_owner_user st) now) = Inr ()"

lemma resume_ok_usable:
  "fst (validate_resume C svc raw sid user now) = Inr () \<longleftrightarrow>
   (\<exists>exp. usable C ResumeToken raw sid user exp svc \<and> now < exp)"
  by (auto simp: resume_ok_iff usable_def)

lemma join_round:
  assumes "reads_as cd p (join_msg mode ok)" and "ak_session_id ok = srv_session_id st"
    and "disp_state (cn_dispatcher c) = AwaitAttachOrResume" and "cn_authed c"
    and "server_io_ok e" and "may_join C (ce_now e) mode st"
    and "attach_exclusive (srv_sessions st) (srv_session_id st) (cn_id c) = (Inr epoch, m)"
    and "server_wf st" and "fst (ensure_pty_runtime (ce_pty e) st) = Inr ()"
    and "ser_msg cd (join_reply mode st) = Inr r"
  shows "\<exists>st'. conn_round cd C e p c st =
      (NextFrame, encode_frame r,
       c\<lparr>cn_dispatcher := \<lparr>disp_state = ConnAttached\<rparr>, cn_attached_epoch := Some epoch\<rparr>, st') \<and>
    srv_sessions st' = m \<and> srv_tokens st' = srv_tokens st"
proof -
  let ?st = "st\<lparr>srv_sessions := m, srv_detached_at := None\<rparr>"
  have "fst (ensure_pty_runtime (ce_pty e) ?st) = Inr ()"
    using ensure_pty_result [where pe = "ce_pty e" and st = st and t = "srv_tokens st" and m = m and d = None] assms(9) by simp
  then obtain st' where e: "ensure_pty_runtime (ce_pty e) ?st = (Inr (), st')"
    by (cases "ensure_pty_runtime (ce_pty e) ?st") auto
  note f = ensure_pty_frame [OF e]
  have dp: "\<exists>dp. start_data_plane (ce_open_uni e) (ce_write_uni e) st' b = Inr dp" for b
    by (rule data_plane_ok [OF e server_wf_attach [OF assms(8,7)] assms(5)])
  note w = write_ok [OF assms(10,5)]
  show ?thesis
  proof (cases mode)
    case SmAttach
    with assms e f w dp [of False] show ?thesis
      by (auto simp: conn_round_def on_control_frame_def parse_message_kind_def handle_attach_def
          attach_locked_def finish_attach_def)
  next
    case (SmResume sid token)
    then obtain svc where v: "validate_resume C (srv_tokens st) token (srv_session_id st) (srv_owner_user st)
        (ce_now e) = (Inr (), svc)"
      using assms(6) by (auto simp: prod_eq_iff)
    then have "svc = srv_tokens st" by (rule validate_resume_state)
    with SmResume v assms e f w dp [of True] show ?thesis
      by (auto simp: conn_round_def on_control_frame_def parse_message_kind_def handle_resume_def
          attach_locked_def finish_attach_def)
  qed
qed

lemma loop_three:
  assumes "conn_round cd C e1 p1 c st = (NextFrame, o1, c1, st1)"
    and "conn_round cd C e2 p2 c1 st1 = (NextFrame, o2, c2, st2)"
    and "conn_round cd C e3 p3 c2 st2 = (NextFrame, o3, c3, st3)"
  shows "conn_loop cd C (zip [e1, e2, e3] (map Inr [p1, p2, p3])) c st = (NextFrame, o1 @ o2 @ o3, c3, st3)"
  using assms by simp

section \<open>The client's phases\<close>

lemma hello_phase_ok:
  assumes "client_payload (ev_json env) hello_msg p" and "\<forall>m. ev_write env m = Inr ()"
    and "ser_msg cd (HelloAck a b l t) = Inr r" and "client_reads cd (ev_json env) (HelloAck a b l t)"
    and "cs_recv s = encode_frame r @ rest"
  shows "hello_phase env s = (Inr (), s\<lparr>cs_sent := cs_sent s @ [hello_msg], cs_recv := rest\<rparr>)"
proof -
  note r = recv_json_ok [OF assms(3,4)]
  show ?thesis
    using r send_json_ok [OF assms(1,2)] assms(5)
    by (auto simp: hello_phase_def expect_type_def act_then_def hello_msg_def [symmetric])
qed

lemma auth_phase_ok:
  assumes "client_payload (ev_json env) (CAuth ''ssh-token'' token) p" and "\<forall>m. ev_write env m = Inr ()"
    and "ser_msg cd (AuthOk sid resume ttl) = Inr r" and "client_reads cd (ev_json env) (AuthOk sid resume ttl)"
    and "cs_recv s = encode_frame r @ rest"
  shows "auth_phase env token s =
    (Inr \<lparr>ak_session_id = sid, ak_resume_token = resume, ak_resume_token_expires_in_seconds = ttl\<rparr>,
     s\<lparr>cs_sent := cs_sent s @ [CAuth ''ssh-token'' token], cs_recv := rest,
       cs_log := cs_log s @ [''auth_ok'']\<rparr>)"
  using recv_json_ok [OF assms(3,4)] send_json_ok [OF assms(1,2)] assms(5)
  by (auto simp: auth_phase_def act_then_def)

lemma join_phase_ok:
  assumes "client_payload (ev_json env) (join_msg mode ok) p" and "\<forall>m. ev_write env m = Inr ()"
    and "ser_msg cd (join_reply mode st) = Inr r" and "client_reads cd (ev_json env) (join_reply mode st)"
    and "cs_recv s = encode_frame r @ rest"
  shows "\<exists>l. join_phase env mode ok s =
    (Inr (), s\<lparr>cs_sent := cs_sent s @ [join_msg mode ok], cs_recv := rest, cs_log := l\<rparr>)"
  using recv_json_ok [OF assms(3,4)] send_json_ok [OF assms(1,2)] assms(5)
  by (cases mode) (auto simp: join_phase_def expect_type_def act_then_def)


lemma client_run:
  "hello_phase env s = (Inr u, s1) \<Longrightarrow> auth_phase env (bp_auth_token payload) s1 = (Inr ok, s2) \<Longrightarrow>
   store_entry env (session_entry env target payload ok) s2 = (Inr u', s3) \<Longrightarrow>
   join_phase env mode ok s3 = (Inr u'', s4) \<Longrightarrow>
   run_handshake env target payload mode s = (Inr ok, s4)"
  by (simp add: run_handshake_def act_then_def)

section \<open>The handshake of both\<close>

text \<open>What \<open>AUTH_OK\<close> hands out.\<close>

definition granted :: "crypto \<Rightarrow> conn_env \<Rightarrow> server_state \<Rightarrow> auth_ok" where
  "granted C e st =
     \<lparr>ak_session_id = srv_session_id st,
      ak_resume_token = random_token C (env_rnd (ce_issue e)),
      ak_resume_token_expires_in_seconds = duration_as_secs (srv_resume_token_ttl st)\<rparr>"

text \<open>The messages of a handshake and its replies.\<close>

definition handshake_msgs :: "string \<Rightarrow> session_mode \<Rightarrow> auth_ok \<Rightarrow> client_msg list" where
  "handshake_msgs token mode ok = [hello_msg, CAuth ''ssh-token'' token, join_msg mode ok]"

definition handshake_replies :: "session_mode \<Rightarrow> auth_ok \<Rightarrow> server_state \<Rightarrow> 'v server_msg list" where
  "handshake_replies mode ok st =
     [HelloAck ''0.1.0'' server_version [''stdin-bytes'', ''resume-v1''] (duration_as_secs (srv_session_timeout st)),
      AuthOk (srv_session_id st) (ak_resume_token ok) (ak_resume_token_expires_in_seconds ok),
      join_reply mode st]"

lemma auth_keeps_absent:
  assumes "find_record C svc raw = None"
  shows "find_record C (snd (validate_and_consume_auth C svc token sid user now)) raw = None"
proof -
  have "\<not> token_matches C raw r" if "r \<in> set (update_first P (\<lambda>r. r\<lparr>consumed_at := Some now\<rparr>) svc)" for P r
    using assms subsetD [OF set_update_first that]
    by (auto simp: find_record_def find_None_iff token_matches_def)
  with assms show ?thesis
    by (auto simp: validate_and_consume_auth_def find_record_def find_None_iff split: option.split)
qed

text \<open>The authentication of a connection, by the operations of the token service.\<close>

lemma auth_and_grant:
  assumes C: "ct_eq_exact C"
    and a: "fst (validate_and_consume_auth C (srv_tokens st) token (srv_session_id st) (srv_owner_user st) now) =
      Inr ()"
    and fresh: "find_record C (srv_tokens st) (random_token C (env_rnd ie)) = None"
    and time: "system_time_add (env_now ie) (srv_resume_token_ttl st) \<noteq> None"
  shows "\<exists>svc st'. validate_and_consume_auth C (srv_tokens st) token (srv_session_id st) (srv_owner_user st) now =
      (Inr (), svc) \<and>
    srv_issue_resume_token C ie (st\<lparr>srv_tokens := svc\<rparr>) = Some (random_token C (env_rnd ie), st') \<and>
    st' = st\<lparr>srv_tokens := srv_tokens st'\<rparr> \<and>
    usable C ResumeToken (random_token C (env_rnd ie)) (srv_session_id st) (srv_owner_user st)
      (env_now ie + int (srv_resume_token_ttl st)) (srv_tokens st') \<and>
    (\<forall>raw exp. usable C ResumeToken raw (srv_session_id st) (srv_owner_user st) exp (srv_tokens st) \<longrightarrow>
       usable C ResumeToken raw (srv_session_id st) (srv_owner_user st) exp (srv_tokens st'))"
proof -
  let ?raw = "random_token C (env_rnd ie)"
  let ?au = "TAuth token (srv_session_id st) (srv_owner_user st) now"
  let ?is = "TIssue ResumeToken (srv_session_id st) (srv_owner_user st) (srv_resume_token_ttl st)
    (env_rnd ie) (env_jti ie) (env_now ie)"
  define svc where "svc = token_exec C (srv_tokens st) ?au"
  have v: "validate_and_consume_auth C (srv_tokens st) token (srv_session_id st) (srv_owner_user st) now =
      (Inr (), svc)"
    using a by (simp add: svc_def prod_eq_iff)
  obtain svc' where i: "issue_token C svc ResumeToken (srv_session_id st) (srv_owner_user st)
      (srv_resume_token_ttl st) (env_rnd ie) (env_jti ie) (env_now ie) = Some (?raw, svc')"
    using time by (auto simp: issue_token_def Let_def)
  have none: "find_record C svc ?raw = None"
    using auth_keeps_absent [OF fresh] by (simp add: svc_def)
  have keep: "usable C ResumeToken raw (srv_session_id st) (srv_owner_user st) exp svc'"
    if "usable C ResumeToken raw (srv_session_id st) (srv_owner_user st) exp (srv_tokens st)" for raw exp
    using usable_run [OF C that, of "[?au, ?is]"] i by (simp add: svc_def)
  have "srv_issue_resume_token C ie (st\<lparr>srv_tokens := svc\<rparr>) = Some (?raw, st\<lparr>srv_tokens := svc'\<rparr>)"
    using i by (simp add: srv_issue_resume_token_def issue_resume_token_def)
  with v usable_issued [OF i C none] keep show ?thesis by auto
qed


text \<open>
  A handshake of a client with a server whose session is free, with tokens it accepts: the loop of
  the server and the handshake of the client succeed on each other's messages.
\<close>

lemma handshake_succeeds:
  assumes C: "ct_eq_exact C" and wf: "server_wf st"
    and ok: "ok = granted C e2 st"
    and auth: "fst (validate_and_consume_auth C (srv_tokens st) (bp_auth_token payload) (srv_session_id st)
      (srv_owner_user st) (ce_now e2)) = Inr ()"
    and mode: "may_join C (ce_now e3) mode st"
    and fresh: "find_record C (srv_tokens st) (ak_resume_token ok) = None"
    and time: "system_time_add (env_now (ce_issue e2)) (srv_resume_token_ttl st) \<noteq> None"
    and free: "attach_exclusive (srv_sessions st) (srv_session_id st) cid = (Inr epoch, m)"
    and pty: "fst (ensure_pty_runtime (ce_pty e3) st) = Inr ()"
    and io: "server_io_ok e1" "server_io_ok e2" "server_io_ok e3" "\<forall>m. ev_write env m = Inr ()"
    and put: "cache_put (ev_io env) (ev_root env) (session_entry env target payload ok) (cs_files s) = (Inr (), fs)"
    and cm: "\<forall>m\<in>set (handshake_msgs (bp_auth_token payload) mode ok). server_reads cd (ev_json env) m"
    and sm: "\<forall>m\<in>set (handshake_replies mode ok st). client_reads cd (ev_json env) m"
  shows "\<exists>ps frames c' st' s'.
    list_all2 (client_payload (ev_json env)) (handshake_msgs (bp_auth_token payload) mode ok) ps \<and>
    (\<forall>p\<in>set ps. length p \<le> max_control_frame) \<and>
    conn_loop cd C (zip [e1, e2, e3] (map Inr ps)) (conn_new cid) st = (NextFrame, frames, c', st') \<and>
    run_handshake env target payload mode (s\<lparr>cs_recv := frames @ rest\<rparr>) = (Inr ok, s') \<and>
    cs_sent s' = cs_sent s @ handshake_msgs (bp_auth_token payload) mode ok \<and> cs_recv s' = rest \<and>
    cs_files s' = fs \<and>
    cn_attached_epoch c' = Some epoch \<and> srv_sessions st' = m \<and>
    usable C ResumeToken (ak_resume_token ok) (srv_session_id st) (srv_owner_user st)
      (env_now (ce_issue e2) + int (srv_resume_token_ttl st)) (srv_tokens st')"
proof -
  let ?J = "ev_json env" and ?au = "CAuth ''ssh-token'' (bp_auth_token payload)"
  let ?hello = "HelloAck ''0.1.0'' server_version [''stdin-bytes'', ''resume-v1'']
    (duration_as_secs (srv_session_timeout st))"
  let ?authok = "AuthOk (srv_session_id st) (ak_resume_token ok) (ak_resume_token_expires_in_seconds ok)"
  have sid: "ak_session_id ok = srv_session_id st"
    and rt: "ak_resume_token ok = random_token C (env_rnd (ce_issue e2))"
    and ttl: "ak_resume_token_expires_in_seconds ok = duration_as_secs (srv_resume_token_ttl st)"
    by (simp_all add: ok granted_def)
  from cm obtain p1 p2 p3 where
    p: "client_payload ?J hello_msg p1" "client_payload ?J ?au p2" "client_payload ?J (join_msg mode ok) p3"
      "length p1 \<le> max_control_frame" "length p2 \<le> max_control_frame" "length p3 \<le> max_control_frame"
    and reads: "reads_as cd p1 hello_msg" "reads_as cd p2 ?au" "reads_as cd p3 (join_msg mode ok)"
    by (auto simp: handshake_msgs_def server_reads_def)
  from sm have shown: "client_reads cd ?J ?hello" "client_reads cd ?J ?authok"
      "client_reads cd ?J (join_reply mode st)"
    by (simp_all add: handshake_replies_def)
  then obtain r1 r2 r3 where
    r: "ser_msg cd ?hello = Inr r1" "ser_msg cd ?authok = Inr r2" "ser_msg cd (join_reply mode st) = Inr r3"
    by (auto simp: client_reads_def)
  obtain svc st2 where
    v: "validate_and_consume_auth C (srv_tokens st) (bp_auth_token payload) (srv_session_id st)
        (srv_owner_user st) (ce_now e2) = (Inr (), svc)"
    and iss: "srv_issue_resume_token C (ce_issue e2) (st\<lparr>srv_tokens := svc\<rparr>) = Some (ak_resume_token ok, st2)"
    and st2: "st2 = st\<lparr>srv_tokens := srv_tokens st2\<rparr>"
    and use: "usable C ResumeToken (ak_resume_token ok) (srv_session_id st) (srv_owner_user st)
        (env_now (ce_issue e2) + int (srv_resume_token_ttl st)) (srv_tokens st2)"
    and keep: "\<And>raw exp. usable C ResumeToken raw (srv_session_id st) (srv_owner_user st) exp (srv_tokens st) \<Longrightarrow>
        usable C ResumeToken raw (srv_session_id st) (srv_owner_user st) exp (srv_tokens st2)"
    using auth_and_grant [OF C auth fresh [unfolded rt] time] rt by metis
  have same: "srv_session_id st2 = srv_session_id st" "srv_owner_user st2 = srv_owner_user st"
      "srv_sessions st2 = srv_sessions st" "srv_replay st2 = srv_replay st"
      "server_wf st2 \<longleftrightarrow> server_wf st"
      "fst (ensure_pty_runtime (ce_pty e3) st2) = fst (ensure_pty_runtime (ce_pty e3) st)"
    using token_frame [where st = st and t = "srv_tokens st2"] st2 by metis+
  let ?c2 = "(conn_new cid)\<lparr>cn_dispatcher := \<lparr>disp_state = AwaitAuth\<rparr>\<rparr>"
  let ?c3 = "?c2\<lparr>cn_dispatcher := \<lparr>disp_state = AwaitAttachOrResume\<rparr>, cn_authed := True\<rparr>"
  have 1: "conn_round cd C e1 p1 (conn_new cid) st = (NextFrame, encode_frame r1, ?c2, st)"
    by (rule hello_round [OF reads(1) [unfolded hello_msg_def] _ io(1) r(1)])
      (simp add: conn_new_def dispatcher_default_def)
  have 2: "conn_round cd C e2 p2 ?c2 st = (NextFrame, encode_frame r2, ?c3, st2)"
    by (rule auth_round [OF reads(2) _ io(2) v iss r(2) [unfolded ttl]]) simp
  have may: "may_join C (ce_now e3) mode st2"
    using mode keep same by (cases mode) (fastforce simp: resume_ok_usable)+
  have r3: "ser_msg cd (join_reply mode st2) = Inr r3"
    using r(3) same by (cases mode) simp_all
  obtain st3 where 3: "conn_round cd C e3 p3 ?c3 st2 = (NextFrame, encode_frame r3,
      ?c3\<lparr>cn_dispatcher := \<lparr>disp_state = ConnAttached\<rparr>, cn_attached_epoch := Some epoch\<rparr>, st3)"
    and st3: "srv_sessions st3 = m" "srv_tokens st3 = srv_tokens st2"
    using join_round [OF reads(3) _ _ _ io(3) may _ _ _ r3, of ?c3 epoch m] sid same free wf pty
    by (auto simp: conn_new_def)
  have loop: "conn_loop cd C (zip [e1, e2, e3] (map Inr [p1, p2, p3])) (conn_new cid) st =
      (NextFrame, encode_frame r1 @ encode_frame r2 @ encode_frame r3,
       ?c3\<lparr>cn_dispatcher := \<lparr>disp_state = ConnAttached\<rparr>, cn_attached_epoch := Some epoch\<rparr>, st3)"
    using loop_three [OF 1 2 3] by simp
  define f where "f = encode_frame r1 @ encode_frame r2 @ encode_frame r3"
  have "\<exists>s'. run_handshake env target payload mode (s\<lparr>cs_recv := f @ rest\<rparr>) = (Inr ok, s') \<and>
      cs_sent s' = cs_sent s @ handshake_msgs (bp_auth_token payload) mode ok \<and> cs_recv s' = rest \<and>
      cs_files s' = fs"
  proof -
    let ?s1 = "s\<lparr>cs_sent := cs_sent s @ [hello_msg], cs_recv := encode_frame r2 @ encode_frame r3 @ rest\<rparr>"
    let ?s2 = "?s1\<lparr>cs_sent := cs_sent ?s1 @ [?au], cs_recv := encode_frame r3 @ rest,
      cs_log := cs_log ?s1 @ [''auth_ok'']\<rparr>"
    have c1: "hello_phase env (s\<lparr>cs_recv := f @ rest\<rparr>) = (Inr (), ?s1)"
      using hello_phase_ok [OF p(1) io(4) r(1) shown(1), of "s\<lparr>cs_recv := f @ rest\<rparr>"]
      by (simp add: f_def)
    have c2: "auth_phase env (bp_auth_token payload) ?s1 = (Inr ok, ?s2)"
      using auth_phase_ok [OF p(2) io(4) r(2) shown(2), of ?s1 "encode_frame r3 @ rest"] sid by simp
    have c3: "store_entry env (session_entry env target payload ok) ?s2 = (Inr (), ?s2\<lparr>cs_files := fs\<rparr>)"
      using put by (simp add: store_entry_def)
    from join_phase_ok [OF p(3) io(4) r(3) shown(3), of "?s2\<lparr>cs_files := fs\<rparr>" rest]
    obtain l where c4: "join_phase env mode ok (?s2\<lparr>cs_files := fs\<rparr>) =
        (Inr (), ?s2\<lparr>cs_files := fs, cs_sent := cs_sent ?s2 @ [join_msg mode ok], cs_recv := rest, cs_log := l\<rparr>)"
      by auto
    show ?thesis
      using client_run [OF c1 c2 c3 c4] by (simp add: handshake_msgs_def)
  qed
  moreover have "list_all2 (client_payload ?J) (handshake_msgs (bp_auth_token payload) mode ok) [p1, p2, p3]"
    using p by (simp add: handshake_msgs_def)
  moreover have "\<forall>p\<in>set [p1, p2, p3]. length p \<le> max_control_frame" using p by simp
  ultimately show ?thesis using loop use st3 unfolding f_def [symmetric] by fastforce
qed


text \<open>Bootstrap data hand out a token that authenticates until it expires.\<close>

lemma bootstrap_authenticates:
  assumes "srv_bootstrap_output C ie st0 = Some (out, st)" and "ct_eq_exact C" and "server_wf st0"
    and "find_record C (srv_tokens st0) (random_token C (env_rnd ie)) = None"
    and "now < env_now ie + int (srv_auth_token_ttl st0)"
  shows "fst (validate_and_consume_auth C (srv_tokens st) (bo_auth_token out) (srv_session_id st)
      (srv_owner_user st) now) = Inr ()"
    and "server_wf st" and "st = st0\<lparr>srv_tokens := srv_tokens st\<rparr>"
    and "usable C ResumeToken raw (srv_session_id st) (srv_owner_user st) exp (srv_tokens st0) \<Longrightarrow>
      usable C ResumeToken raw (srv_session_id st) (srv_owner_user st) exp (srv_tokens st)"
proof -
  note b = srv_bootstrap_Some [OF assms(1)]
  show "server_wf st" using assms(3,1) by (rule bootstrap_output_keeps_wf)
  show st: "st = st0\<lparr>srv_tokens := srv_tokens st\<rparr>" using b by blast
  have raw: "bo_auth_token out = random_token C (env_rnd ie)"
    using b by (auto simp: issue_token_def Let_def split: option.splits)
  have "usable C AuthToken (bo_auth_token out) (srv_session_id st0) (srv_owner_user st0)
      (env_now ie + int (srv_auth_token_ttl st0)) (srv_tokens st)"
    by (rule usable_issued) (use b raw assms(2,4) in auto)
  moreover have "srv_session_id st = srv_session_id st0" "srv_owner_user st = srv_owner_user st0"
    using st token_frame [where st = st0 and t = "srv_tokens st"] by metis+
  ultimately show "fst (validate_and_consume_auth C (srv_tokens st) (bo_auth_token out) (srv_session_id st)
      (srv_owner_user st) now) = Inr ()"
    using assms(5) by (auto simp: usable_def auth_ok_iff)
  let ?is = "TIssue AuthToken (srv_session_id st0) (srv_owner_user st0) (srv_auth_token_ttl st0)
    (env_rnd ie) (env_jti ie) (env_now ie)"
  have "srv_tokens st = token_exec C (srv_tokens st0) ?is" using b by simp
  then show "usable C ResumeToken raw (srv_session_id st) (srv_owner_user st) exp (srv_tokens st)"
    if "usable C ResumeToken raw (srv_session_id st) (srv_owner_user st) exp (srv_tokens st0)"
    using usable_run [OF assms(2) that, of "[?is]"] by simp
qed

text \<open>
  C3: A client that has the bootstrap data of a server handshakes with it: from the frames of its
  three messages the server's loop reads those messages, and from the frames the server writes for
  them the client's handshake succeeds, attaching or resuming, with the id of the session, while
  the session is held by that connection. The resume token the client has stored is one the server
  will accept until it expires. This holds when the two JSON libraries agree on the six messages,
  reads and writes succeed, the session is free, the auth token has not expired, the terminal is
  there or can be started, and, to resume, the server accepts the token.
\<close>

theorem client_and_server_handshake:
  assumes "ct_eq_exact C" and "server_wf st0"
    and "srv_bootstrap_output C ie st0 = Some (out, st)"
    and "bp_auth_token payload = bo_auth_token out" and "ce_now e2 < env_now ie + int (srv_auth_token_ttl st0)"
    and "find_record C (srv_tokens st0) (random_token C (env_rnd ie)) = None"
    and "ok = granted C e2 st"
    and "may_join C (ce_now e3) mode st"
    and "find_record C (srv_tokens st) (ak_resume_token ok) = None"
    and "system_time_add (env_now (ce_issue e2)) (srv_resume_token_ttl st) \<noteq> None"
    and "attach_exclusive (srv_sessions st) (srv_session_id st) cid = (Inr epoch, m)"
    and "fst (ensure_pty_runtime (ce_pty e3) st) = Inr ()"
    and "server_io_ok e1" "server_io_ok e2" "server_io_ok e3" "\<forall>m. ev_write env m = Inr ()"
    and "cache_put (ev_io env) (ev_root env) (session_entry env target payload ok) (cs_files s) = (Inr (), fs)"
    and "\<forall>m\<in>set (handshake_msgs (bp_auth_token payload) mode ok). server_reads cd (ev_json env) m"
    and "\<forall>m\<in>set (handshake_replies mode ok st). client_reads cd (ev_json env) m"
  shows "\<exists>ps frames c' st' s'.
    list_all2 (client_payload (ev_json env)) (handshake_msgs (bp_auth_token payload) mode ok) ps \<and>
    read_frames (read_control_frame err) 3 (concat (map encode_frame ps) @ rest') = ps \<and>
    conn_loop cd C (zip [e1, e2, e3] (map Inr ps)) (conn_new cid) st = (NextFrame, frames, c', st') \<and>
    run_handshake env target payload mode (s\<lparr>cs_recv := frames @ rest\<rparr>) = (Inr ok, s') \<and>
    cs_sent s' = cs_sent s @ handshake_msgs (bp_auth_token payload) mode ok \<and> cs_recv s' = rest \<and>
    cs_files s' = fs \<and>
    cn_attached_epoch c' = Some epoch \<and> lock_holder (srv_session_id st) (srv_sessions st') = Some cid \<and>
    usable C ResumeToken (ak_resume_token ok) (srv_session_id st) (srv_owner_user st)
      (env_now (ce_issue e2) + int (srv_resume_token_ttl st)) (srv_tokens st')"
proof -
  note b = bootstrap_authenticates [OF assms(3,1,2,6,5)]
  have hold: "lock_holder (srv_session_id st) m = Some cid"
    using assms(11) by (rule attach_takes)
  from handshake_succeeds [OF assms(1) b(2) assms(7) b(1) [folded assms(4)] assms(8-19)]
  obtain ps frames c' st' s' where r:
    "list_all2 (client_payload (ev_json env)) (handshake_msgs (bp_auth_token payload) mode ok) ps"
    "\<forall>p\<in>set ps. length p \<le> max_control_frame"
    "conn_loop cd C (zip [e1, e2, e3] (map Inr ps)) (conn_new cid) st = (NextFrame, frames, c', st')"
    "run_handshake env target payload mode (s\<lparr>cs_recv := frames @ rest\<rparr>) = (Inr ok, s')"
    "cs_sent s' = cs_sent s @ handshake_msgs (bp_auth_token payload) mode ok" "cs_recv s' = rest"
    "cs_files s' = fs" "cn_attached_epoch c' = Some epoch" "srv_sessions st' = m"
    "usable C ResumeToken (ak_resume_token ok) (srv_session_id st) (srv_owner_user st)
      (env_now (ce_issue e2) + int (srv_resume_token_ttl st)) (srv_tokens st')"
    by blast
  have "length ps = 3" using list_all2_lengthD [OF r(1)] by (simp add: handshake_msgs_def)
  with server_frames.read_frames_encode [OF r(2), of err rest']
  have "read_frames (read_control_frame err) 3 (concat (map encode_frame ps) @ rest') = ps" by simp
  with r hold show ?thesis by blast
qed


section \<open>Resuming after a lost connection\<close>

lemma lost_connection_releases:
  assumes "server_wf st" and "srv_session st = Some s" and "attached_conn_id s = Some (cn_id c)"
    and "cn_attached_epoch c = Some (attach_epoch s)" and "\<not> srv_pty_exited st"
    and "conn_loop cd C [(e, Inl err)] c st = (fl, out, c', st')"
  shows "fl = BreakLoop \<and> server_wf st' \<and> srv_tokens st' = srv_tokens st \<and> srv_pty st' = srv_pty st \<and>
    srv_session_id st' = srv_session_id st \<and> srv_owner_user st' = srv_owner_user st \<and>
    (\<exists>epoch m. attach_exclusive (srv_sessions st') (srv_session_id st') cid = (Inr epoch, m))"
proof -
  let ?now = "ce_now e"
  have st': "st' = release_if_current st (cn_id c) (attach_epoch s) ?now" and fl: "fl = BreakLoop"
    using assms(4-6) by (auto simp: conn_cleanup_def finalize_connection_cleanup_def)
  have "conditional_stale_cleanup (srv_sessions st) (srv_session_id st) (cn_id c) (attach_epoch s) =
      (True, (srv_sessions st)(srv_session_id st \<mapsto> released s))"
    using assms(2,3) by (simp add: conditional_stale_cleanup_def srv_session_def)
  then have eq: "st' = st\<lparr>srv_sessions := (srv_sessions st)(srv_session_id st \<mapsto> released s),
      srv_detached_at := Some ?now\<rparr>"
    by (simp add: st' release_if_current_def)
  have "sess_state s = Attached"
    using assms(1-3) by (auto simp: server_wf_def session_wf_def)
  then have rel: "sess_state (released s) = Detached" "attached_conn_id (released s) = None"
    by (simp_all add: released_def)
  have "server_wf st'" unfolding st' using assms(1) by (rule release_if_current_keeps_wf)
  with fl eq rel show ?thesis by (simp add: attach_exclusive_def Let_def)
qed

lemma pty_ready: "srv_pty st \<noteq> None \<Longrightarrow> fst (ensure_pty_runtime pe st) = Inr ()"
  by (simp add: ensure_pty_runtime_def)

text \<open>
  A session that nobody holds, with its terminal and a resume token that is valid, is resumed by new
  bootstrap data and that token.
\<close>

lemma free_session_resumes:
  assumes "ct_eq_exact C" and wf1: "server_wf st1" and "srv_pty st1 \<noteq> None"
    and at1: "attach_exclusive (srv_sessions st1) (srv_session_id st1) cid = (Inr epoch, m)"
    and use: "usable C ResumeToken resume (srv_session_id st1) (srv_owner_user st1) exp (srv_tokens st1)"
    and boot: "srv_bootstrap_output C ie st1 = Some (out, st2)" and pay: "bp_auth_token payload = bo_auth_token out"
    and "find_record C (srv_tokens st1) (random_token C (env_rnd ie)) = None"
    and "ce_now e2 < env_now ie + int (srv_auth_token_ttl st1)" and exp: "ce_now e3 < exp"
    and ok: "ok = granted C e2 st2" and fresh: "find_record C (srv_tokens st2) (ak_resume_token ok) = None"
    and add: "system_time_add (env_now (ce_issue e2)) (srv_resume_token_ttl st2) \<noteq> None"
    and io: "server_io_ok e1" "server_io_ok e2" "server_io_ok e3" "\<forall>m. ev_write env m = Inr ()"
    and put: "cache_put (ev_io env) (ev_root env) (session_entry env target payload ok) (cs_files cs) = (Inr (), fs)"
    and rd: "\<forall>m\<in>set (handshake_msgs (bp_auth_token payload) (SmResume sid resume) ok). server_reads cd (ev_json env) m"
      "\<forall>m\<in>set (handshake_replies (SmResume sid resume) ok st2). client_reads cd (ev_json env) m"
  shows "\<exists>ps frames c' st' cs' epoch.
    list_all2 (client_payload (ev_json env))
      (handshake_msgs (bp_auth_token payload) (SmResume sid resume) ok) ps \<and>
    conn_loop cd C (zip [e1, e2, e3] (map Inr ps)) (conn_new cid) st2 = (NextFrame, frames, c', st') \<and>
    run_handshake env target payload (SmResume sid resume) (cs\<lparr>cs_recv := frames @ rest\<rparr>) = (Inr ok, cs') \<and>
    cs_files cs' = fs \<and>
    cn_attached_epoch c' = Some epoch \<and> lock_holder (srv_session_id st1) (srv_sessions st') = Some cid"
proof -
  let ?m = "SmResume sid resume"
  note b = bootstrap_authenticates [OF boot assms(1) wf1 assms(8,9)]
  have same2: "srv_sessions st2 = srv_sessions st1" "srv_session_id st2 = srv_session_id st1"
      "srv_owner_user st2 = srv_owner_user st1"
      "fst (ensure_pty_runtime (ce_pty e3) st2) = fst (ensure_pty_runtime (ce_pty e3) st1)"
    using b(3) token_frame [where st = st1 and t = "srv_tokens st2"] by metis+
  have pty: "fst (ensure_pty_runtime (ce_pty e3) st2) = Inr ()"
    using assms(3) same2 by (simp add: pty_ready)
  have at2: "attach_exclusive (srv_sessions st2) (srv_session_id st2) cid = (Inr epoch, m)"
    using at1 same2 by simp
  have "usable C ResumeToken resume (srv_session_id st2) (srv_owner_user st2) exp (srv_tokens st2)"
    by (rule b(4)) (use use same2 in simp)
  with exp have may: "may_join C (ce_now e3) ?m st2" by (auto simp: resume_ok_usable)
  from handshake_succeeds [OF assms(1) b(2) ok b(1) [folded pay] may fresh add at2 pty io put rd]
  obtain ps frames c' st' cs' where r:
    "list_all2 (client_payload (ev_json env)) (handshake_msgs (bp_auth_token payload) ?m ok) ps"
    "conn_loop cd C (zip [e1, e2, e3] (map Inr ps)) (conn_new cid) st2 = (NextFrame, frames, c', st')"
    "run_handshake env target payload ?m (cs\<lparr>cs_recv := frames @ rest\<rparr>) = (Inr ok, cs')" "cs_files cs' = fs"
    "cn_attached_epoch c' = Some epoch" "srv_sessions st' = m"
    by blast
  have "lock_holder (srv_session_id st1) m = Some cid"
    using at2 same2 by (auto dest: attach_takes)
  with r show ?thesis by blast
qed

text \<open>
  C4: A lost connection can be resumed: after the read of the next frame fails on the connection
  that holds the session, while the shell runs, new bootstrap data for the session and the resume
  token handed out before let a new connection of the client resume it, as long as that token has
  not expired; the new connection holds the session from then on. This holds when the two JSON
  libraries agree on the messages, and reads and writes succeed.
\<close>

theorem lost_connection_resumes:
  assumes "ct_eq_exact C" and "server_wf st" and "srv_session st = Some s"
    and "attached_conn_id s = Some (cn_id c)" and "cn_attached_epoch c = Some (attach_epoch s)"
    and "\<not> srv_pty_exited st" and "srv_pty st \<noteq> None"
    and "usable C ResumeToken resume (srv_session_id st) (srv_owner_user st) exp (srv_tokens st)"
    and "conn_loop cd C [(e0, Inl err)] c st = (fl, fr, c1, st1)"
    and "srv_bootstrap_output C ie st1 = Some (out, st2)" and "bp_auth_token payload = bo_auth_token out"
    and "find_record C (srv_tokens st1) (random_token C (env_rnd ie)) = None"
    and "ce_now e2 < env_now ie + int (srv_auth_token_ttl st1)" and "ce_now e3 < exp"
    and "ok = granted C e2 st2" and "find_record C (srv_tokens st2) (ak_resume_token ok) = None"
    and "system_time_add (env_now (ce_issue e2)) (srv_resume_token_ttl st2) \<noteq> None"
    and "server_io_ok e1" "server_io_ok e2" "server_io_ok e3" "\<forall>m. ev_write env m = Inr ()"
    and "cache_put (ev_io env) (ev_root env) (session_entry env target payload ok) (cs_files cs) = (Inr (), fs)"
    and "\<forall>m\<in>set (handshake_msgs (bp_auth_token payload) (SmResume sid resume) ok). server_reads cd (ev_json env) m"
    and "\<forall>m\<in>set (handshake_replies (SmResume sid resume) ok st2). client_reads cd (ev_json env) m"
  shows "\<exists>ps frames c' st' cs' epoch.
    list_all2 (client_payload (ev_json env))
      (handshake_msgs (bp_auth_token payload) (SmResume sid resume) ok) ps \<and>
    conn_loop cd C (zip [e1, e2, e3] (map Inr ps)) (conn_new cid) st2 = (NextFrame, frames, c', st') \<and>
    run_handshake env target payload (SmResume sid resume) (cs\<lparr>cs_recv := frames @ rest\<rparr>) = (Inr ok, cs') \<and>
    cs_files cs' = fs \<and>
    cn_attached_epoch c' = Some epoch \<and> lock_holder (srv_session_id st) (srv_sessions st') = Some cid"
proof -
  note rel = lost_connection_releases [OF assms(2-6,9)]
  then have st1: "server_wf st1" "srv_pty st1 \<noteq> None" "srv_session_id st1 = srv_session_id st"
      "usable C ResumeToken resume (srv_session_id st1) (srv_owner_user st1) exp (srv_tokens st1)"
    using assms(7,8) by auto
  obtain epoch m where at1: "attach_exclusive (srv_sessions st1) (srv_session_id st1) cid = (Inr epoch, m)"
    using rel by blast
  show ?thesis
    using free_session_resumes [OF assms(1) st1(1,2) at1 st1(4) assms(10-24)] unfolding st1(3) .
qed

section \<open>A concrete handshake\<close>

text \<open>
  The client's side of the demo server's codec; a value is the number of a message. The payloads of
  the second and third message and what \<open>AUTH_OK\<close> carries are arguments.
\<close>

definition wire_json :: "bytes \<Rightarrow> bytes \<Rightarrow> auth_ok \<Rightarrow> nat json_api" where
  "wire_json auth join ok =
     \<lparr>js_get = (\<lambda>v k. if k = ''type'' then Some v else None),
      js_as_str = (\<lambda>v. if v = 1 then Some ''HELLO_ACK'' else if v = 2 then Some ''AUTH_OK''
        else if v = 3 then Some ''ATTACH_OK'' else if v = 4 then Some ''RESUME_OK'' else None),
      js_as_bool = (\<lambda>_. None),
      js_from_slice = (\<lambda>b. case b of [x] \<Rightarrow> Inr (unat x) | _ \<Rightarrow> Inl ''invalid''),
      js_to_vec = (\<lambda>v. Inr (if v = 11 then auth else if v = 10 then [1] else join)), js_display = show_nat,
      js_object = (\<lambda>m. case m of CHello _ _ _ \<Rightarrow> 10 | CAuth _ _ \<Rightarrow> 11 | _ \<Rightarrow> 12),
      js_auth_ok = (\<lambda>_. Inr ok),
      js_resume_ok = (\<lambda>_. Inr \<lparr>rk_session_id = 1, rk_replay_bytes = 0\<rparr>), js_unknown = (\<lambda>v. v)\<rparr>"

definition wire_ok :: "string \<Rightarrow> auth_ok" where
  "wire_ok token =
     \<lparr>ak_session_id = 1, ak_resume_token = token, ak_resume_token_expires_in_seconds = 86400\<rparr>"

definition wire_env :: "nat json_api \<Rightarrow> nat sess_env" where
  "wire_env J = demo_sess_env\<lparr>ev_json := J, ev_io := demo_io\<lparr>ci_to_json := \<lambda>_. Inr [1]\<rparr>\<rparr>"

definition wire_payload :: "string \<Rightarrow> bootstrap_payload" where
  "wire_payload token =
     \<lparr>bp_session_id = 1, bp_auth_token = token, bp_auth_token_expires_in_seconds = 60,
      bp_quic_addr = ''127.0.0.1:30000'', bp_cert_fingerprint = ''sha256:00''\<rparr>"

definition wire_sess :: client_sess where
  "wire_sess = demo_sess\<lparr>cs_recv := []\<rparr>"

lemma demo_boot:
  "srv_bootstrap_output demo_crypto \<lparr>env_rnd = [65], env_jti = 3, env_now = 0\<rparr> demo_server =
    Some (\<lparr>bo_session_id = 1, bo_auth_token = ''A'', bo_auth_token_expires_in_seconds = 60,
      bo_quic_addr = ''127.0.0.1:30000'', bo_cert_fingerprint = ''sha256:00''\<rparr>, demo_issued)"
  by (simp add: srv_bootstrap_output_def srv_issue_auth_token_def issue_auth_token_def issue_token_def
      random_token_def hash_token_def as_bytes_def system_time_add_def demo_issued_def demo_server_def
      server_state_new_def demo_args_def demo_crypto_def duration_as_secs_def duration_from_secs_def
      nanos_per_sec_def Let_def)

definition wire1 :: "nat sess_env" where
  "wire1 = wire_env (wire_json [2, 65] [3] (wire_ok ''B''))"

lemmas wire_simps =
  handshake_msgs_def handshake_replies_def server_reads_def client_reads_def hello_msg_def
  client_payload_def wire_json_def demo_codec_def max_control_frame_def client_max_control_frame_def
  message_type_def js_str_def wire_ok_def demo_issued_def

lemma wire1_messages:
  "\<forall>m\<in>set (handshake_msgs ''A'' SmAttach (wire_ok ''B'')).
     server_reads demo_codec (wire_json [2, 65] [3] (wire_ok ''B'')) m"
  "\<forall>m\<in>set (handshake_replies SmAttach (wire_ok ''B'') demo_issued).
     client_reads demo_codec (wire_json [2, 65] [3] (wire_ok ''B'')) m"
  by (simp_all add: wire_simps)

lemma wire_env_sel:
  "ev_json (wire_env J) = J" "\<forall>m. ev_write (wire_env J) m = Inr ()" "bp_auth_token (wire_payload t) = t"
  by (simp_all add: wire_env_def demo_env_def wire_payload_def)

lemma wire_put:
  "cache_put (ev_io (wire_env J)) (ev_root (wire_env J)) (session_entry (wire_env J) ''host'' (wire_payload t) (wire_ok r))
      (cs_files wire_sess) = (Inr (), [cache_path demo_io ''/c'' 1 \<mapsto> [1]])"
  by (simp add: cache_put_def wire_env_def session_entry_def wire_ok_def wire_sess_def demo_sess_def
      cache_path_def demo_io_def demo_env_def)

lemma demo_exact: "ct_eq_exact demo_crypto"
  by (simp add: ct_eq_exact_def demo_crypto_def)

lemma demo_io_ok: "server_io_ok demo_conn_env"
  by (simp add: server_io_ok_def demo_conn_env_def)

theorem client_and_server_handshake_witness:
  "\<exists>ps frames c' st' s'.
    conn_loop demo_codec demo_crypto (zip [demo_conn_env, demo_conn_env, demo_conn_env] (map Inr ps))
      (conn_new 7) demo_issued = (NextFrame, frames, c', st') \<and>
    run_handshake wire1 ''host'' (wire_payload ''A'') SmAttach (wire_sess\<lparr>cs_recv := frames @ []\<rparr>) =
      (Inr (wire_ok ''B''), s') \<and>
    lock_holder 1 (srv_sessions st') = Some 7"
proof -
  have g: "wire_ok ''B'' = granted demo_crypto demo_conn_env demo_issued"
    by (simp add: granted_def wire_ok_def demo_conn_env_def random_token_def demo_crypto_def demo_issued_def
        duration_as_secs_def nanos_per_sec_def)
  have n: "find_record demo_crypto (srv_tokens demo_server) raw = None" for raw
    by (simp add: find_record_def)
  have n': "find_record demo_crypto (srv_tokens demo_issued) (ak_resume_token (wire_ok ''B'')) = None"
    by (simp add: find_record_def demo_issued_def wire_ok_def token_matches_def hash_token_def as_bytes_def
        demo_crypto_def)
  have pty: "fst (ensure_pty_runtime (ce_pty demo_conn_env) demo_issued) = Inr ()"
    by (simp add: ensure_pty_runtime_def demo_conn_env_def demo_issued_def demo_pty_spawn take_reader_def Let_def)
  have st: "srv_sessions demo_issued = srv_sessions demo_server" "srv_session_id demo_issued = 1"
    by (simp_all add: demo_issued_def)
  have free: "attach_exclusive (srv_sessions demo_issued) (srv_session_id demo_issued) 7 = (Inr 1, demo_sessions)"
    by (simp add: st demo_attach)
  have t: "ce_now demo_conn_env < env_now \<lparr>env_rnd = [65], env_jti = 3, env_now = 0\<rparr> +
      int (srv_auth_token_ttl demo_server)"
    by (simp add: demo_conn_env_def demo_server_def server_state_new_def demo_args_def duration_from_secs_def
        nanos_per_sec_def)
  have t': "system_time_add (env_now (ce_issue demo_conn_env)) (srv_resume_token_ttl demo_issued) \<noteq> None"
    by (simp add: system_time_add_def demo_conn_env_def demo_issued_def nanos_per_sec_def)
  have tok: "bp_auth_token (wire_payload ''A'') =
      bo_auth_token \<lparr>bo_session_id = 1, bo_auth_token = ''A'', bo_auth_token_expires_in_seconds = 60,
        bo_quic_addr = ''127.0.0.1:30000'', bo_cert_fingerprint = ''sha256:00''\<rparr>"
    by (simp add: wire_env_sel)
  have may: "may_join demo_crypto (ce_now demo_conn_env) SmAttach demo_issued" by simp
  have w: "\<forall>m\<in>set (handshake_msgs (bp_auth_token (wire_payload ''A'')) SmAttach (wire_ok ''B'')).
        server_reads demo_codec (ev_json wire1) m"
      "\<forall>m\<in>set (handshake_replies SmAttach (wire_ok ''B'') demo_issued). client_reads demo_codec (ev_json wire1) m"
    unfolding wire1_def wire_env_sel by (rule wire1_messages)+
  note e = wire_env_sel(2) [of "wire_json [2, 65] [3] (wire_ok ''B'')", folded wire1_def]
  note p = wire_put [of "wire_json [2, 65] [3] (wire_ok ''B'')", folded wire1_def]
  from client_and_server_handshake [where err = "''eof''" and rest' = "[]" and rest = "[]",
      OF demo_exact demo_server_wf demo_boot tok t n g may n' t' free pty demo_io_ok demo_io_ok demo_io_ok e p w]
  show ?thesis unfolding st by blast
qed


text \<open>The demo session after its connection is lost, and after new bootstrap data with the token \<open>C\<close>.\<close>

definition demo_lost :: server_state where
  "demo_lost = demo_attached\<lparr>
     srv_sessions := demo_sessions(1 \<mapsto> released (the (demo_sessions 1))), srv_detached_at := Some 10\<rparr>"

definition demo_renewed :: server_state where
  "demo_renewed = demo_lost\<lparr>srv_tokens := srv_tokens demo_authed @
     [\<lparr>token_hash = [67], tok_type = AuthToken, tok_session_id = 1, tok_user_id = ''ann'', jti = 6,
       expires_at = 20 + 60 * 1000000000, consumed_at = None, revoked_at = None, created_at = 20\<rparr>]\<rparr>"

definition demo_env2 :: conn_env where
  "demo_env2 = demo_conn_env\<lparr>ce_now := 30, ce_issue := \<lparr>env_rnd = [68], env_jti = 8, env_now = 30\<rparr>\<rparr>"

definition wire2 :: "nat sess_env" where
  "wire2 = wire_env (wire_json [2, 67] [4, 66] (wire_ok ''D''))"

lemma demo_char2 [simp]: "char_of (67 :: nat) = CHR ''C''" "char_of (68 :: nat) = CHR ''D''"
  by code_simp+

lemma demo_attached_sel:
  "srv_tokens demo_attached = srv_tokens demo_authed" "srv_session_id demo_attached = 1"
  "srv_owner_user demo_attached = ''ann''" "srv_pty demo_attached \<noteq> None" "\<not> srv_pty_exited demo_attached"
  "srv_sessions demo_attached = demo_sessions" "srv_replay demo_attached = []"
  "srv_resume_token_ttl demo_attached = 86400 * 1000000000"
  by (simp_all add: demo_attached_def demo_authed_def demo_issued_def)

lemma demo_lost_run:
  "conn_loop demo_codec demo_crypto [(demo_conn_env, Inl NeSessionNotFound)] (demo_conn ConnAttached (Some 1))
     demo_attached = (BreakLoop, [], demo_conn ConnAttached (Some 1), demo_lost)"
  by (simp add: conn_cleanup_def demo_conn_def finalize_connection_cleanup_def release_if_current_def
      conditional_stale_cleanup_def demo_lost_def demo_attached_sel demo_sessions_def demo_conn_env_def)

lemma demo_lost_tokens: "srv_tokens demo_lost = srv_tokens demo_authed"
  by (simp add: demo_lost_def demo_attached_sel)

lemma demo_renewal:
  "srv_bootstrap_output demo_crypto \<lparr>env_rnd = [67], env_jti = 6, env_now = 20\<rparr> demo_lost =
    Some (\<lparr>bo_session_id = 1, bo_auth_token = ''C'', bo_auth_token_expires_in_seconds = 60,
      bo_quic_addr = ''127.0.0.1:30000'', bo_cert_fingerprint = ''sha256:00''\<rparr>, demo_renewed)"
  by (simp add: srv_bootstrap_output_def srv_issue_auth_token_def issue_auth_token_def issue_token_def
      random_token_def hash_token_def as_bytes_def system_time_add_def demo_renewed_def demo_lost_def
      demo_attached_def demo_authed_def demo_issued_def demo_server_def server_state_new_def demo_args_def
      demo_crypto_def duration_as_secs_def duration_from_secs_def nanos_per_sec_def Let_def)

lemma wire2_messages:
  "\<forall>m\<in>set (handshake_msgs ''C'' (SmResume 1 ''B'') (wire_ok ''D'')).
     server_reads demo_codec (wire_json [2, 67] [4, 66] (wire_ok ''D'')) m"
  "\<forall>m\<in>set (handshake_replies (SmResume 1 ''B'') (wire_ok ''D'') demo_renewed).
     client_reads demo_codec (wire_json [2, 67] [4, 66] (wire_ok ''D'')) m"
  by (simp_all add: wire_simps demo_renewed_def demo_lost_def demo_attached_sel)

lemma demo_attached_run:
  "srv_session demo_attached = Some (the (demo_sessions 1))"
  "attached_conn_id (the (demo_sessions 1)) = Some (cn_id (demo_conn ConnAttached (Some 1)))"
  "cn_attached_epoch (demo_conn ConnAttached (Some 1)) = Some (attach_epoch (the (demo_sessions 1)))"
  "server_wf demo_attached"
  "usable demo_crypto ResumeToken ''B'' (srv_session_id demo_attached) (srv_owner_user demo_attached)
     (10 + 86400 * 1000000000) (srv_tokens demo_attached)"
  by (simp_all add: srv_session_def demo_attached_sel demo_sessions_def demo_conn_def)
    (simp_all add: server_wf_def srv_session_def session_wf_def demo_attached_def demo_sessions_def
      demo_authed_def demo_issued_def usable_def find_record_def token_matches_def hash_token_def as_bytes_def
      demo_crypto_def)

lemma demo_fresh:
  "find_record demo_crypto (srv_tokens demo_lost)
     (random_token demo_crypto (env_rnd \<lparr>env_rnd = [67], env_jti = 6, env_now = 20\<rparr>)) = None"
  "find_record demo_crypto (srv_tokens demo_renewed) (ak_resume_token (wire_ok ''D'')) = None"
  by (simp_all add: find_record_def demo_lost_tokens demo_renewed_def demo_authed_def demo_issued_def
      token_matches_def random_token_def hash_token_def as_bytes_def demo_crypto_def wire_ok_def)

lemma demo_times:
  "ce_now demo_env2 < env_now \<lparr>env_rnd = [67], env_jti = 6, env_now = 20\<rparr> + int (srv_auth_token_ttl demo_lost)"
  "ce_now demo_env2 < 10 + 86400 * 1000000000"
  "system_time_add (env_now (ce_issue demo_env2)) (srv_resume_token_ttl demo_renewed) \<noteq> None"
  "server_io_ok demo_env2"
  using demo_io_ok
  by (simp_all add: server_io_ok_def demo_env2_def demo_lost_def demo_attached_def demo_authed_def
      demo_issued_def demo_server_def server_state_new_def demo_args_def duration_from_secs_def
      nanos_per_sec_def system_time_add_def demo_renewed_def)

lemma demo_granted: "wire_ok ''D'' = granted demo_crypto demo_env2 demo_renewed"
proof -
  have ttl: "srv_resume_token_ttl demo_renewed = 86400 * 1000000000"
    by (simp add: demo_renewed_def demo_lost_def demo_attached_sel)
  show ?thesis
    by (simp add: granted_def wire_ok_def demo_env2_def random_token_def demo_crypto_def ttl
        duration_as_secs_def nanos_per_sec_def) (simp add: demo_renewed_def demo_lost_def demo_attached_sel)
qed

lemma demo_renewed_token:
  "bp_auth_token (wire_payload ''C'') =
     bo_auth_token \<lparr>bo_session_id = 1, bo_auth_token = ''C'', bo_auth_token_expires_in_seconds = 60,
       bo_quic_addr = ''127.0.0.1:30000'', bo_cert_fingerprint = ''sha256:00''\<rparr>"
  by (simp add: wire_env_sel)

lemma wire2_reads:
  "\<forall>m\<in>set (handshake_msgs (bp_auth_token (wire_payload ''C'')) (SmResume 1 ''B'') (wire_ok ''D'')).
     server_reads demo_codec (ev_json wire2) m"
  "\<forall>m\<in>set (handshake_replies (SmResume 1 ''B'') (wire_ok ''D'') demo_renewed).
     client_reads demo_codec (ev_json wire2) m"
  unfolding wire2_def wire_env_sel by (rule wire2_messages)+

text \<open>What a client that resumes after the demo session was freed meets, in the order of the properties.\<close>

lemmas demo_resume_facts = demo_renewed_token demo_fresh(1) demo_times(1,2) demo_granted demo_fresh(2)
  demo_times(3,4,4,4) wire_env_sel(2) [of "wire_json [2, 67] [4, 66] (wire_ok ''D'')", folded wire2_def]
  wire_put [of "wire_json [2, 67] [4, 66] (wire_ok ''D'')", folded wire2_def] wire2_reads

theorem lost_connection_resumes_witness:
  "\<exists>ps frames c' st' cs'.
    conn_loop demo_codec demo_crypto (zip [demo_env2, demo_env2, demo_env2] (map Inr ps))
      (conn_new 9) demo_renewed = (NextFrame, frames, c', st') \<and>
    run_handshake wire2 ''host'' (wire_payload ''C'') (SmResume 1 ''B'') (wire_sess\<lparr>cs_recv := frames @ []\<rparr>) =
      (Inr (wire_ok ''D''), cs') \<and>
    lock_holder 1 (srv_sessions st') = Some 9"
proof -
  note d = demo_attached_run
  from lost_connection_resumes [where cid = 9 and rest = "[]", OF demo_exact d(4,1,2,3) demo_attached_sel(5,4)
      d(5) demo_lost_run demo_renewal demo_resume_facts]
  show ?thesis unfolding demo_attached_sel by blast
qed

end
