(* ===== verification/Server_Faults.thy ===== *)
theory Server_Faults
  imports Server_System
begin

text \<open>
  What the server does after an error: \<open>handle_connection\<close> (\<open>src/src/bin/neoshd.rs\<close>) leaves through
  \<open>?\<close> without its cleanup, so a connection that fails while it is attached never lets go of the
  session.
\<close>

section \<open>A session held by a connection that is gone\<close>

text \<open>The slot of a connection that has left its function through an error or a panic.\<close>

fun failed :: "slot \<Rightarrow> bool" where
  "failed (SlotFailed c e) = True"
| "failed (SlotPanicked c) = True"
| "failed slot = False"

text \<open>No event of the system touches a failed slot or releases what its connection holds.\<close>

lemma conn_step_kept:
  assumes "sys_ok sy" and "sy_conns sy other = Some slot" and "cn_id (slot_conn slot) = other"
    and "store_step C other sops tops (sy_server sy) st'" and "other \<noteq> cid"
  shows "holder_kept (srv_session_id (sy_server sy)) cid (srv_sessions (sy_server sy)) (srv_sessions st') \<and>
    srv_session_id st' = srv_session_id (sy_server sy)"
  using store_step_kept [OF assms(4,5)] assms(4) by (simp add: store_step_def)

lemma exec_keeps_failed:
  assumes "sys_ok sy" and "sy_conns sy cid = Some slot" and "failed slot"
  shows "sy_conns (sys_exec cd C sy ev) cid = Some slot \<and>
    srv_session_id (sy_server (sys_exec cd C sy ev)) = srv_session_id (sy_server sy) \<and>
    holder_kept (srv_session_id (sy_server sy)) cid (srv_sessions (sy_server sy))
      (srv_sessions (sy_server (sys_exec cd C sy ev)))"
proof (cases ev)
  case (EvOpen o')
  then show ?thesis using assms(2) by (auto split: option.split)
next
  case (EvFrame o' env payload)
  show ?thesis
  proof (cases "\<exists>c. sy_conns sy o' = Some (SlotLoop c)")
    case True
    then obtain c where c: "sy_conns sy o' = Some (SlotLoop c)" ..
    with assms(2,3) have ne: "o' \<noteq> cid" by auto
    have id: "cn_id c = o'" using sys_okD(2) [OF assms(1) c] by (simp add: slot_ok_def)
    obtain fl out c' st' where fr:
        "on_control_frame cd C env payload c (sy_server sy) = (fl, out, c', st')"
      by (metis prod_cases4)
    obtain sops tops where "store_step C o' sops tops (sy_server sy) st'"
      using frame_store [OF fr] id by blast
    from conn_step_kept [OF assms(1) c _ this ne] id show ?thesis
      using c fr ne assms(2) EvFrame by simp
  qed (use EvFrame assms(2) in \<open>auto split: option.split slot.split\<close>)
next
  case (EvReadError o')
  then show ?thesis using assms(2,3) by (auto split: option.split slot.split)
next
  case (EvStart o' env)
  then show ?thesis using assms(2,3) finish_attach_cases
    by (fastforce split: option.split slot.split prod.split)
next
  case (EvCleanup o' now)
  show ?thesis
  proof (cases "\<exists>c. sy_conns sy o' = Some (SlotEnding c)")
    case True
    then obtain c where c: "sy_conns sy o' = Some (SlotEnding c)" ..
    with assms(2,3) have ne: "o' \<noteq> cid" by auto
    have id: "cn_id c = o'" using sys_okD(2) [OF assms(1) c] by (simp add: slot_ok_def)
    obtain sops where "store_step C o' sops [] (sy_server sy) (conn_cleanup now c (sy_server sy))"
      using conn_cleanup_store id by blast
    from conn_step_kept [OF assms(1) c _ this ne] id show ?thesis
      using c ne assms(2) EvCleanup by simp
  qed (use EvCleanup assms(2) in \<open>auto split: option.split slot.split\<close>)
next
  case (EvTick n1 n2)
  then show ?thesis
    using accept_tick_sessions [OF sys_okD(1) [OF assms(1)], of n1 n2] assms(2)
      holder_kept_expire [of "srv_session_id (sy_server sy)" cid "srv_sessions (sy_server sy)"]
    by (auto split: prod.split)
next
  case (EvIpc env peer parsed)
  show ?thesis
  proof (cases "ipc_answer C env peer parsed (sy_server sy)")
    case (Some x)
    obtain resp st' where x: "x = (resp, st')" by fastforce
    obtain svc where "st' = (sy_server sy)\<lparr>srv_tokens := svc\<rparr>"
      using ipc_answer_frame [OF Some [unfolded x]] by blast
    then show ?thesis using EvIpc Some x assms(2) by simp
  qed (use EvIpc assms(2) in simp)
qed (use assms(2) in \<open>auto simp: sweep_tokens_def append_replay_def Let_def\<close>)


lemma run_keeps_failed:
  assumes "sys_ok sy" and "sy_conns sy cid = Some slot" and "failed slot"
  shows "sy_conns (foldl (sys_step cd C) sy evs) cid = Some slot \<and>
    srv_session_id (sy_server (foldl (sys_step cd C) sy evs)) = srv_session_id (sy_server sy) \<and>
    holder_kept (srv_session_id (sy_server sy)) cid (srv_sessions (sy_server sy))
      (srv_sessions (sy_server (foldl (sys_step cd C) sy evs))) \<and> sys_ok (foldl (sys_step cd C) sy evs)"
  using assms(1,2)
proof (induction evs arbitrary: sy)
  case (Cons ev evs)
  let ?sy = "sys_step cd C sy ev"
  have ok: "sys_ok ?sy" using Cons.prems(1) by (simp add: sys_step_def sys_exec_ok)
  have 1: "sy_conns ?sy cid = Some slot \<and> srv_session_id (sy_server ?sy) = srv_session_id (sy_server sy) \<and>
      holder_kept (srv_session_id (sy_server sy)) cid (srv_sessions (sy_server sy)) (srv_sessions (sy_server ?sy))"
    using exec_keeps_failed [OF Cons.prems(1,2) assms(3), of cd C ev] Cons.prems(2) by (simp add: sys_step_def)
  show ?case using Cons.IH [OF ok] 1 holder_kept_trans by fastforce
qed simp

section \<open>Errors of an attached connection\<close>

text \<open>An error changes nothing in the server, the session included.\<close>

lemma attached_error_keeps:
  assumes "on_control_frame cd C env payload c st = (ReturnErr e, out, c', st')"
    and "conn_ok c" and "cn_attached_epoch c \<noteq> None"
  shows "st' = st"
  using assms(1)
proof (cases rule: frame_cases)
  case (refused d err)
  then show ?thesis by (auto dest: refuse_cases)
next
  case (handled k d r)
  have "disp_state (cn_dispatcher c) = ConnAttached" using assms(2,3) by (simp add: conn_ok_def)
  then have "k \<in> {Resize, Detach, Ping, Close}" using on_message_cases [OF handled(2)] by auto
  then show ?thesis using handled(3)
    by (auto dest!: handle_quiet_cases handle_detach_cases handle_close_cases)
qed

lemma attached_error_step:
  assumes "sys_ok sy" and "sy_conns sy cid = Some slot" and "live slot" and "cn_attached_epoch (slot_conn slot) \<noteq> None"
    and "ev = EvFrame cid env payload \<or> ev = EvStart cid env"
    and "sy_conns (sys_exec cd C sy ev) cid = Some (SlotFailed c e)"
  shows "sy_server (sys_exec cd C sy ev) = sy_server sy"
proof (cases slot)
  case (SlotLoop c0)
  obtain fl out c' st' where fr:
      "on_control_frame cd C env payload c0 (sy_server sy) = (fl, out, c', st')"
    by (metis prod_cases4)
  have "conn_ok c0" using sys_okD(2) [OF assms(1,2)] SlotLoop by (simp add: slot_ok_def)
  moreover have "ev = EvFrame cid env payload" using assms(2,5,6) SlotLoop by auto
  moreover from this have "fl = ReturnErr e" using assms(2,6) SlotLoop fr by (cases fl) auto
  ultimately show ?thesis using attached_error_keeps fr assms(2,4) SlotLoop by fastforce
next
  case (SlotAttaching c0 r sid n)
  then show ?thesis using assms(2,5) finish_attach_cases by (fastforce split: prod.split)
qed (use assms(3) in simp_all)

text \<open>
  C17: A connection that fails while it holds the session never gives it back: when answering a
  frame or starting the data plane ends its function with an error, then whatever happens from
  there on, in any interleaving, the session stays attached to the connection that is gone until it
  is terminated or has expired; every other attachment is refused, and neither timeout stops the
  server.
\<close>

theorem connection_error_blocks_session:
  assumes "reachable cd C sy" and "sy_stopped sy = None"
    and "sy_conns sy cid = Some slot" and "live slot" and "cn_attached_epoch (slot_conn slot) \<noteq> None"
    and "srv_session (sy_server sy) = Some s" and "sess_state s \<notin> {Expired, Terminated}"
    and "ev = EvFrame cid env payload \<or> ev = EvStart cid env"
    and "sy_conns (sys_step cd C sy ev) cid = Some (SlotFailed c e)"
    and "sy' = foldl (sys_step cd C) (sys_step cd C sy ev) evs"
  shows "\<exists>s'. srv_session (sy_server sy') = Some s' \<and>
    (sess_state s' \<notin> {Expired, Terminated} \<longrightarrow>
       attached_conn_id s' = Some cid \<and>
       fst (attach_exclusive (srv_sessions (sy_server sy')) (srv_session_id (sy_server sy')) other) =
         Inl AttachDenied \<and>
       accept_tick now1 now2 (sy_server sy') = (None, sy_server sy'))"
proof -
  let ?sy1 = "sys_step cd C sy ev"
  note ok = reachable_ok [OF assms(1)]
  have step: "?sy1 = sys_exec cd C sy ev" using assms(2) by (simp add: sys_step_def)
  have same: "sy_server ?sy1 = sy_server sy"
    unfolding step by (rule attached_error_step [OF ok assms(3-5,8)]) (use assms(9) step in simp)
  obtain ep where "cn_attached_epoch (slot_conn slot) = Some ep" using assms(5) by blast
  then have held: "attached_conn_id s = Some cid"
    using agrees_SomeD(2) [of cid slot s ep] sys_okD(3) [OF ok assms(6), of cid] assms(3,4,7) by simp
  have ok1: "sys_ok ?sy1" unfolding step by (rule sys_exec_ok [OF ok])
  have fl: "failed (SlotFailed c e)" by simp
  from run_keeps_failed [OF ok1 assms(9) fl, of cd C evs]
  have run: "srv_session_id (sy_server sy') = srv_session_id (sy_server sy)" "sys_ok sy'"
    "holder_kept (srv_session_id (sy_server sy)) cid (srv_sessions (sy_server sy)) (srv_sessions (sy_server sy'))"
    using same assms(10) by auto
  then obtain s' where s': "srv_session (sy_server sy') = Some s'"
    and h: "attached_conn_id s' = Some cid \<or> sess_state s' \<in> {Expired, Terminated}"
    using assms(6) held by (fastforce simp: holder_kept_def srv_session_def)
  have "fst (attach_exclusive (srv_sessions (sy_server sy')) (srv_session_id (sy_server sy')) other) = Inl AttachDenied \<and>
      accept_tick now1 now2 (sy_server sy') = (None, sy_server sy')"
    if alive: "sess_state s' \<notin> {Expired, Terminated}"
  proof -
    have a: "attached_conn_id s' = Some cid" using h alive by blast
    have wf: "server_wf (sy_server sy')" using run(2) by (rule sys_okD(1))
    have "session_wf s'" using wf s' by (auto simp: server_wf_def)
    with a have st: "sess_state s' = Attached" by (simp add: session_wf_def)
    have "srv_detached_at (sy_server sy') = None" using timeouts_exact_eqs(3) [OF wf] s' st by simp
    then have "accept_tick now1 now2 (sy_server sy') = (None, sy_server sy')"
      using timeouts_exact_eqs(1,2) [OF wf] s' st
      by (simp add: accept_tick_def server_stop_reason_def get_session_def srv_session_def)
    with a alive s' show ?thesis by (simp add: attach_exclusive_def srv_session_def)
  qed
  with h s' show ?thesis by blast
qed

text \<open>The demo connection sends a \<open>PING\<close>, and the \<open>PONG\<close> cannot be written.\<close>

definition mute_env :: conn_env where
  "mute_env = demo_conn_env\<lparr>ce_write := \<lambda>_. Inl ''connection lost''\<rparr>"

lemma demo_ping_fails:
  "on_control_frame demo_codec demo_crypto mute_env [8] (demo_conn ConnAttached (Some 1)) st =
     (ReturnErr (NeProtocol ''write frame failed: connection lost''), [], demo_conn ConnAttached (Some 1), st)"
  by (simp add: on_control_frame_def parse_message_kind_def demo_codec_def demo_conn_def mute_env_def
      demo_conn_env_def handle_ping_def send_then_def write_control_json_def Let_def)

theorem connection_error_blocks_session_witness:
  "let sy' = foldl (sys_step demo_codec demo_crypto)
       (sys_step demo_codec demo_crypto demo_attached_system (EvFrame 7 mute_env [8])) [EvOpen 8]
   in attach_exclusive (srv_sessions (sy_server sy')) 1 8 = (Inl AttachDenied, srv_sessions (sy_server sy')) \<and>
      accept_tick 1000000000000 2000000000000 (sy_server sy') = (None, sy_server sy')"
proof -
  let ?sy1 = "sys_step demo_codec demo_crypto demo_attached_system (EvFrame 7 mute_env [8])"
  let ?sy' = "foldl (sys_step demo_codec demo_crypto) ?sy1 [EvOpen 8]"
  have c: "sy_conns demo_attached_system 7 = Some (SlotLoop (demo_conn ConnAttached (Some 1)))"
    "sy_stopped demo_attached_system = None"
    by (simp_all add: demo_attached_system_def)
  have f: "sy_conns ?sy1 7 =
      Some (SlotFailed (demo_conn ConnAttached (Some 1)) (NeProtocol ''write frame failed: connection lost''))"
    using c by (simp add: sys_step_def demo_ping_fails)
  have s: "srv_session (sy_server demo_attached_system) = Some (the (demo_sessions 1))"
    "sess_state (the (demo_sessions 1)) \<notin> {Expired, Terminated}"
    using demo_attached_session by (simp_all add: demo_sessions_def)
  have same: "sy_server ?sy' = sy_server demo_attached_system" "srv_session_id (sy_server demo_attached_system) = 1"
    using c by (auto simp: sys_step_def demo_ping_fails demo_attached_system_def demo_attached_def
        demo_authed_def demo_issued_def split: option.split)
  have "fst (attach_exclusive (srv_sessions (sy_server ?sy')) 1 8) = Inl AttachDenied \<and>
      accept_tick 1000000000000 2000000000000 (sy_server ?sy') = (None, sy_server ?sy')"
    using connection_error_blocks_session [OF demo_reachable c(2,1) _ _ s _ f refl,
        where env = mute_env and payload = "[8]" and other = 8 and evs = "[EvOpen 8]" and
        ?now1.0 = 1000000000000 and ?now2.0 = 2000000000000] s
    unfolding same(1) by (simp add: demo_conn_def same(2))
  then show ?thesis
    by (metis attach_error_keeps prod.collapse)
qed

end
