(* ===== verification/Server_Types.thy ===== *)
theory Server_Types
  imports Server_System
begin

text \<open>
  The shape of the server's state: what every record of \<open>ServerState\<close> and of the two stores it owns
  (\<open>src/src/bin/neoshd.rs\<close>, \<open>src/src/session/manager.rs\<close>, \<open>src/src/token/service.rs\<close>) looks like after
  any sequence of events.
\<close>

section \<open>The parts\<close>

text \<open>What a server is started with, and never changes.\<close>

record server_identity =
  id_session :: uuid
  id_owner :: string
  id_uid :: u32
  id_quic_addr :: string
  id_fingerprint :: string
  id_replay_cap :: nat

definition identity_of :: "server_state \<Rightarrow> server_identity" where
  "identity_of st =
     \<lparr>id_session = srv_session_id st, id_owner = srv_owner_user st, id_uid = srv_owner_uid st,
      id_quic_addr = srv_quic_addr st, id_fingerprint = srv_cert_fingerprint st,
      id_replay_cap = srv_replay_cap st\<rparr>"

text \<open>The registry has one session, the server's own.\<close>

definition registry_typed :: "server_identity \<Rightarrow> session_manager \<Rightarrow> bool" where
  "registry_typed i m \<longleftrightarrow>
     (\<exists>s. m = [id_session i \<mapsto> s] \<and> session_id s = id_session i \<and> owner_user_id s = id_owner i \<and>
        sess_quic_addr s = id_quic_addr i \<and> sess_cert_fingerprint s = id_fingerprint i)"

text \<open>
  A token record is bound to the session and its owner, is never revoked, expires no earlier than it
  was made, and is never consumed when it is a resume token.
\<close>

definition token_typed :: "server_identity \<Rightarrow> token_record \<Rightarrow> bool" where
  "token_typed i r \<longleftrightarrow>
     tok_session_id r = id_session i \<and> tok_user_id r = id_owner i \<and> revoked_at r = None \<and>
     created_at r \<le> expires_at r \<and> (tok_type r = ResumeToken \<longrightarrow> consumed_at r = None)"

definition tokens_typed :: "server_identity \<Rightarrow> token_service \<Rightarrow> bool" where
  "tokens_typed i svc \<longleftrightarrow> (\<forall>r\<in>set svc. token_typed i r)"

definition state_typed :: "server_identity \<Rightarrow> server_state \<Rightarrow> bool" where
  "state_typed i st \<longleftrightarrow>
     identity_of st = i \<and> registry_typed i (srv_sessions st) \<and> tokens_typed i (srv_tokens st)"

section \<open>The stores\<close>

lemma registry_typedE:
  assumes "registry_typed i m"
  obtains s where "m = [id_session i \<mapsto> s]" "session_id s = id_session i" "owner_user_id s = id_owner i"
    "sess_quic_addr s = id_quic_addr i" "sess_cert_fingerprint s = id_fingerprint i"
  using assms by (auto simp: registry_typed_def)

lemma registry_typedI [intro!]:
  "session_id s = id_session i \<Longrightarrow> owner_user_id s = id_owner i \<Longrightarrow> sess_quic_addr s = id_quic_addr i \<Longrightarrow>
   sess_cert_fingerprint s = id_fingerprint i \<Longrightarrow> registry_typed i [id_session i \<mapsto> s]"
  by (auto simp: registry_typed_def)

lemma released_fields [simp]:
  "session_id (released s) = session_id s" "owner_user_id (released s) = owner_user_id s"
  "sess_quic_addr (released s) = sess_quic_addr s" "sess_cert_fingerprint (released s) = sess_cert_fingerprint s"
  by (simp_all add: released_def Let_def)

lemma registry_typed_op:
  "registry_typed i m \<Longrightarrow> registry_typed i (snd (attach_exclusive m (id_session i) c))"
  "registry_typed i m \<Longrightarrow> registry_typed i (snd (detach m (id_session i) c))"
  "registry_typed i m \<Longrightarrow> registry_typed i (snd (conditional_stale_cleanup m (id_session i) c e))"
  "registry_typed i m \<Longrightarrow> registry_typed i (snd (terminate m (id_session i)))"
  "registry_typed i m \<Longrightarrow> registry_typed i (snd (expire m (id_session i)))"
  by (auto elim!: registry_typedE simp: attach_exclusive_def detach_def conditional_stale_cleanup_def
      terminate_def expire_def Let_def)

lemma set_update_found:
  "List.find P xs = Some r \<Longrightarrow> set (update_first P f xs) \<subseteq> insert (f r) (set xs)"
  by (induction xs) (auto split: if_splits)

lemma tokens_typed_auth:
  assumes "tokens_typed i svc"
  shows "tokens_typed i (snd (validate_and_consume_auth C svc raw sid user now))"
proof (cases "fst (validate_and_consume_auth C svc raw sid user now)")
  case (Inl e)
  then show ?thesis using assms auth_rejected_keeps [of C svc raw sid user now e] by simp
next
  case (Inr u)
  then obtain r where r: "find_record C svc raw = Some r" "tok_type r = AuthToken"
    by (auto simp: auth_ok_iff)
  have "token_typed i (r\<lparr>consumed_at := Some now\<rparr>)"
    using assms r find_record_SomeD [OF r(1)] by (auto simp: tokens_typed_def token_typed_def)
  then show ?thesis
    using assms auth_ok_after [of C svc raw sid user now] Inr
      set_update_found [of "token_matches C raw" svc r "\<lambda>r. r\<lparr>consumed_at := Some now\<rparr>"] r(1)
    by (auto simp: tokens_typed_def find_record_def)
qed

lemma tokens_typed_issue:
  "tokens_typed i svc \<Longrightarrow> issue_token C svc ty (id_session i) (id_owner i) ttl rnd j now = Some (raw, svc') \<Longrightarrow>
   tokens_typed i svc'"
  by (auto simp: tokens_typed_def token_typed_def dest!: issue_token_Some)

lemma tokens_typed_sweep: "tokens_typed i svc \<Longrightarrow> tokens_typed i (cleanup_expired svc now d)"
  by (simp add: tokens_typed_def cleanup_expired_def)

section \<open>The operations of the server\<close>

lemma state_typedD:
  assumes "state_typed i st"
  shows "srv_session_id st = id_session i" "srv_owner_user st = id_owner i"
    "registry_typed i (srv_sessions st)" "tokens_typed i (srv_tokens st)"
  using assms by (auto simp: state_typed_def identity_of_def)

lemma state_typed_sessions:
  "state_typed i st \<Longrightarrow> registry_typed i m \<Longrightarrow> state_typed i (st\<lparr>srv_sessions := m\<rparr>)"
  "state_typed i st \<Longrightarrow> registry_typed i m \<Longrightarrow> state_typed i (st\<lparr>srv_sessions := m, srv_detached_at := d\<rparr>)"
  by (simp_all add: state_typed_def identity_of_def)

lemma state_typed_issue:
  "state_typed i st \<Longrightarrow> srv_issue_auth_token C env st = Some (raw, st') \<Longrightarrow> state_typed i st'"
  "state_typed i st \<Longrightarrow> srv_issue_resume_token C env st = Some (raw, st') \<Longrightarrow> state_typed i st'"
  by (auto simp: srv_issue_auth_token_def srv_issue_resume_token_def issue_auth_token_def
      issue_resume_token_def state_typed_def identity_of_def intro: tokens_typed_issue)

lemma state_typed_pty:
  "state_typed i st \<Longrightarrow> state_typed i (snd (ensure_pty_runtime pe st))"
  by (auto simp: ensure_pty_runtime_def state_typed_def identity_of_def Let_def
      split: sum.split prod.split)

lemma state_typed_release:
  assumes "state_typed i st"
  shows "state_typed i (release_if_current st conn epoch now)"
proof -
  let ?r = "conditional_stale_cleanup (srv_sessions st) (srv_session_id st) conn epoch"
  have "registry_typed i (snd ?r)"
    using registry_typed_op(3) state_typedD [OF assms] by simp
  then show ?thesis using assms state_typed_sessions
    by (auto simp: release_if_current_def split: prod.split bool.split)
qed

lemma state_typed_terminate:
  "state_typed i st \<Longrightarrow>
   state_typed i (st\<lparr>srv_sessions := snd (terminate (srv_sessions st) (srv_session_id st))\<rparr>)"
  "state_typed i st \<Longrightarrow>
   state_typed i (st\<lparr>srv_sessions := snd (terminate (srv_sessions st) (srv_session_id st)), srv_detached_at := d\<rparr>)"
  by (auto intro!: state_typed_sessions registry_typed_op(4) simp: state_typedD)

lemma state_typed_expire:
  "state_typed i st \<Longrightarrow>
   state_typed i (st\<lparr>srv_sessions := snd (expire (srv_sessions st) (srv_session_id st))\<rparr>)"
  by (auto intro!: state_typed_sessions registry_typed_op(5) simp: state_typedD)

lemma state_typed_cleanup: "state_typed i st \<Longrightarrow> state_typed i (conn_cleanup now c st)"
  by (simp add: conn_cleanup_def finalize_connection_cleanup_def state_typed_release
      state_typed_terminate split: option.split)

lemma state_typed_tick: "state_typed i st \<Longrightarrow> state_typed i (snd (accept_tick now1 now2 st))"
proof -
  assume st: "state_typed i st"
  have 1: "state_typed i (snd (expire_if_initial_attach_timeout st now1))"
    using st state_typed_expire by (simp add: expire_if_initial_attach_timeout_def split: option.split)
  have 2: "state_typed i (snd (expire_if_detached_timeout s now2))" if "state_typed i s" for s
    using that state_typed_expire
    by (simp add: expire_if_detached_timeout_def Let_def split: option.split)
  show ?thesis using 1 2 [of "snd (expire_if_initial_attach_timeout st now1)"]
    by (auto simp: accept_tick_def split: prod.split bool.split)
qed

lemma state_typed_replay: "state_typed i st \<Longrightarrow> state_typed i (append_replay st chunk)"
  by (simp add: append_replay_alt state_typed_def identity_of_def)

lemma state_typed_bootstrap:
  "state_typed i st \<Longrightarrow> srv_bootstrap_output C env st = Some (out, st') \<Longrightarrow> state_typed i st'"
  by (auto simp: srv_bootstrap_output_def split: option.splits dest: state_typed_issue)

lemma state_typed_ipc:
  "state_typed i st \<Longrightarrow> ipc_answer C env peer parsed st = Some (rs, st') \<Longrightarrow> state_typed i st'"
  by (auto simp: ipc_answer_def split: sum.splits option.splits if_splits dest: state_typed_bootstrap)

section \<open>A frame\<close>

lemma state_typed_auth:
  assumes "state_typed i st" and "handle_auth cd C env payload c st = (fl, out, c', st')"
  shows "state_typed i st'"
proof -
  have v: "state_typed i (st\<lparr>srv_tokens := svc\<rparr>)"
    if "validate_and_consume_auth C (srv_tokens st) raw sid u now = (r, svc)" for raw sid u now r svc
    using assms(1) tokens_typed_auth [of i "srv_tokens st" C raw sid u now] that
    by (simp add: state_typed_def identity_of_def)
  show ?thesis using assms
    by (auto simp: handle_auth_def Let_def dest!: refuse_cases send_then_cases v
        split: sum.splits prod.splits option.splits dest: state_typed_issue)
qed

lemma state_typed_takes:
  assumes "state_typed i st" and "takes_session env resume sid c st (fl, out, c', st')"
  shows "state_typed i st'"
  using assms(2)
proof (rule takes_session_cases)
  fix epoch m
  assume m: "attach_exclusive (srv_sessions st) (srv_session_id st) (cn_id c) = (Inr epoch, m)"
    and cs: "fl = Attaching resume sid (length (srv_replay st)) \<and> c' = c\<lparr>cn_attached_epoch := Some epoch\<rparr> \<and>
       ensure_pty_runtime (ce_pty env) (st\<lparr>srv_sessions := m, srv_detached_at := None\<rparr>) = (Inr (), st') \<or>
     (\<exists>e. fl = ReturnErr e \<and> c' = c \<and> st' = st\<lparr>srv_sessions := m, srv_detached_at := None\<rparr> \<and>
       fst (ensure_pty_runtime (ce_pty env) (st\<lparr>srv_sessions := m, srv_detached_at := None\<rparr>)) = Inl e)"
  have "registry_typed i m"
    using registry_typed_op(1) [OF state_typedD(3) [OF assms(1)], of "cn_id c"] m
      state_typedD(1) [OF assms(1)] by simp
  then have t: "state_typed i (st\<lparr>srv_sessions := m, srv_detached_at := None\<rparr>)"
    by (rule state_typed_sessions(2) [OF assms(1)])
  from state_typed_pty [OF t, of "ce_pty env"] t cs show ?thesis by auto
qed

lemma state_typed_kind:
  assumes "state_typed i st" and "handle_kind cd C env payload k c st = (fl, out, c', st')"
  shows "state_typed i st'"
proof (cases k)
  case Auth
  then show ?thesis using assms state_typed_auth by auto
next
  case Attach
  then show ?thesis
    using handle_attach_cases [of cd env payload c st fl out c' st'] assms state_typed_takes by auto
next
  case Resume
  then show ?thesis
    using handle_resume_cases [of cd C env payload c st fl out c' st'] assms state_typed_takes by auto
next
  case Detach
  then show ?thesis
    using handle_detach_cases [of env c st fl out c' st'] assms
      registry_typed_op(2) [OF state_typedD(3) [OF assms(1)], of "cn_id c"] state_typedD(1) [OF assms(1)]
    by (auto intro!: state_typed_sessions)
next
  case Close
  then show ?thesis
    using handle_close_cases [of c st fl out c' st'] assms by (auto intro: state_typed_terminate)
qed (use assms handle_quiet_cases in fastforce)+

lemma state_typed_frame:
  assumes "state_typed i st" and "on_control_frame cd C env payload c st = (fl, out, c', st')"
  shows "state_typed i st'"
  using assms(2) by (rule frame_cases) (use assms(1) state_typed_kind in \<open>auto dest!: refuse_cases\<close>)

section \<open>The whole server\<close>

lemma state_typed_step:
  assumes "state_typed i (sy_server sy)"
  shows "state_typed i (sy_server (sys_step cd C sy ev))"
proof (cases ev)
  case (EvFrame cid env payload)
  then show ?thesis using assms
    by (auto simp: sys_step_def split: option.split slot.split prod.split dest: state_typed_frame)
next
  case (EvStart cid env)
  then show ?thesis using assms finish_attach_cases
    by (fastforce simp: sys_step_def split: option.split slot.split prod.split)
next
  case (EvCleanup cid now)
  then show ?thesis using assms
    by (auto simp: sys_step_def state_typed_cleanup split: option.split slot.split)
next
  case (EvTick n1 n2)
  then show ?thesis using assms state_typed_tick [OF assms, of n1 n2]
    by (auto simp: sys_step_def split: prod.split)
next
  case (EvIpc env peer parsed)
  then show ?thesis using assms
    by (auto simp: sys_step_def split: option.split dest: state_typed_ipc)
next
  case (EvSweep now)
  then show ?thesis using assms
    by (simp add: sys_step_def sweep_tokens_def state_typed_def identity_of_def tokens_typed_sweep)
qed (use assms state_typed_replay in
      \<open>auto simp: sys_step_def state_typed_def identity_of_def split: option.split slot.split\<close>)

lemma state_typed_run:
  "state_typed i (sy_server sy) \<Longrightarrow> state_typed i (sy_server (foldl (sys_step cd C) sy evs))"
  by (induction evs arbitrary: sy) (simp_all add: state_typed_step)

lemma state_typed_start:
  assumes "sys_start C sid args uid qaddr fp now env = Some (out, sy)"
  shows "state_typed \<lparr>id_session = sid, id_owner = arg_user args, id_uid = uid, id_quic_addr = qaddr,
    id_fingerprint = fp, id_replay_cap = arg_replay_buffer_bytes args\<rparr> (sy_server sy)"
    (is "state_typed ?i _")
proof -
  let ?st = "server_state_new sid (arg_user args) uid qaddr fp args now"
  have "state_typed ?i ?st"
    using registry_typedI [of "\<lparr>session_id = sid, owner_user_id = arg_user args, sess_quic_addr = qaddr,
        sess_cert_fingerprint = fp, sess_state = Created, attached_conn_id = None, attach_epoch = 0\<rparr>" ?i]
    by (simp add: state_typed_def identity_of_def server_state_new_def create_session_with_id_def
        tokens_typed_def)
  then show ?thesis using assms
    by (auto simp: sys_start_def split: option.splits dest: state_typed_bootstrap)
qed

text \<open>
  C8: The type of the server's state. Whatever connections, timeouts, sweeps, renewals and output
  follow the start, the server keeps the identity it was started with, its registry holds exactly one
  session, with that identity and a well-formed attachment, every token record is bound to it and
  expires no earlier than it was made, no resume token is ever consumed and none revoked; and terminal,
  writer, output channel, time of detachment and replay buffer agree with one another.
\<close>

theorem server_state_typed:
  assumes "sys_start C sid args uid qaddr fp now env = Some (out, sy0)"
    and "sy = foldl (sys_step cd C) sy0 evs"
  shows "state_typed \<lparr>id_session = sid, id_owner = arg_user args, id_uid = uid, id_quic_addr = qaddr,
      id_fingerprint = fp, id_replay_cap = arg_replay_buffer_bytes args\<rparr> (sy_server sy) \<and>
    server_wf (sy_server sy)"
proof
  show "state_typed \<lparr>id_session = sid, id_owner = arg_user args, id_uid = uid, id_quic_addr = qaddr,
      id_fingerprint = fp, id_replay_cap = arg_replay_buffer_bytes args\<rparr> (sy_server sy)"
    using state_typed_run [OF state_typed_start [OF assms(1)], of cd C evs] assms(2) by simp
  have "reachable cd C sy"
    unfolding assms(2) by (rule reachable_run, rule reachable.start, rule assms(1))
  then show "server_wf (sy_server sy)" by (rule sys_okD(1) [OF reachable_ok])
qed

theorem server_state_typed_witness:
  "state_typed \<lparr>id_session = 1, id_owner = ''ann'', id_uid = 1000, id_quic_addr = ''127.0.0.1:30000'',
      id_fingerprint = ''sha256:00'', id_replay_cap = arg_replay_buffer_bytes demo_args\<rparr>
      (sy_server demo_attached_system) \<and> server_wf (sy_server demo_attached_system)"
  using server_state_typed [OF demo_start demo_system_run [symmetric]] by (simp add: demo_args_def)

end
