(* ===== verification/Server_Replay.thy ===== *)
theory Server_Replay
  imports Server_Types
begin

text \<open>
  The replay buffer of the whole server (\<open>ServerState::append_replay\<close> and its callers in
  \<open>src/src/bin/neoshd.rs\<close>): what it holds after any events.
\<close>

section \<open>What was appended\<close>

text \<open>
  The bytes the output tasks of all connections have appended in a run, in the order of their appends. Output
  that no task receives is not among them; a chunk that two tasks receive is there twice.
\<close>

fun appended :: "'v codec \<Rightarrow> crypto \<Rightarrow> system \<Rightarrow> sys_event list \<Rightarrow> bytes" where
  "appended cd C sy [] = []"
| "appended cd C sy (ev # evs) =
     (case ev of EvOutput chunk \<Rightarrow> if sy_stopped sy = None then chunk else [] | _ \<Rightarrow> []) @
     appended cd C (sys_step cd C sy ev) evs"

lemma tick_replay: "srv_replay (snd (accept_tick now1 now2 st)) = srv_replay st"
  by (auto simp: accept_tick_def expire_if_initial_attach_timeout_def expire_if_detached_timeout_def
      Let_def split: option.splits prod.splits bool.splits if_splits)

lemma cleanup_replay [simp]: "srv_replay (conn_cleanup now c st) = srv_replay st"
  using conn_cleanup_store [of _ c st now] by (auto simp: store_step_def)

lemma bootstrap_replay:
  "srv_bootstrap_output C env st = Some (out, st') \<Longrightarrow> srv_replay st' = srv_replay st"
  by (auto simp: srv_bootstrap_output_def srv_issue_auth_token_def Let_def split: option.splits prod.splits)

text \<open>Nothing but an output task touches the buffer.\<close>

lemma step_replay:
  assumes "\<nexists>chunk. ev = EvOutput chunk"
  shows "srv_replay (sy_server (sys_step cd C sy ev)) = srv_replay (sy_server sy)"
proof (cases ev)
  case (EvFrame cid env payload)
  have "srv_replay st' = srv_replay (sy_server sy)"
    if "on_control_frame cd C env payload c (sy_server sy) = (fl, out, c', st')" for fl out c c' st'
    using frame_store [OF that] by (auto simp: store_step_def)
  then show ?thesis using EvFrame by (auto simp: sys_step_def split: option.split slot.split prod.split)
next
  case (EvStart cid env)
  then show ?thesis
    by (auto simp: sys_step_def split: option.split slot.split prod.split dest: finish_attach_cases)
next
  case (EvTick n1 n2)
  then show ?thesis using tick_replay [of n1 n2 "sy_server sy"]
    by (cases "accept_tick n1 n2 (sy_server sy)") (simp add: sys_step_def)
next
  case (EvIpc env peer parsed)
  have "srv_replay st' = srv_replay (sy_server sy)"
    if "ipc_answer C env peer parsed (sy_server sy) = Some (resp, st')" for resp st'
    by (subst ipc_answer_frame [OF that]) simp
  then show ?thesis using EvIpc by (auto simp: sys_step_def split: option.split)
next
  case (EvSweep now)
  then show ?thesis by (simp add: sys_step_def sweep_tokens_def)
qed (use assms in \<open>auto simp: sys_step_def split: option.split slot.split\<close>)

lemma step_cap:
  "state_typed i (sy_server sy) \<Longrightarrow> srv_replay_cap (sy_server sy) = id_replay_cap i"
  by (auto simp: state_typed_def identity_of_def)

lemma run_replay:
  assumes "state_typed i (sy_server sy)" and "length (srv_replay (sy_server sy)) \<le> id_replay_cap i"
  shows "srv_replay (sy_server (foldl (sys_step cd C) sy evs)) =
    take_last (id_replay_cap i) (srv_replay (sy_server sy) @ appended cd C sy evs)"
  using assms
proof (induction evs arbitrary: sy)
  case (Cons ev evs)
  let ?new = "case ev of EvOutput chunk \<Rightarrow> if sy_stopped sy = None then chunk else [] | _ \<Rightarrow> []"
  have cap: "srv_replay_cap (sy_server sy) = id_replay_cap i" by (rule step_cap [OF Cons.prems(1)])
  have st: "srv_replay (sy_server (sys_step cd C sy ev)) =
      take_last (id_replay_cap i) (srv_replay (sy_server sy) @ ?new)"
  proof (cases "\<exists>chunk. ev = EvOutput chunk")
    case True
    then show ?thesis using cap Cons.prems(2)
      by (auto simp: sys_step_def append_replay_alt take_last_all)
  next
    case False
    then have "?new = []" by (cases ev) auto
    then show ?thesis using step_replay [OF False] Cons.prems(2) by (simp add: take_last_all)
  qed
  have "length (srv_replay (sy_server (sys_step cd C sy ev))) \<le> id_replay_cap i"
    unfolding st by (simp add: length_take_last)
  from Cons.IH [OF state_typed_step [OF Cons.prems(1)] this] show ?case
    by (simp add: st take_last_append_take_last)
qed (simp add: take_last_all)

lemma start_replay:
  assumes "sys_start C sid args uid qaddr fp now env = Some (out, sy)"
  shows "srv_replay (sy_server sy) = []"
  using assms bootstrap_replay
  by (auto simp: sys_start_def server_state_new_def split: option.splits)

text \<open>
  C27: The replay buffer in every run of the server, whatever connections, timeouts, sweeps and renewals come
  between: it holds the last bytes, up to the configured bound, of what the output tasks of all its
  connections have appended, in that order, and nothing else. A connection that resumes is given exactly that and
  one that attaches is given nothing. From there an output task adds all it writes to its client, and at most the
  one chunk it could not write. (Output that comes while no task is subscribed is not appended by anyone.)
\<close>

theorem replay_holds_last_appended:
  assumes "sys_start C sid args uid qaddr fp now env = Some (out, sy0)"
    and "st = sy_server (foldl (sys_step cd C) sy0 evs)"
  shows "srv_replay st = take_last (arg_replay_buffer_bytes args) (appended cd C sy0 evs) \<and>
    (\<forall>opened written resume dp. start_data_plane opened written st resume = Inr dp \<longrightarrow>
       dp_stdout dp =
         (if resume then take_last (arg_replay_buffer_bytes args) (appended cd C sy0 evs) else [])) \<and>
    (\<forall>rs st' w ended. out_task st rs = (st', w, ended) \<longrightarrow>
       (\<exists>x. srv_replay st' = take_last (arg_replay_buffer_bytes args) (appended cd C sy0 evs @ w @ x) \<and>
          ((\<forall>r\<in>set rs. snd r) \<longrightarrow> x = []) \<and> (x = [] \<or> (\<exists>r\<in>set rs. fst r = RecvOk x))))"
proof -
  let ?i = "\<lparr>id_session = sid, id_owner = arg_user args, id_uid = uid, id_quic_addr = qaddr,
      id_fingerprint = fp, id_replay_cap = arg_replay_buffer_bytes args\<rparr>"
  let ?cap = "arg_replay_buffer_bytes args" and ?all = "appended cd C sy0 evs"
  note start = state_typed_start [OF assms(1)]
  have rep: "srv_replay st = take_last ?cap ?all"
    using run_replay [OF start, of cd C evs] start_replay [OF assms(1)] assms(2) by simp
  have cap: "srv_replay_cap st = ?cap"
    using step_cap [OF state_typed_run [OF start, of cd C evs]] assms(2) by simp
  have "dp_stdout dp = (if resume then take_last ?cap ?all else [])"
    if "start_data_plane opened written st resume = Inr dp" for opened written resume dp
    using start_data_plane_stdout [OF that] rep by simp
  moreover have "\<exists>x. srv_replay st' = take_last ?cap (?all @ w @ x) \<and> ((\<forall>r\<in>set rs. snd r) \<longrightarrow> x = []) \<and>
      (x = [] \<or> (\<exists>r\<in>set rs. fst r = RecvOk x))" if "out_task st rs = (st', w, ended)" for rs st' w ended
    using out_task_replay [OF that] by (simp add: rep cap length_take_last take_last_append_take_last)
  ultimately show ?thesis using rep by blast
qed

text \<open>The demo server has a bound of eight bytes: of nine bytes the first is gone.\<close>

theorem replay_holds_last_appended_witness:
  "srv_replay (sy_server (foldl (sys_step demo_codec demo_crypto) demo_system
     [EvOutput [1, 2, 3], EvPtyExit, EvOutput [4, 5, 6, 7, 8, 9]])) = [2, 3, 4, 5, 6, 7, 8, 9]"
proof -
  have "arg_replay_buffer_bytes demo_args = 8" by (simp add: demo_args_def)
  moreover have "appended demo_codec demo_crypto demo_system
      [EvOutput [1, 2, 3], EvPtyExit, EvOutput [4, 5, 6, 7, 8, 9]] = [1, 2, 3, 4, 5, 6, 7, 8, 9]"
    by (simp add: demo_system_def sys_step_def)
  ultimately show ?thesis
    using replay_holds_last_appended [OF demo_start refl, of demo_codec
      "[EvOutput [1, 2, 3], EvPtyExit, EvOutput [4, 5, 6, 7, 8, 9]]"] by (simp add: take_last_def)
qed

end
