(* ===== verification/Server_Process.thy ===== *)
theory Server_Process
  imports Server_Config Server_Types
begin

text \<open>
  The whole of \<open>run_new\<close> (\<open>src/src/bin/neoshd.rs\<close>): what it logs and prints around its accept loop, and
  the life of its control socket and its background tasks.
\<close>

section \<open>Times\<close>

text \<open>\<open>now_epoch_millis\<close>: zero before the epoch.\<close>

definition now_epoch_millis :: "system_time \<Rightarrow> nat" where
  "now_epoch_millis now =
     (case duration_since now 0 of Some d \<Rightarrow> d div 1000000 | None \<Rightarrow> 0)"

lemma now_epoch_millis_mono: "t \<le> u \<Longrightarrow> now_epoch_millis t \<le> now_epoch_millis u"
  by (auto simp: now_epoch_millis_def duration_since_def intro: div_le_mono)

section \<open>The background tasks\<close>

text \<open>
  The sweeper: its ticker fires at once and then every 60 seconds, and at each tick it reads the clock
  and sweeps under the lock; \<open>clock\<close> gives what it reads at its n-th tick.
\<close>

fun sweep_task :: "(nat \<Rightarrow> system_time) \<Rightarrow> nat \<Rightarrow> nat \<Rightarrow> sys_event list" where
  "sweep_task clock n 0 = []"
| "sweep_task clock n (Suc rounds) = EvSweep (clock n) # sweep_task clock (Suc n) rounds"

section \<open>Log lines\<close>

text \<open>
  What \<open>log_event\<close> writes: the time as chrono formats it and in milliseconds, each from a reading of the
  clock of its own, the event and its payload; the server adds the number of its process, the client does
  not. A payload is an object, its values numbers, texts or identifiers.
\<close>

datatype log_value = LvNum nat | LvText string | LvUuid uuid

type_synonym log_payload = "(string \<times> log_value) list"

record log_line =
  ll_ts :: string
  ll_ts_ms :: nat
  ll_pid :: "nat option"
  ll_event :: string
  ll_payload :: log_payload

definition server_log_line ::
  "(system_time \<Rightarrow> string) \<Rightarrow> system_time \<Rightarrow> system_time \<Rightarrow> nat \<Rightarrow> string \<Rightarrow> log_payload \<Rightarrow> log_line" where
  "server_log_line rfc3339 t u pid event payload =
     \<lparr>ll_ts = rfc3339 t, ll_ts_ms = now_epoch_millis u, ll_pid = Some pid, ll_event = event,
      ll_payload = payload\<rparr>"

definition client_log_line ::
  "(system_time \<Rightarrow> string) \<Rightarrow> system_time \<Rightarrow> system_time \<Rightarrow> string \<Rightarrow> log_payload \<Rightarrow> log_line" where
  "client_log_line rfc3339 t u event payload =
     \<lparr>ll_ts = rfc3339 t, ll_ts_ms = now_epoch_millis u, ll_pid = None, ll_event = event,
      ll_payload = payload\<rparr>"

section \<open>The process\<close>

text \<open>What \<open>run_new\<close> does to the world around it, from the printing of the bootstrap data on.\<close>

datatype process_action =
    ActPrint bootstrap_output
  | ActLog string log_payload
  | ActCreateDir
  | ActRemoveSocket
  | ActSpawnIpc
  | ActSpawnSweep
  | ActAcceptLoop
  | ActAbortIpc
  | ActAbortSweep

datatype process_end = ProcPanicked | ProcEnded "neoshd_error + unit"

definition issued_actions :: "bootstrap_output \<Rightarrow> process_action list" where
  "issued_actions out =
     [ActPrint out,
      ActLog ''token_issued'' [(''token_type'', LvText ''auth_token''), (''session_id'', LvUuid (bo_session_id out))]]"

text \<open>The socket of an earlier process is removed before the tasks start.\<close>

definition start_actions :: "new_args \<Rightarrow> bootstrap_output \<Rightarrow> process_action list" where
  "start_actions args out =
     [ActCreateDir, ActRemoveSocket, ActSpawnIpc, ActSpawnSweep,
      ActLog ''server_start''
        [(''session_id'', LvUuid (bo_session_id out)), (''quic_addr'', LvText (bo_quic_addr out)),
         (''initial_attach_timeout_seconds'', LvNum (unat (arg_initial_attach_timeout args))),
         (''detached_session_timeout_seconds'', LvNum (unat (arg_session_timeout args)))],
      if arg_initial_attach_timeout args = 0
      then ActLog ''initial_attach_timeout_disabled'' [(''session_id'', LvUuid (bo_session_id out))]
      else ActLog ''initial_attach_timeout_armed''
        [(''session_id'', LvUuid (bo_session_id out)),
         (''timeout_seconds'', LvNum (unat (arg_initial_attach_timeout args)))]]"

text \<open>After the loop both tasks are stopped and the socket's file is removed, whatever its result.\<close>

definition stop_actions ::
  "uuid \<Rightarrow> neoshd_error + accept_loop_stop_reason \<Rightarrow> process_action list" where
  "stop_actions sid accept_res =
     [ActAbortIpc, ActAbortSweep, ActRemoveSocket] @
     map (\<lambda>(event, txt). ActLog event
         [(''session_id'', LvUuid sid), (if isl accept_res then ''error'' else ''reason'', LvText txt)])
       (fst (run_new_end accept_res))"

text \<open>\<open>accept_res\<close> is the result of the accept loop, whose place in the trace is \<open>ActAcceptLoop\<close>.\<close>

definition run_new ::
  "crypto \<Rightarrow> ('ip, 'ep) server_api \<Rightarrow> launch_env \<Rightarrow> new_args \<Rightarrow> neoshd_error + accept_loop_stop_reason
   \<Rightarrow> process_action list \<times> process_end" where
  "run_new C api env args accept_res =
     (case launch C api env args of
        LaunchPanicked \<Rightarrow> ([], ProcPanicked)
      | LaunchFailed e None \<Rightarrow> ([], ProcEnded (Inl e))
      | LaunchFailed e (Some out) \<Rightarrow>
          (case le_flush env of
             Inl _ \<Rightarrow> [ActPrint out]
           | Inr _ \<Rightarrow> issued_actions out, ProcEnded (Inl e))
      | Launched config endpoint out sy \<Rightarrow>
          (issued_actions out @ start_actions args out @ [ActAcceptLoop] @
             stop_actions (bo_session_id out) accept_res,
           ProcEnded (snd (run_new_end accept_res))))"

text \<open>The process ends without an error exactly when it started and its accept loop returned a reason.\<close>

lemma run_new_outcome:
  "snd (run_new C api env args accept_res) = ProcEnded (Inr ()) \<longleftrightarrow>
     (\<exists>config endpoint out sy reason. launch C api env args = Launched config endpoint out sy \<and>
        accept_res = Inr reason)"
  by (auto simp: run_new_def run_new_end_def split: launched.splits sum.splits option.splits)

text \<open>A start that fails has spawned nothing and logged at most that a token was issued.\<close>

lemma failed_start_actions:
  assumes "launch C api env args = LaunchFailed e out"
  shows "set (fst (run_new C api env args accept_res)) \<inter>
      {ActCreateDir, ActRemoveSocket, ActSpawnIpc, ActSpawnSweep, ActAcceptLoop} = {} \<and>
    snd (run_new C api env args accept_res) = ProcEnded (Inl e)"
  using assms by (auto simp: run_new_def issued_actions_def split: option.splits sum.splits)

section \<open>The tasks and the socket\<close>

text \<open>
  The tasks beside the actions of \<open>run_new\<close>, each between two waits at a time (a poll). The task of the
  control socket is queued when it is spawned. Its first poll binds the file, which fails when the file is
  there, and sets its mode, which may fail with the file left behind; from then on it waits for connections and
  handles them. It may end with an error in any poll. The sweeper waits for its ticker and sweeps.
  \<open>JoinHandle::abort\<close> only asks: a task that waits or is queued is not polled again, one in the middle of a
  poll goes on to its next wait.
\<close>

datatype ipc_life = IpcNotSpawned | IpcQueued | IpcBinding | IpcWaiting | IpcHandling | IpcEnded

datatype sweep_life = SweepNotSpawned | SweepWaiting | SweepRunning | SweepEnded

record background =
  bg_ipc :: ipc_life
  bg_ipc_aborted :: bool
  bg_sweep :: sweep_life
  bg_sweep_aborted :: bool
  bg_socket :: bool

definition background_start :: "bool \<Rightarrow> background" where
  "background_start stale =
     \<lparr>bg_ipc = IpcNotSpawned, bg_ipc_aborted = False, bg_sweep = SweepNotSpawned, bg_sweep_aborted = False,
      bg_socket = stale\<rparr>"

datatype process_event =
    PeMain process_action
  | PeIpcPoll
  | PeIpcBind bool
  | PeIpcWait
  | PeIpcError
  | PeSweepPoll
  | PeSweepWait

text \<open>\<open>removable\<close>: whether the file can be removed; \<open>run_new\<close> ignores the result.\<close>

fun background_step :: "bool \<Rightarrow> background \<Rightarrow> process_event \<Rightarrow> background" where
  "background_step removable b (PeMain ActRemoveSocket) = b\<lparr>bg_socket := bg_socket b \<and> \<not> removable\<rparr>"
| "background_step removable b (PeMain ActSpawnIpc) = b\<lparr>bg_ipc := IpcQueued\<rparr>"
| "background_step removable b (PeMain ActAbortIpc) =
     b\<lparr>bg_ipc_aborted := True, bg_ipc := if bg_ipc b \<in> {IpcQueued, IpcWaiting} then IpcEnded else bg_ipc b\<rparr>"
| "background_step removable b (PeMain ActSpawnSweep) = b\<lparr>bg_sweep := SweepWaiting\<rparr>"
| "background_step removable b (PeMain ActAbortSweep) =
     b\<lparr>bg_sweep_aborted := True, bg_sweep := if bg_sweep b = SweepWaiting then SweepEnded else bg_sweep b\<rparr>"
| "background_step removable b (PeMain _) = b"
| "background_step removable b PeIpcPoll =
     (case bg_ipc b of
        IpcQueued \<Rightarrow> b\<lparr>bg_ipc := IpcBinding\<rparr>
      | IpcWaiting \<Rightarrow> b\<lparr>bg_ipc := IpcHandling\<rparr>
      | _ \<Rightarrow> b)"
| "background_step removable b (PeIpcBind chmod_ok) =
     (if bg_ipc b = IpcBinding
      then if bg_socket b then b\<lparr>bg_ipc := IpcEnded\<rparr>
           else b\<lparr>bg_socket := True,
             bg_ipc := if chmod_ok \<and> \<not> bg_ipc_aborted b then IpcWaiting else IpcEnded\<rparr>
      else b)"
| "background_step removable b PeIpcWait =
     (if bg_ipc b = IpcHandling then b\<lparr>bg_ipc := if bg_ipc_aborted b then IpcEnded else IpcWaiting\<rparr> else b)"
| "background_step removable b PeIpcError =
     (if bg_ipc b \<in> {IpcBinding, IpcHandling} then b\<lparr>bg_ipc := IpcEnded\<rparr> else b)"
| "background_step removable b PeSweepPoll =
     (if bg_sweep b = SweepWaiting then b\<lparr>bg_sweep := SweepRunning\<rparr> else b)"
| "background_step removable b PeSweepWait =
     (if bg_sweep b = SweepRunning
      then b\<lparr>bg_sweep := if bg_sweep_aborted b then SweepEnded else SweepWaiting\<rparr> else b)"

abbreviation background_run :: "bool \<Rightarrow> background \<Rightarrow> process_event list \<Rightarrow> background" where
  "background_run removable \<equiv> foldl (background_step removable)"

fun main_actions :: "process_event list \<Rightarrow> process_action list" where
  "main_actions [] = []"
| "main_actions (PeMain a # evs) = a # main_actions evs"
| "main_actions (_ # evs) = main_actions evs"

lemma main_actions_append [simp]: "main_actions (xs @ ys) = main_actions xs @ main_actions ys"
  by (induction xs rule: main_actions.induct) auto


text \<open>Invariants of the steps that neither spawn nor abort a task carry over runs.\<close>

definition plain :: "process_action list \<Rightarrow> bool" where
  "plain acts \<longleftrightarrow> set acts \<inter> {ActSpawnIpc, ActSpawnSweep, ActAbortIpc, ActAbortSweep} = {}"

lemma plain_simps [simp]:
  "plain []" "plain (xs @ ys) \<longleftrightarrow> plain xs \<and> plain ys"
  "plain (act # acts) \<longleftrightarrow> act \<notin> {ActSpawnIpc, ActSpawnSweep, ActAbortIpc, ActAbortSweep} \<and> plain acts"
  "plain (map (\<lambda>(e, x). ActLog e (f e x)) es)"
  by (auto simp: plain_def)

























text \<open>The trace of a server that starts, cut at the actions the tasks depend on.\<close>

lemma started_trace:
  assumes "launch C api env args = Launched config endpoint out sy"
  obtains xs ys zs where
    "fst (run_new C api env args res) = xs @ ActRemoveSocket # ActSpawnIpc # ActSpawnSweep # ys @ ActAcceptLoop #
       [ActAbortIpc, ActAbortSweep, ActRemoveSocket] @ zs"
    "plain xs" "plain ys" "plain zs"
proof -
  obtain l1 l2 where s: "issued_actions out @ start_actions args out =
      (issued_actions out @ [ActCreateDir]) @ ActRemoveSocket # ActSpawnIpc # ActSpawnSweep # [l1, l2]"
    and l: "\<exists>e p. l1 = ActLog e p" "\<exists>e p. l2 = ActLog e p"
    by (simp add: start_actions_def)
  let ?zs = "map (\<lambda>(event, txt). ActLog event
      [(''session_id'', LvUuid (bo_session_id out)), (if isl res then ''error'' else ''reason'', LvText txt)])
    (fst (run_new_end res))"
  show thesis
  proof (rule that [of "issued_actions out @ [ActCreateDir]" "[l1, l2]" ?zs])
    show "fst (run_new C api env args res) = (issued_actions out @ [ActCreateDir]) @
        ActRemoveSocket # ActSpawnIpc # ActSpawnSweep # [l1, l2] @ ActAcceptLoop #
        [ActAbortIpc, ActAbortSweep, ActRemoveSocket] @ ?zs"
      using s by (simp add: run_new_def assms stop_actions_def)
  qed (use l in \<open>auto simp: issued_actions_def\<close>)
qed


lemma main_actions_map [simp]: "main_actions (map PeMain acts) = acts"
  by (induction acts) auto


text \<open>
  The removal does come too early when the abort meets the task in its first poll: what the last part of the
  property leaves open happens.
\<close>

lemma binding_kept:
  "bg_ipc b = IpcBinding \<and> \<not> bg_socket b \<Longrightarrow> ActSpawnIpc \<notin> set acts \<Longrightarrow>
   bg_ipc (background_run r b (map PeMain acts)) = IpcBinding \<and> \<not> bg_socket (background_run r b (map PeMain acts))"
proof (induction acts arbitrary: b)
  case (Cons a acts)
  have "bg_ipc (background_step r b (PeMain a)) = IpcBinding \<and> \<not> bg_socket (background_step r b (PeMain a))"
    using Cons.prems by (cases a) auto
  then show ?case using Cons by simp
qed simp

lemma late_bind_leaves_socket:
  assumes "launch C api env args = Launched config endpoint out sy"
  shows "\<exists>evs. main_actions evs = fst (run_new C api env args accept_res) \<and>
    bg_socket (background_run True (background_start stale) evs)"
proof -
  obtain xs ys zs where t: "fst (run_new C api env args accept_res) = xs @ ActRemoveSocket # ActSpawnIpc #
      ActSpawnSweep # ys @ ActAcceptLoop # [ActAbortIpc, ActAbortSweep, ActRemoveSocket] @ zs"
    and p: "plain xs" "plain ys" "plain zs" by (rule started_trace [OF assms])
  let ?rest = "ActSpawnSweep # ys @ ActAcceptLoop # [ActAbortIpc, ActAbortSweep, ActRemoveSocket] @ zs"
  let ?evs = "map PeMain (xs @ [ActRemoveSocket, ActSpawnIpc]) @ PeIpcPoll # map PeMain ?rest @ [PeIpcBind True]"
  let ?b = "background_run True (background_start stale) (map PeMain (xs @ [ActRemoveSocket, ActSpawnIpc]) @ [PeIpcPoll])"
  have "bg_ipc ?b = IpcBinding \<and> \<not> bg_socket ?b" by simp
  moreover have "ActSpawnIpc \<notin> set ?rest" using p by (auto simp: plain_def)
  ultimately have "bg_ipc (background_run True ?b (map PeMain ?rest)) = IpcBinding \<and>
      \<not> bg_socket (background_run True ?b (map PeMain ?rest))" by (rule binding_kept)
  then have "bg_socket (background_step True (background_run True ?b (map PeMain ?rest)) (PeIpcBind True))"
    by (simp del: foldl_map)
  then have "bg_socket (background_run True (background_start stale) ?evs)" by simp
  moreover have "main_actions ?evs = fst (run_new C api env args accept_res)" unfolding t by simp
  ultimately show ?thesis by blast
qed

section \<open>The log of a process\<close>

text \<open>The lines of a trace: each line reads the clock twice, and \<open>clock\<close> gives what the n-th reading gives.\<close>

fun process_log :: "(system_time \<Rightarrow> string) \<Rightarrow> (nat \<Rightarrow> system_time) \<Rightarrow> nat \<Rightarrow> nat \<Rightarrow> process_action list \<Rightarrow> log_line list" where
  "process_log rfc3339 clock pid n [] = []"
| "process_log rfc3339 clock pid n (ActLog event payload # acts) =
     server_log_line rfc3339 (clock n) (clock (Suc n)) pid event payload #
     process_log rfc3339 clock pid (Suc (Suc n)) acts"
| "process_log rfc3339 clock pid n (_ # acts) = process_log rfc3339 clock pid n acts"

text \<open>With a clock that never goes back, the lines stand in the order of their times.\<close>

lemma process_log_sorted:
  assumes "mono clock"
  shows "sorted (map ll_ts_ms (process_log rfc3339 clock pid n acts)) \<and>
    (\<forall>l\<in>set (process_log rfc3339 clock pid n acts). now_epoch_millis (clock n) \<le> ll_ts_ms l)"
proof (induction acts arbitrary: n)
  case (Cons act acts)
  have le: "now_epoch_millis (clock n) \<le> now_epoch_millis (clock (n + k))" for n k
    using monoD [OF assms, of n "n + k"] by (simp add: now_epoch_millis_mono)
  have after: "now_epoch_millis (clock (Suc n)) \<le> ll_ts_ms l \<and> now_epoch_millis (clock n) \<le> ll_ts_ms l"
    if "l \<in> set (process_log rfc3339 clock pid (Suc (Suc n)) acts)" for l
    using Cons.IH [of "Suc (Suc n)"] that le [of "Suc n" 1] le [of n 2] by fastforce
  show ?case
  proof (cases act)
    case (ActLog event payload)
    then show ?thesis using Cons.IH [of "Suc (Suc n)"] after le [of n 1]
      by (auto simp: server_log_line_def)
  qed (use Cons.IH in simp_all)
qed simp

text \<open>The first line of a server that started says that a token was issued, for the session it printed.\<close>

lemma process_log_first:
  assumes "launch C api env args = Launched config endpoint out sy"
  shows "\<exists>rest. process_log rfc3339 clock pid 0 (fst (run_new C api env args res)) =
    server_log_line rfc3339 (clock 0) (clock (Suc 0)) pid ''token_issued''
      [(''token_type'', LvText ''auth_token''), (''session_id'', LvUuid (bo_session_id out))] # rest"
  using assms by (simp add: run_new_def issued_actions_def)

text \<open>
  After a sweep of a server's tokens each record left is still valid, or an auth token that was used
  within the retention.
\<close>

lemma swept_records:
  assumes "tokens_typed i svc" and "r \<in> set (cleanup_expired svc now ret)"
  shows "now < expires_at r \<or>
    tok_type r = AuthToken \<and> (\<exists>t. consumed_at r = Some t \<and> t \<le> now \<and> nat (now - t) \<le> ret)"
  using assms
  by (cases "tok_type r")
    (auto simp: tokens_typed_def token_typed_def cleanup_expired_def keep_record_def too_recent_def duration_since_def Option.bind_eq_Some_conv
      split: option.splits if_splits)

lemma sweep_event_records:
  assumes "state_typed i (sy_server sy)" and "sy_stopped sy = None"
    and "r \<in> set (srv_tokens (sy_server (sys_step cd C sy (EvSweep now))))"
  shows "now < expires_at r \<or>
    tok_type r = AuthToken \<and>
      (\<exists>t. consumed_at r = Some t \<and> t \<le> now \<and> nat (now - t) \<le> duration_from_secs 300)"
  using assms by (intro swept_records [of i]) (auto simp: sys_step_def sweep_tokens_def state_typed_def)

end
