(* ===== verification/Client_Tls.thy ===== *)
theory Client_Tls
  imports Client_Session Server_Config
begin

text \<open>
  What the client asks of the TLS layer (\<open>InsecureVerifier\<close> and its use in
  \<open>src/src/client/quic_client.rs\<close>), the defaults of \<open>src/src/transport/quic.rs\<close>, and what the pinned
  fingerprint shows about the peer.
\<close>

section \<open>The defaults\<close>

record quic_skeleton_config =
  qs_alpn :: string
  qs_max_control_frame_bytes :: nat

definition quic_skeleton_default :: quic_skeleton_config where
  "quic_skeleton_default = \<lparr>qs_alpn = ''neosh/1'', qs_max_control_frame_bytes = 64 * 1024\<rparr>"

text \<open>Server and client use the frame bound that the defaults state.\<close>

lemma frame_bounds_agree:
  "qs_max_control_frame_bytes quic_skeleton_default = max_control_frame"
  "qs_max_control_frame_bytes quic_skeleton_default = client_max_control_frame"
  by (simp_all add: quic_skeleton_default_def max_control_frame_def client_max_control_frame_def)

text \<open>The protocol of the server's TLS configuration is that of the defaults.\<close>

lemma server_alpn_agrees:
  "build_server_tls C api args = Some (Inr (config, fp)) \<Longrightarrow> sc_alpn config = qs_alpn quic_skeleton_default"
  by (auto simp: quic_skeleton_default_def dest: build_server_tlsD)

section \<open>The verifier\<close>

datatype signature_scheme = EcdsaNistp256Sha256 | RsaPssSha256 | Ed25519 | OtherScheme nat

record signed_struct =
  ds_scheme :: signature_scheme
  ds_signature :: bytes

text \<open>A \<open>ServerCertVerifier\<close>: its four methods. \<open>Inr ()\<close> is an assertion of validity.\<close>

record cert_verifier =
  cv_server_cert :: "bytes \<Rightarrow> bytes list \<Rightarrow> string \<Rightarrow> bytes \<Rightarrow> system_time \<Rightarrow> string + unit"
  cv_tls12_signature :: "bytes \<Rightarrow> bytes \<Rightarrow> signed_struct \<Rightarrow> string + unit"
  cv_tls13_signature :: "bytes \<Rightarrow> bytes \<Rightarrow> signed_struct \<Rightarrow> string + unit"
  cv_schemes :: "signature_scheme list"

definition insecure_verifier :: cert_verifier where
  "insecure_verifier =
     \<lparr>cv_server_cert = (\<lambda>end_entity intermediates server_name ocsp_response now. Inr ()),
      cv_tls12_signature = (\<lambda>message cert dss. Inr ()),
      cv_tls13_signature = (\<lambda>message cert dss. Inr ()),
      cv_schemes = [EcdsaNistp256Sha256, RsaPssSha256, Ed25519]\<rparr>"

text \<open>
  What \<open>rustls\<close> documents of a handshake of TLS 1.3, the version of QUIC, seen from the client: the
  peer sends a chain of certificates, and a signature over the messages so far that is to be checked
  against the first of them; the verifier decides on both, among the schemes it supports.
\<close>

record tls_peer =
  tp_certs :: "bytes list"
  tp_ocsp :: bytes
  tp_verify :: signed_struct
  tp_alpn :: string

definition tls13_accepts :: "cert_verifier \<Rightarrow> string \<Rightarrow> string \<Rightarrow> system_time \<Rightarrow> bytes \<Rightarrow> tls_peer \<Rightarrow> bool" where
  "tls13_accepts V alpn name now transcript peer \<longleftrightarrow>
     (case tp_certs peer of
        [] \<Rightarrow> False
      | end_entity # intermediates \<Rightarrow>
          cv_server_cert V end_entity intermediates name (tp_ocsp peer) now = Inr () \<and>
          ds_scheme (tp_verify peer) \<in> set (cv_schemes V) \<and>
          cv_tls13_signature V transcript end_entity (tp_verify peer) = Inr ()) \<and>
     tp_alpn peer = alpn"

section \<open>What the fingerprint shows\<close>

text \<open>
  The verifier looks at nothing: a chain that is not empty, a signature of a supported scheme with any
  bytes, and the protocol's name are all a peer needs.
\<close>

lemma insecure_accepts:
  "tls13_accepts insecure_verifier alpn name now transcript peer \<longleftrightarrow>
     tp_certs peer \<noteq> [] \<and> tp_alpn peer = alpn \<and>
     ds_scheme (tp_verify peer) \<in> {EcdsaNistp256Sha256, RsaPssSha256, Ed25519}"
  by (cases "tp_certs peer") (auto simp: tls13_accepts_def insecure_verifier_def)

text \<open>
  C29: The pinned fingerprint does not show who the peer is. Whoever answers at the address with the
  server's certificate, which the server sends to everyone, is accepted, whatever bytes it sends as its
  signature: no private key is asked for. The client then gives it the auth token. The hypotheses are
  what \<open>quinn\<close> and \<open>rustls\<close> document: a connection is made when the verifier accepts the peer that
  answers, and its identity is the chain that peer sent.
\<close>

theorem pin_needs_no_key:
  assumes "\<And>name. tls13_accepts insecure_verifier ''neosh/1'' name now transcript peer \<Longrightarrow>
      qa_connect q addr name = Inr con \<and> qa_peer_certs q con = Some (tp_certs peer)"
    and "qa_parse_addr q quic_addr = Some addr" and "qa_endpoint q = Inr ()"
    and "build_insecure_pinned_client_config q idle = Inr ()"
    and "peer = \<lparr>tp_certs = [server_cert], tp_ocsp = ocsp,
      tp_verify = \<lparr>ds_scheme = Ed25519, ds_signature = forged\<rparr>, tp_alpn = ''neosh/1''\<rparr>"
  shows "connect_and_verify C q quic_addr (sha256_fingerprint C server_cert) idle = Inr con \<and>
    (fst (send_json env (CAuth ''ssh-token'' token) s) = Inr () \<longrightarrow>
       CAuth ''ssh-token'' token \<in> set (cs_sent (snd (auth_phase env token s))))"
proof
  have "tls13_accepts insecure_verifier ''neosh/1'' ''localhost'' now transcript peer"
    by (simp add: insecure_accepts assms(5))
  with assms(1) [of "''localhost''"] assms(2-5)
  show "connect_and_verify C q quic_addr (sha256_fingerprint C server_cert) idle = Inr con"
    by (simp add: connect_and_verify_def verify_peer_fingerprint_def peer_cert_fingerprint_def)
  show "fst (send_json env (CAuth ''ssh-token'' token) s) = Inr () \<longrightarrow>
       CAuth ''ssh-token'' token \<in> set (cs_sent (snd (auth_phase env token s)))"
  proof
    assume "fst (send_json env (CAuth ''ssh-token'' token) s) = Inr ()"
    then obtain s' where s': "send_json env (CAuth ''ssh-token'' token) s = (Inr (), s')"
      by (cases "send_json env (CAuth ''ssh-token'' token) s") auto
    then have in': "CAuth ''ssh-token'' token \<in> set (cs_sent s')" by (auto dest: send_json_Inr)
    have rest: "cs_sent (snd (recv_json env s')) = cs_sent s'"
      by (auto simp: recv_json_def split: sum.split prod.split)
    obtain r s'' where r: "recv_json env s' = (r, s'')" by fastforce
    with rest in' have "CAuth ''ssh-token'' token \<in> set (cs_sent s'')" by simp
    then show "CAuth ''ssh-token'' token \<in> set (cs_sent (snd (auth_phase env token s)))"
      by (cases r) (auto simp: auth_phase_def act_then_def s' r act_lift_def split: sum.split)
  qed
qed

theorem pin_needs_no_key_witness:
  "connect_and_verify demo_crypto demo_quic ''127.0.0.1:30000'' (sha256_fingerprint demo_crypto [7, 7]) 60 =
     Inr 9 \<and>
   CAuth ''ssh-token'' ''A'' \<in> set (cs_sent (snd (auth_phase (demo_env (SeDetach False)) ''A'' demo_sess)))"
proof -
  let ?peer = "\<lparr>tp_certs = [[7, 7]], tp_ocsp = [], tp_verify = \<lparr>ds_scheme = Ed25519, ds_signature = [0]\<rparr>,
    tp_alpn = ''neosh/1''\<rparr>"
  have c: "qa_connect demo_quic 1 name = Inr 9 \<and> qa_peer_certs demo_quic 9 = Some (tp_certs ?peer)" for name
    by (simp add: demo_quic_def)
  show ?thesis
    using pin_needs_no_key [of 0 "[]" ?peer demo_quic 1 9 "''127.0.0.1:30000''" 60 "[7, 7]" "[]" "[0]"
        demo_crypto "demo_env (SeDetach False)" "''A''" demo_sess] c
    by (simp add: demo_quic_def build_insecure_pinned_client_config_def demo_send)
qed

end
