(* ===== verification/Client_Tasks.thy ===== *)
theory Client_Tasks
  imports Client_Ipc Stdin_Filter
begin

text \<open>
  The tasks of an attached client, running side by side: the rest of \<open>run_session\<close> from the start of
  its control socket on, the socket's task, the two tasks of the terminal's bridge, the watch of the
  control stream, and the tasks that send window sizes and keep-alives (\<open>src/src/bin/neosh.rs\<close>). They
  share the flag \<open>detach_requested_from_ipc\<close>, the notification, the channel of signals and the control
  stream. One event is what a task does between two of its waits; events interleave freely.
\<close>

section \<open>State and events\<close>

text \<open>The socket's task: waiting; the flag set and the message being sent; sent; waiters notified.\<close>

datatype ipc_phase = IpcListening | IpcRequested | IpcSent | IpcFinished

text \<open>
  \<open>run_session\<close>: opening the streams; the tasks spawned; waiting in its \<open>select!\<close>; leaving, with
  \<open>should_send_detach\<close> and \<open>disconnected\<close>; closed and reading the flag for the last time; ending
  after the end of the output; returned.
\<close>

datatype main_phase =
    MainOpening | MainSpawned | MainWaiting | MainLeaving bool bool | MainChecking | MainEnding
  | MainDone "cli_error + unit"

datatype client_task = MainTask | IpcTask | WindowTask | KeepaliveTask

record 'v client_tasks =
  ct_main :: main_phase
  ct_sess :: client_sess
  ct_flag :: bool
  ct_ipc :: ipc_phase
  ct_woken :: bool
  ct_signals :: "'v control_signal list"
  ct_wire :: "(client_task \<times> client_msg) list"
  ct_input :: bool
  ct_output :: bool
  ct_watch :: bool

datatype task_event =
    CeIpcRequest
  | CeIpcSent bool
  | CeIpcNotify
  | CeHotkey
  | CeInputEnd
  | CeOutputEnd bridge_signal
  | CeWatchEnd bytes
  | CeResize u16 u16
  | CePing string
  | CeOpened
  | CeSelect
  | CeNotified
  | CeSignal
  | CeLeave
  | CeCheck
  | CeEnd

definition tasks_start :: "client_sess \<Rightarrow> 'v client_tasks" where
  "tasks_start s =
     \<lparr>ct_main = MainOpening, ct_sess = s, ct_flag = False, ct_ipc = IpcListening, ct_woken = False,
      ct_signals = [], ct_wire = [], ct_input = False, ct_output = False, ct_watch = False\<rparr>"

text \<open>
  \<open>Notify::notify_waiters\<close> wakes who waits at that moment and stores nothing.
\<close>

definition notify_waiters :: "'v client_tasks \<Rightarrow> 'v client_tasks" where
  "notify_waiters t = (if ct_main t = MainWaiting then t\<lparr>ct_woken := True\<rparr> else t)"

text \<open>A message of another task; once the endpoint is closed its write fails.\<close>

definition put_wire :: "client_task \<Rightarrow> client_msg \<Rightarrow> 'v client_tasks \<Rightarrow> 'v client_tasks" where
  "put_wire who m t =
     (if cs_closed (ct_sess t) then t else t\<lparr>ct_wire := ct_wire t @ [(who, m)]\<rparr>)"

text \<open>An action of \<open>run_session\<close> itself: what it sends is on the wire, and \<open>next\<close> gives its phase.\<close>

definition run_main ::
  "unit sess_act \<Rightarrow> (cli_error + unit \<Rightarrow> main_phase) \<Rightarrow> 'v client_tasks \<Rightarrow> 'v client_tasks" where
  "run_main act next t =
     (case act (ct_sess t) of
        (r, s) \<Rightarrow>
          t\<lparr>ct_sess := s, ct_main := next r,
            ct_wire := ct_wire t @ map (Pair MainTask) (drop (length (cs_sent (ct_sess t))) (cs_sent s))\<rparr>)"

definition stream_closed_end :: "'v sess_env \<Rightarrow> uuid \<Rightarrow> unit sess_act" where
  "stream_closed_end env sid =
     act_then (try_send env (CClose sid)) (\<lambda>_.
     act_then (log_event ''close_sent'') (\<lambda>_.
     act_then (log_event ''close_received'') (\<lambda>_.
     act_then (drop_entry env sid) (\<lambda>_.
     act_then close_endpoint (\<lambda>_. act_fail CliClosed)))))"

text \<open>The arm of the \<open>select!\<close> for a signal, up to the next wait.\<close>

fun on_signal :: "'v sess_env \<Rightarrow> uuid \<Rightarrow> 'v control_signal \<Rightarrow> 'v client_tasks \<Rightarrow> 'v client_tasks" where
  "on_signal env sid SigClose t =
     run_main (act_then (log_event ''close_received'') (\<lambda>_. drop_entry env sid))
       (\<lambda>_. MainLeaving False False) t"
| "on_signal env sid (SigError v) t =
     run_main (act_then close_endpoint (\<lambda>_.
         act_fail (CliProtocol (''control error: '' @ js_display (ev_json env) v)))) MainDone t"
| "on_signal env sid SigDisconnected t = t\<lparr>ct_main := MainLeaving False (\<not> ct_flag t)\<rparr>"
| "on_signal env sid SigStreamClosed t = t\<lparr>ct_main := MainEnding\<rparr>"

fun bridge_signal_of :: "bridge_signal \<Rightarrow> 'v control_signal" where
  "bridge_signal_of BridgeStreamClosed = SigStreamClosed"
| "bridge_signal_of BridgeDisconnected = SigDisconnected"

fun task_step :: "'v sess_env \<Rightarrow> uuid \<Rightarrow> 'v client_tasks \<Rightarrow> task_event \<Rightarrow> 'v client_tasks" where
  "task_step env sid t CeIpcRequest =
     (if ct_ipc t = IpcListening then t\<lparr>ct_flag := True, ct_ipc := IpcRequested\<rparr> else t)"
| "task_step env sid t (CeIpcSent ok) =
     (if ct_ipc t = IpcRequested
      then if ok \<and> \<not> cs_closed (ct_sess t) then (put_wire IpcTask CDetach t)\<lparr>ct_ipc := IpcSent\<rparr>
           else t\<lparr>ct_flag := False, ct_ipc := IpcListening\<rparr>
      else t)"
| "task_step env sid t CeIpcNotify =
     (if ct_ipc t = IpcSent then (notify_waiters t)\<lparr>ct_ipc := IpcFinished\<rparr> else t)"
| "task_step env sid t CeHotkey =
     (if ct_input t then (notify_waiters t)\<lparr>ct_input := False\<rparr> else t)"
| "task_step env sid t CeInputEnd = t\<lparr>ct_input := False\<rparr>"
| "task_step env sid t (CeOutputEnd sig) =
     (if ct_output t
      then t\<lparr>ct_output := False, ct_signals := ct_signals t @ [bridge_signal_of sig]\<rparr> else t)"
| "task_step env sid t (CeWatchEnd stream) =
     (if ct_watch t
      then case control_watch_loop (ev_json env) (ev_read_err env) stream of
             None \<Rightarrow> t\<lparr>ct_watch := False\<rparr>
           | Some sig \<Rightarrow> t\<lparr>ct_watch := False, ct_signals := ct_signals t @ [sig]\<rparr>
      else t)"
| "task_step env sid t (CeResize rows cols) =
     (if ct_main t = MainOpening then t else put_wire WindowTask (CResize rows cols) t)"
| "task_step env sid t (CePing nonce) =
     (if ct_main t = MainOpening then t else put_wire KeepaliveTask (CPing nonce) t)"
| "task_step env sid t CeOpened =
     (if ct_main t = MainOpening
      then case open_streams env (ct_sess t) of
             (Inl e, s) \<Rightarrow> t\<lparr>ct_main := MainDone (Inl e), ct_sess := s\<rparr>
           | (Inr _, s) \<Rightarrow> t\<lparr>ct_main := MainSpawned, ct_sess := s, ct_input := True, ct_output := True,
                ct_watch := True\<rparr>
      else t)"
| "task_step env sid t CeSelect =
     (if ct_main t = MainSpawned then t\<lparr>ct_main := MainWaiting\<rparr> else t)"
| "task_step env sid t CeNotified =
     (if ct_main t = MainWaiting \<and> ct_woken t then t\<lparr>ct_main := MainLeaving (\<not> ct_flag t) False\<rparr> else t)"
| "task_step env sid t CeSignal =
     (if ct_main t = MainWaiting
      then case ct_signals t of
             [] \<Rightarrow> t
           | sig # rest \<Rightarrow> on_signal env sid sig (t\<lparr>ct_signals := rest\<rparr>)
      else t)"
| "task_step env sid t CeLeave =
     (case ct_main t of
        MainLeaving send_detach disconnected \<Rightarrow>
          run_main (leave env send_detach)
            (\<lambda>r. case r of
               Inl e \<Rightarrow> MainDone (Inl e)
             | Inr _ \<Rightarrow> if disconnected then MainChecking else MainDone (Inr ())) t
      | _ \<Rightarrow> t)"
| "task_step env sid t CeCheck =
     (if ct_main t = MainChecking
      then t\<lparr>ct_main := MainDone (if ct_flag t then Inr () else Inl (CliDisconnected sid))\<rparr> else t)"
| "task_step env sid t CeEnd =
     (if ct_main t = MainEnding then run_main (stream_closed_end env sid) MainDone t else t)"

inductive tasks_reachable :: "'v sess_env \<Rightarrow> uuid \<Rightarrow> client_sess \<Rightarrow> 'v client_tasks \<Rightarrow> bool"
  for env :: "'v sess_env" and sid :: uuid and s0 :: client_sess where
  start: "tasks_reachable env sid s0 (tasks_start s0)"
| step: "tasks_reachable env sid s0 t \<Longrightarrow> tasks_reachable env sid s0 (task_step env sid t ev)"

lemma tasks_reachable_run:
  "tasks_reachable env sid s0 t \<Longrightarrow> tasks_reachable env sid s0 (foldl (task_step env sid) t evs)"
  by (induction evs arbitrary: t) (auto intro: tasks_reachable.step)

section \<open>What each phase has done\<close>

text \<open>Setting the event of the environment changes none of the actions.\<close>

lemma send_json_event [simp]: "send_json (env\<lparr>ev_event := ev\<rparr>) = send_json env"
  by (intro ext) (simp add: send_json_def cong: sum.case_cong)

lemma env_event [simp]:
  "drop_entry (env\<lparr>ev_event := ev\<rparr>) = drop_entry env" "try_send (env\<lparr>ev_event := ev\<rparr>) = try_send env"
  "leave (env\<lparr>ev_event := ev\<rparr>) = leave env" "open_streams (env\<lparr>ev_event := ev\<rparr>) = open_streams env"
  by (intro ext; simp add: drop_entry_def try_send_def leave_def open_streams_def)+

definition outcome ::
  "'v sess_env \<Rightarrow> uuid \<Rightarrow> client_sess \<Rightarrow> 'v session_event \<Rightarrow> (cli_error + unit) \<times> client_sess" where
  "outcome env sid s0 ev = act_then (open_streams env) (\<lambda>_. end_session (env\<lparr>ev_event := ev\<rparr>) sid) s0"

definition cleared :: "'v sess_env \<Rightarrow> uuid \<Rightarrow> client_sess \<Rightarrow> client_sess" where
  "cleared env sid s0 = snd (act_then (log_event ''close_received'') (\<lambda>_. drop_entry env sid) s0)"

lemma open_streams_keeps: "open_streams env s = (r, s') \<Longrightarrow> s' = s"
  by (auto simp: open_streams_def act_then_def act_lift_def split: prod.splits sum.splits)

lemma leave_keeps_sent:
  "leave env b s = (r, s') \<Longrightarrow> cs_sent s' = cs_sent s \<or> b \<and> cs_sent s' = cs_sent s @ [CDetach]"
  by (cases "send_json env CDetach (s\<lparr>cs_log := cs_log s @ [''detach_sent'']\<rparr>)")
    (auto simp: leave_def act_then_def split: if_splits sum.splits dest: send_json_Inl send_json_Inr)

lemma cleared_sent [simp]: "cs_sent (cleared env sid s) = cs_sent s"
  by (simp add: cleared_def act_then_def)

lemma leave_False [simp]: "leave env False s = (Inr (), s\<lparr>cs_socket := False, cs_closed := True\<rparr>)"
  by (simp add: leave_def act_then_def)

lemma outcome_opened:
  "open_streams env s0 = (Inr (), s0) \<Longrightarrow>
   outcome env sid s0 ev = end_session (env\<lparr>ev_event := ev\<rparr>) sid s0"
  by (simp add: outcome_def act_then_def)

lemma end_session_arms:
  "end_session (env\<lparr>ev_event := SeDetach ipc\<rparr>) sid s = leave env (\<not> ipc) s"
  "end_session (env\<lparr>ev_event := SeSignal SigClose w\<rparr>) sid s = leave env False (cleared env sid s)"
  "end_session (env\<lparr>ev_event := SeSignal (SigError v) w\<rparr>) sid s =
     act_then close_endpoint (\<lambda>_. act_fail (CliProtocol (''control error: '' @ js_display (ev_json env) v))) s"
  "end_session (env\<lparr>ev_event := SeSignal SigDisconnected (i, j)\<rparr>) sid s =
     act_then (leave env False) (\<lambda>_. if \<not> i \<and> \<not> j then act_fail (CliDisconnected sid) else act_return ()) s"
  "end_session (env\<lparr>ev_event := SeSignal SigStreamClosed w\<rparr>) sid s = stream_closed_end env sid s"
  by (cases w; simp add: end_session_def cleared_def stream_closed_end_def act_then_def)+

text \<open>
  \<open>at_event env sid s0 None phase s\<close>: no event has reached \<open>run_session\<close> yet. With an event: the state it has
  built up is what \<open>end_session\<close> has built up for that event at the same point.
\<close>

definition at_event ::
  "'v sess_env \<Rightarrow> uuid \<Rightarrow> client_sess \<Rightarrow> 'v session_event option \<Rightarrow> main_phase \<Rightarrow> client_sess \<Rightarrow> bool" where
  "at_event env sid s0 evo phase s =
     (case evo of
        None \<Rightarrow>
          (case phase of
             MainOpening \<Rightarrow> s = s0
           | MainSpawned \<Rightarrow> s = s0 \<and> open_streams env s0 = (Inr (), s0)
           | MainWaiting \<Rightarrow> s = s0 \<and> open_streams env s0 = (Inr (), s0)
           | MainDone r \<Rightarrow> isl r \<and> open_streams env s0 = (r, s)
           | _ \<Rightarrow> False)
      | Some ev \<Rightarrow> open_streams env s0 = (Inr (), s0) \<and>
          (case phase of
             MainLeaving b d \<Rightarrow>
               (case ev of
                  SeDetach ipc \<Rightarrow> b = (\<not> ipc) \<and> \<not> d \<and> s = s0
                | SeSignal sig w \<Rightarrow>
                    (case sig of
                       SigClose \<Rightarrow> \<not> b \<and> \<not> d \<and> s = cleared env sid s0
                     | SigDisconnected \<Rightarrow> \<not> b \<and> d = (\<not> fst w) \<and> s = s0
                     | _ \<Rightarrow> False))
           | MainChecking \<Rightarrow> (\<exists>j. ev = SeSignal SigDisconnected (False, j)) \<and> leave env False s0 = (Inr (), s)
           | MainEnding \<Rightarrow> (\<exists>w. ev = SeSignal SigStreamClosed w) \<and> s = s0
           | MainDone r \<Rightarrow> end_session (env\<lparr>ev_event := ev\<rparr>) sid s0 = (r, s)
           | _ \<Rightarrow> False))"

abbreviation tasks_at :: "'v sess_env \<Rightarrow> uuid \<Rightarrow> client_sess \<Rightarrow> 'v session_event option \<Rightarrow> 'v client_tasks \<Rightarrow> bool" where
  "tasks_at env sid s0 evo t \<equiv> at_event env sid s0 evo (ct_main t) (ct_sess t)"

lemma at_leave:
  assumes "at_event env sid s0 (Some ev) (MainLeaving b d) s" and "leave env b s = (r, s')"
  shows "at_event env sid s0 (Some ev)
    (case r of Inl e \<Rightarrow> MainDone (Inl e) | Inr _ \<Rightarrow> if d then MainChecking else MainDone (Inr ())) s'"
proof (cases ev)
  case (SeDetach ipc)
  then show ?thesis using assms by (cases r) (auto simp: at_event_def end_session_arms)
next
  case (SeSignal sig w)
  show ?thesis
  proof (cases sig)
    case SigClose
    then show ?thesis using assms SeSignal by (auto simp: at_event_def end_session_arms)
  next
    case SigDisconnected
    then show ?thesis using assms SeSignal
      by (cases w) (auto simp: at_event_def end_session_arms act_then_def)
  qed (use assms SeSignal in \<open>auto simp: at_event_def\<close>)
qed

lemma at_signal:
  assumes "at_event env sid s0 None MainWaiting (ct_sess t)" and "i = ct_flag t"
  shows "tasks_at env sid s0 (Some (SeSignal sig (i, j))) (on_signal env sid sig t)"
  using assms
  by (cases sig) (auto simp: at_event_def run_main_def cleared_def end_session_arms act_then_def
      split: prod.split)

lemma leaving_detach: "at_event env sid s0 evo (MainLeaving True d) s \<Longrightarrow> \<not> d"
  by (simp add: at_event_def split: option.splits session_event.splits control_signal.splits)

text \<open>A step after the event; the flag that the last check reads is the second one of the event.\<close>

lemma at_event_step:
  assumes "tasks_at env sid s0 (Some ev) t"
    and "e = CeCheck \<Longrightarrow> ct_main t = MainChecking \<Longrightarrow> ev = SeSignal SigDisconnected (False, ct_flag t)"
  shows "tasks_at env sid s0 (Some ev) (task_step env sid t e)"
proof (cases e)
  case CeLeave
  show ?thesis
  proof (cases "ct_main t")
    case (MainLeaving b d)
    obtain r s' where l: "leave env b (ct_sess t) = (r, s')" by fastforce
    from at_leave [OF assms(1) [unfolded MainLeaving] l] show ?thesis
      using CeLeave MainLeaving l by (simp add: run_main_def)
  qed (use CeLeave assms in simp_all)
next
  case CeCheck
  show ?thesis
  proof (cases "ct_main t = MainChecking")
    case True
    then show ?thesis using assms CeCheck by (auto simp: at_event_def end_session_arms act_then_def)
  qed (use CeCheck assms in simp)
next
  case CeEnd
  show ?thesis
  proof (cases "ct_main t = MainEnding")
    case True
    then obtain w where "ev = SeSignal SigStreamClosed w" "ct_sess t = s0" using assms(1)
      by (auto simp: at_event_def)
    then show ?thesis using assms(1) True CeEnd
      by (cases "stream_closed_end env sid s0") (simp add: at_event_def run_main_def end_session_arms)
  qed (use CeEnd assms in simp)
next
  case CeOpened
  then show ?thesis using assms(1) by (cases "ct_main t") (auto simp: at_event_def)
next
  case CeSelect
  then show ?thesis using assms(1) by (cases "ct_main t") (auto simp: at_event_def)
next
  case CeNotified
  then show ?thesis using assms(1) by (cases "ct_main t") (auto simp: at_event_def)
next
  case CeSignal
  then show ?thesis using assms(1) by (cases "ct_main t") (auto simp: at_event_def)
qed (use assms(1) in \<open>auto simp: notify_waiters_def put_wire_def split: option.split\<close>)

section \<open>The event that ends a session\<close>

text \<open>
  What happened, read off a run without \<open>run_session\<close>: a signal is raised when the output or the watch of the
  control stream ends, and a detachment is asked for over the socket from the request on, unless its message
  could not be sent.
\<close>

fun signals_raised :: "'v sess_env \<Rightarrow> 'v client_tasks \<Rightarrow> task_event \<Rightarrow> 'v control_signal list" where
  "signals_raised env t (CeOutputEnd sig) =
     (if ct_output t
      then [case sig of BridgeStreamClosed \<Rightarrow> SigStreamClosed | BridgeDisconnected \<Rightarrow> SigDisconnected] else [])"
| "signals_raised env t (CeWatchEnd stream) =
     (if ct_watch t
      then (case control_watch_loop (ev_json env) (ev_read_err env) stream of None \<Rightarrow> [] | Some sig \<Rightarrow> [sig])
      else [])"
| "signals_raised env t ev = []"

definition detach_asked :: "'v client_tasks \<Rightarrow> bool" where
  "detach_asked t \<longleftrightarrow> ct_ipc t \<noteq> IpcListening"

text \<open>Whether it was asked for when \<open>run_session\<close> looks for the last time, after the connection was lost.\<close>

fun last_asked :: "'v sess_env \<Rightarrow> uuid \<Rightarrow> 'v client_tasks \<Rightarrow> task_event list \<Rightarrow> bool" where
  "last_asked env sid t [] = False"
| "last_asked env sid t (e # es) =
     (if e = CeCheck \<and> ct_main t = MainChecking then detach_asked t else last_asked env sid (task_step env sid t e) es)"

text \<open>
  What a step gives \<open>run_session\<close> while it waits: a notification that has woken it, or the signal that was
  raised first; \<open>q\<close> are the signals raised so far, and \<open>later\<close> is the answer of the last look.
\<close>

definition event_taken :: "'v control_signal list \<Rightarrow> 'v client_tasks \<Rightarrow> task_event \<Rightarrow> bool \<Rightarrow> 'v session_event option" where
  "event_taken q t e later =
     (if ct_main t = MainWaiting \<and> e = CeNotified \<and> ct_woken t then Some (SeDetach (detach_asked t))
      else if ct_main t = MainWaiting \<and> e = CeSignal \<and> q \<noteq> [] then Some (SeSignal (hd q) (detach_asked t, later))
      else None)"

fun first_event ::
  "'v sess_env \<Rightarrow> uuid \<Rightarrow> 'v control_signal list \<Rightarrow> 'v client_tasks \<Rightarrow> task_event list \<Rightarrow> 'v session_event option" where
  "first_event env sid q t [] = None"
| "first_event env sid q t (e # es) =
     (case event_taken q t e (last_asked env sid (task_step env sid t e) es) of
        Some ev \<Rightarrow> Some ev
      | None \<Rightarrow> first_event env sid (q @ signals_raised env t e) (task_step env sid t e) es)"

lemma before_event_step:
  assumes "tasks_at env sid s0 None t" and "detach_asked t = ct_flag t"
  shows "tasks_at env sid s0 (event_taken (ct_signals t) t e later) (task_step env sid t e)"
proof (cases e)
  case CeOpened
  show ?thesis
  proof (cases "ct_main t = MainOpening")
    case True
    obtain r s' where o: "open_streams env s0 = (r, s')" by fastforce
    note k = open_streams_keeps [OF o]
    show ?thesis using CeOpened True assms(1) o k
      by (cases r) (auto simp: event_taken_def at_event_def)
  qed (use CeOpened assms in \<open>simp add: event_taken_def\<close>)
next
  case CeSignal
  show ?thesis
  proof (cases "ct_main t = MainWaiting \<and> ct_signals t \<noteq> []")
    case True
    then obtain sig rest where q: "ct_signals t = sig # rest" by (cases "ct_signals t") auto
    have "tasks_at env sid s0 (Some (SeSignal sig (detach_asked t, later))) (on_signal env sid sig (t\<lparr>ct_signals := rest\<rparr>))"
      by (rule at_signal) (use assms True in simp_all)
    then show ?thesis using CeSignal True q by (simp add: event_taken_def)
  qed (use CeSignal assms in \<open>auto simp: event_taken_def split: list.split\<close>)
next
  case CeNotified
  then show ?thesis using assms by (auto simp: event_taken_def at_event_def)
next
  case CeLeave
  then show ?thesis using assms(1) by (cases "ct_main t") (auto simp: event_taken_def at_event_def)
next
  case CeCheck
  then show ?thesis using assms(1) by (cases "ct_main t") (auto simp: event_taken_def at_event_def)
next
  case CeEnd
  then show ?thesis using assms(1) by (cases "ct_main t") (auto simp: event_taken_def at_event_def)
next
  case CeSelect
  then show ?thesis using assms(1) by (auto simp: event_taken_def at_event_def)
qed (use assms(1) in \<open>auto simp: event_taken_def notify_waiters_def put_wire_def split: option.split\<close>)

definition phase_ok :: "'v sess_env \<Rightarrow> uuid \<Rightarrow> client_sess \<Rightarrow> 'v client_tasks \<Rightarrow> bool" where
  "phase_ok env sid s0 t \<longleftrightarrow> (\<exists>evo. tasks_at env sid s0 evo t)"

section \<open>What each task has sent\<close>

definition sent_by :: "client_task \<Rightarrow> 'v client_tasks \<Rightarrow> client_msg list" where
  "sent_by who t = map snd (filter (\<lambda>(w, m). w = who) (ct_wire t))"

lemma sent_by_main [simp]:
  "sent_by who (t\<lparr>ct_sess := s, ct_main := p, ct_wire := ct_wire t @ map (Pair MainTask) ms\<rparr>) =
     sent_by who t @ (if who = MainTask then ms else [])"
  by (auto simp: sent_by_def filter_map o_def)

lemma sent_by_other [simp]:
  "sent_by who (put_wire w m t) = (if w = who \<and> \<not> cs_closed (ct_sess t) then sent_by who t @ [m] else sent_by who t)"
  "sent_by who (t\<lparr>ct_main := p\<rparr>) = sent_by who t" "sent_by who (t\<lparr>ct_ipc := i\<rparr>) = sent_by who t"
  "sent_by who (t\<lparr>ct_flag := b\<rparr>) = sent_by who t" "sent_by who (t\<lparr>ct_sess := s\<rparr>) = sent_by who t"
  "sent_by who (t\<lparr>ct_woken := b\<rparr>) = sent_by who t" "sent_by who (t\<lparr>ct_signals := q\<rparr>) = sent_by who t"
  "sent_by who (t\<lparr>ct_input := b\<rparr>) = sent_by who t" "sent_by who (t\<lparr>ct_output := b\<rparr>) = sent_by who t"
  "sent_by who (t\<lparr>ct_watch := b\<rparr>) = sent_by who t"
  by (simp_all add: sent_by_def put_wire_def)

lemma notify_keeps [simp]:
  "ct_main (notify_waiters t) = ct_main t" "ct_sess (notify_waiters t) = ct_sess t"
  "ct_flag (notify_waiters t) = ct_flag t" "ct_ipc (notify_waiters t) = ct_ipc t"
  "ct_wire (notify_waiters t) = ct_wire t" "ct_signals (notify_waiters t) = ct_signals t"
  "sent_by who (notify_waiters t) = sent_by who t" "ct_input (notify_waiters t) = ct_input t"
  by (simp_all add: notify_waiters_def)

lemma put_wire_keeps [simp]:
  "ct_main (put_wire w m t) = ct_main t" "ct_sess (put_wire w m t) = ct_sess t"
  "ct_flag (put_wire w m t) = ct_flag t" "ct_ipc (put_wire w m t) = ct_ipc t"
  "ct_signals (put_wire w m t) = ct_signals t"
  by (simp_all add: put_wire_def)

text \<open>What an action of the session's own appends to its messages is what goes on the wire.\<close>

lemma run_main_fields [simp]:
  "ct_flag (run_main act nxt t) = ct_flag t" "ct_ipc (run_main act nxt t) = ct_ipc t"
  "ct_main (run_main act nxt t) = nxt (fst (act (ct_sess t)))"
  "ct_sess (run_main act nxt t) = snd (act (ct_sess t))"
  "sent_by who (run_main act nxt t) = sent_by who t @
     (if who = MainTask then drop (length (cs_sent (ct_sess t))) (cs_sent (snd (act (ct_sess t)))) else [])"
  by (simp_all add: run_main_def split: prod.split)

lemma stream_closed_sent:
  "cs_sent (snd (stream_closed_end env sid s)) = cs_sent s \<or>
   cs_sent (snd (stream_closed_end env sid s)) = cs_sent s @ [CClose sid]"
  using send_json_state [of env "CClose sid" s] by (auto simp: stream_closed_end_def act_then_def)

definition parting :: "main_phase \<Rightarrow> uuid \<Rightarrow> client_msg list set" where
  "parting p sid = (case p of MainDone r \<Rightarrow> {[], [CDetach], [CClose sid]} | _ \<Rightarrow> {[]})"

definition wire_ok :: "uuid \<Rightarrow> client_sess \<Rightarrow> 'v client_tasks \<Rightarrow> bool" where
  "wire_ok sid s0 t \<longleftrightarrow>
     cs_sent (ct_sess t) = cs_sent s0 @ sent_by MainTask t \<and>
     sent_by MainTask t \<in> parting (ct_main t) sid \<and>
     sent_by IpcTask t = (if ct_ipc t \<in> {IpcSent, IpcFinished} then [CDetach] else []) \<and>
     (ct_flag t \<longleftrightarrow> ct_ipc t \<noteq> IpcListening)"

lemma parting_simps [simp]:
  "parting MainOpening sid = {[]}" "parting MainSpawned sid = {[]}" "parting MainWaiting sid = {[]}"
  "parting (MainLeaving b d) sid = {[]}" "parting MainChecking sid = {[]}" "parting MainEnding sid = {[]}"
  "parting (MainDone r) sid = {[], [CDetach], [CClose sid]}"
  by (simp_all add: parting_def)

lemma wire_ok_signal:
  assumes "wire_ok sid s0 t" and "ct_main t = MainWaiting"
  shows "wire_ok sid s0 (on_signal env sid sig (t\<lparr>ct_signals := rest\<rparr>))"
  using assms by (cases sig) (auto simp: wire_ok_def act_then_def)

lemma wire_ok_leave:
  assumes "wire_ok sid s0 t" and "ct_main t = MainLeaving b d" and "phase_ok env sid s0 t"
  shows "wire_ok sid s0 (task_step env sid t CeLeave)"
proof -
  obtain r s' where l: "leave env b (ct_sess t) = (r, s')" by fastforce
  show ?thesis
  proof (cases b)
    case True
    with assms(2,3) obtain evo where "at_event env sid s0 evo (MainLeaving True d) (ct_sess t)"
      by (auto simp: phase_ok_def)
    then have "\<not> d" by (rule leaving_detach)
    with True leave_keeps_sent [OF l] l assms(1,2) show ?thesis
      by (cases r) (auto simp: wire_ok_def)
  qed (use assms(1,2) in \<open>auto simp: wire_ok_def\<close>)
qed

lemma wire_ok_end:
  assumes "wire_ok sid s0 t" and "ct_main t = MainEnding"
  shows "wire_ok sid s0 (task_step env sid t CeEnd)"
  using assms stream_closed_sent [of env sid "ct_sess t"] by (auto simp: wire_ok_def)

lemma wire_ok_step:
  assumes "wire_ok sid s0 t" and "phase_ok env sid s0 t"
  shows "wire_ok sid s0 (task_step env sid t ev)"
proof (cases ev)
  case CeOpened
  then show ?thesis using assms(1) open_streams_keeps [of env "ct_sess t"]
    by (auto simp: wire_ok_def split: prod.split sum.split)
next
  case CeSignal
  then show ?thesis using assms(1) wire_ok_signal by (auto split: list.split)
next
  case CeLeave
  show ?thesis
  proof (cases "ct_main t")
    case (MainLeaving b d)
    show ?thesis unfolding CeLeave by (rule wire_ok_leave [OF assms(1) MainLeaving assms(2)])
  qed (use CeLeave assms(1) in simp_all)
next
  case CeEnd
  then show ?thesis using assms(1) wire_ok_end [of sid s0 t env] by auto
qed (use assms(1) in \<open>auto simp: wire_ok_def split: option.split\<close>)

text \<open>Both invariants together: the flag says whether a detachment was asked for.\<close>

lemma flag_asked: "wire_ok sid s0 t \<Longrightarrow> detach_asked t = ct_flag t"
  by (simp add: wire_ok_def detach_asked_def)

lemma phase_ok_step:
  assumes "phase_ok env sid s0 t" and "wire_ok sid s0 t"
  shows "phase_ok env sid s0 (task_step env sid t e)"
proof -
  obtain evo where at: "tasks_at env sid s0 evo t" using assms(1) by (auto simp: phase_ok_def)
  show ?thesis
  proof (cases evo)
    case None
    then show ?thesis using before_event_step [OF at [unfolded None] flag_asked [OF assms(2)]]
      by (auto simp: phase_ok_def)
  next
    case (Some ev)
    show ?thesis
    proof (cases "e = CeCheck \<and> ct_main t = MainChecking")
      case True
      with at Some have c: "tasks_at env sid s0 (Some (SeSignal SigDisconnected (False, ct_flag t))) t"
        by (auto simp: at_event_def)
      show ?thesis using at_event_step [OF c] by (auto simp: phase_ok_def)
    next
      case False
      then show ?thesis using at_event_step [of env sid s0 ev t e] at Some by (auto simp: phase_ok_def)
    qed
  qed
qed

lemma tasks_reachable_ok: "tasks_reachable env sid s0 t \<Longrightarrow> wire_ok sid s0 t \<and> phase_ok env sid s0 t"
proof (induction rule: tasks_reachable.induct)
  case start
  have "tasks_at env sid s0 None (tasks_start s0)" by (simp add: at_event_def tasks_start_def)
  then show ?case by (auto simp: wire_ok_def sent_by_def tasks_start_def phase_ok_def)
next
  case (step t ev)
  then show ?case using wire_ok_step phase_ok_step by blast
qed

lemmas reachable_wire = tasks_reachable_ok [THEN conjunct1]

lemma reachable_outcome:
  assumes "tasks_reachable env sid s0 t" and "ct_main t = MainDone r"
  obtains ev where "outcome env sid s0 ev = (r, ct_sess t)"
proof -
  obtain evo where "tasks_at env sid s0 evo t" using tasks_reachable_ok [OF assms(1)] by (auto simp: phase_ok_def)
  then have "outcome env sid s0 (case evo of None \<Rightarrow> SeDetach False | Some ev \<Rightarrow> ev) = (r, ct_sess t)"
    using assms(2) by (cases evo; cases r) (auto simp: at_event_def outcome_def act_then_def)
  then show thesis by (rule that)
qed

section \<open>Every run ends as its first event says\<close>

text \<open>Up to the event, the signals waiting to be received are those that were raised.\<close>

lemma queue_step:
  assumes "tasks_at env sid s0 None t" and "event_taken (ct_signals t) t e later = None"
  shows "ct_signals (task_step env sid t e) = ct_signals t @ signals_raised env t e"
proof (cases e)
  case (CeOutputEnd sig)
  then show ?thesis by (cases sig) auto
next
  case CeLeave
  then show ?thesis using assms(1) by (cases "ct_main t") (auto simp: at_event_def)
next
  case CeEnd
  then show ?thesis using assms(1) by (cases "ct_main t") (auto simp: at_event_def)
qed (use assms in \<open>auto simp: event_taken_def split: prod.split sum.split option.split list.split if_splits\<close>)

lemma done_stays: "ct_main t = MainDone r \<Longrightarrow> ct_main (task_step env sid t e) = MainDone r"
  by (cases e) (auto split: option.split)

lemma after_event_run:
  assumes "tasks_reachable env sid s0 t" and "tasks_at env sid s0 (Some ev) t"
    and "\<And>j. ct_main t \<notin> range MainDone \<Longrightarrow> ev = SeSignal SigDisconnected (False, j) \<Longrightarrow> j = last_asked env sid t es"
  shows "tasks_at env sid s0 (Some ev) (foldl (task_step env sid) t es)"
  using assms
proof (induction es arbitrary: t)
  case (Cons e es)
  have f: "detach_asked t = ct_flag t" using reachable_wire [OF Cons.prems(1)] by (rule flag_asked)
  have c: "ev = SeSignal SigDisconnected (False, ct_flag t)" if "e = CeCheck" "ct_main t = MainChecking"
    using Cons.prems(2,3) that f by (auto simp: at_event_def)
  have "tasks_at env sid s0 (Some ev) (task_step env sid t e)" by (rule at_event_step [OF Cons.prems(2) c])
  moreover have "j = last_asked env sid (task_step env sid t e) es"
    if "ct_main (task_step env sid t e) \<notin> range MainDone" "ev = SeSignal SigDisconnected (False, j)" for j
  proof -
    have "ct_main t \<notin> range MainDone" using that(1) done_stays by blast
    from Cons.prems(3) [OF this that(2)] have "j = last_asked env sid t (e # es)" .
    moreover have "\<not> (e = CeCheck \<and> ct_main t = MainChecking)" using that(1) by auto
    ultimately show ?thesis by (simp only: last_asked.simps if_False)
  qed
  ultimately show ?case using Cons.IH [OF tasks_reachable.step [OF Cons.prems(1)]] by simp
qed simp

lemma taken_later:
  "event_taken q t e later = Some (SeSignal sig (i, j)) \<Longrightarrow> j = later"
  by (simp add: event_taken_def split: if_splits)

lemma run_at_first_event:
  assumes "tasks_reachable env sid s0 t" and "tasks_at env sid s0 None t"
  shows "tasks_at env sid s0 (first_event env sid (ct_signals t) t es) (foldl (task_step env sid) t es)"
  using assms
proof (induction es arbitrary: t)
  case (Cons e es)
  let ?t = "task_step env sid t e"
  let ?later = "last_asked env sid ?t es"
  have f: "detach_asked t = ct_flag t" using reachable_wire [OF Cons.prems(1)] by (rule flag_asked)
  have r: "tasks_reachable env sid s0 ?t" by (rule tasks_reachable.step [OF Cons.prems(1)])
  have at: "tasks_at env sid s0 (event_taken (ct_signals t) t e ?later) ?t"
    by (rule before_event_step [OF Cons.prems(2) f])
  show ?case
  proof (cases "event_taken (ct_signals t) t e ?later")
    case None
    then show ?thesis using Cons.IH [OF r] at queue_step [OF Cons.prems(2) None] by simp
  next
    case (Some ev)
    then show ?thesis using after_event_run [OF r, of ev es] at taken_later [of "ct_signals t" t e ?later] by simp
  qed
qed simp

text \<open>
  C11: However the tasks of an attached client interleave, the session ends as the sequential model of
  it says for the event that really came first. That event is read off the run: the notification that woke
  \<open>run_session\<close>, or the first signal that the output or the watch raised, with whether a detachment was asked
  for over the socket at that moment and at the last look after a lost connection. For it \<open>end_session\<close>
  gives the same result, files, socket, log and messages; without it the session has ended only
  because its streams could not be opened. The messages are those \<open>run_session\<close> has put on the wire among those of the
  other tasks.
\<close>

theorem client_tasks_refine_session:
  assumes "t = foldl (task_step env sid) (tasks_start s0) es" and "ct_main t = MainDone r"
  shows "(case first_event env sid [] (tasks_start s0) es of
      None \<Rightarrow> isl r \<and> open_streams env s0 = (r, ct_sess t)
    | Some ev \<Rightarrow> open_streams env s0 = (Inr (), s0) \<and> end_session (env\<lparr>ev_event := ev\<rparr>) sid s0 = (r, ct_sess t)) \<and>
    cs_sent (ct_sess t) = cs_sent s0 @ sent_by MainTask t \<and>
    sent_by MainTask t \<in> {[], [CDetach], [CClose sid]} \<and> sent_by IpcTask t \<in> {[], [CDetach]}"
proof -
  have r: "tasks_reachable env sid s0 t" unfolding assms(1)
    by (rule tasks_reachable_run, rule tasks_reachable.start)
  have "tasks_at env sid s0 (first_event env sid (ct_signals (tasks_start s0 :: 'a client_tasks)) (tasks_start s0) es) t"
    unfolding assms(1)
    by (rule run_at_first_event [OF tasks_reachable.start]) (simp add: at_event_def tasks_start_def)
  then have "tasks_at env sid s0 (first_event env sid [] (tasks_start s0) es) t" by (simp add: tasks_start_def)
  with assms(2) reachable_wire [OF r] show ?thesis
    by (auto simp: at_event_def wire_ok_def split: option.splits)
qed

section \<open>A detachment over the socket\<close>

lemma ipc_sent_step:
  "ct_ipc t \<in> {IpcSent, IpcFinished} \<Longrightarrow> ct_ipc (task_step env sid t ev) \<in> {IpcSent, IpcFinished}"
proof (cases ev)
  case CeSignal
  assume "ct_ipc t \<in> {IpcSent, IpcFinished}"
  then show ?thesis using CeSignal by (cases "ct_signals t"; cases "hd (ct_signals t)") auto
qed (auto split: prod.split sum.split option.split main_phase.split)

lemma ipc_sent_run:
  "ct_ipc t \<in> {IpcSent, IpcFinished} \<Longrightarrow> ct_ipc (foldl (task_step env sid) t evs) \<in> {IpcSent, IpcFinished}"
  by (induction evs arbitrary: t) (simp, simp only: foldl_Cons ipc_sent_step)

lemma leave_error: "leave env b s = (Inl e, s') \<Longrightarrow> \<exists>m. e = CliProtocol m"
  by (cases b) (auto simp: leave_def act_then_Inl act_then_Inr dest: send_json_Inl)

lemma stream_closed_result: "fst (stream_closed_end env sid s) = Inl CliClosed"
  by (simp add: stream_closed_end_def act_then_def)

lemma not_lost_step:
  assumes "ct_flag t" and "ct_main t \<noteq> MainDone (Inl (CliDisconnected sid))"
  shows "ct_main (task_step env sid t ev) \<noteq> MainDone (Inl (CliDisconnected sid))"
proof (cases ev)
  case CeOpened
  then show ?thesis using assms(2)
    by (auto simp: open_streams_def act_then_def act_lift_def split: prod.splits sum.splits)
next
  case CeSignal
  then show ?thesis using assms(2)
    by (cases "ct_signals t"; cases "hd (ct_signals t)") (auto simp: act_then_def)
next
  case CeLeave
  then show ?thesis using assms(2)
    by (auto split: main_phase.split sum.split dest: leave_error simp: prod_eq_iff)
      (metis leave_error prod.collapse cli_error.distinct)+
next
  case CeEnd
  then show ?thesis using assms(2) by (simp add: stream_closed_result)
qed (use assms in \<open>auto split: option.split\<close>)

text \<open>
  C12: Once the control socket has passed a detachment on to the server, the client never takes the loss
  of the connection for a failure: whichever of the notification, the end of the output or another signal
  reaches the session first, it does not end as disconnected, so it does not resume the session it was
  told to leave.
\<close>

theorem no_resume_after_detach:
  assumes "tasks_reachable env sid s0 t" and "ct_ipc t \<in> {IpcSent, IpcFinished}"
    and "ct_main t \<noteq> MainDone (Inl (CliDisconnected sid))"
  shows "ct_main (foldl (task_step env sid) t evs) \<noteq> MainDone (Inl (CliDisconnected sid)) \<and>
    sent_by IpcTask (foldl (task_step env sid) t evs) = [CDetach]"
  using assms
proof (induction evs arbitrary: t)
  case Nil
  then show ?case using reachable_wire [OF Nil.prems(1)] by (auto simp: wire_ok_def)
next
  case (Cons ev evs)
  have "ct_flag t" using reachable_wire [OF Cons.prems(1)] Cons.prems(2) by (auto simp: wire_ok_def)
  from Cons.IH [OF tasks_reachable.step [OF Cons.prems(1)] ipc_sent_step [OF Cons.prems(2)]
      not_lost_step [OF this Cons.prems(3)]]
  show ?case by simp
qed

section \<open>A hotkey that comes too early\<close>

text \<open>Events other than a request on the socket, the end of the output and a message of the server.\<close>

fun uneventful :: "task_event \<Rightarrow> bool" where
  "uneventful CeIpcRequest = False"
| "uneventful (CeOutputEnd sig) = False"
| "uneventful (CeWatchEnd stream) = False"
| "uneventful ev = True"

definition deaf :: "'v client_tasks \<Rightarrow> bool" where
  "deaf t \<longleftrightarrow> ct_main t \<in> {MainSpawned, MainWaiting} \<and> \<not> ct_woken t \<and> \<not> ct_input t \<and>
     ct_signals t = [] \<and> ct_ipc t = IpcListening"

lemma deaf_step: "deaf t \<Longrightarrow> uneventful ev \<Longrightarrow> deaf (task_step env sid t ev)"
  by (cases ev) (auto simp: deaf_def put_wire_def)

lemma deaf_run: "deaf t \<Longrightarrow> \<forall>ev\<in>set evs. uneventful ev \<Longrightarrow> deaf (foldl (task_step env sid) t evs)"
  by (induction evs arbitrary: t) (simp_all add: deaf_step)

text \<open>
  C20: The detach hotkey is lost when it is pressed between the start of the bridge and the wait of
  \<open>run_session\<close>: the notification finds nobody waiting and the task that read the key has ended, so from
  then on, until the server or the control socket speaks, the client sends no \<open>DETACH\<close>, does not end, and
  reads no input, the hotkey included.
\<close>

theorem early_hotkey_lost:
  assumes "tasks_reachable env sid s0 t" and "ct_main t = MainSpawned"
    and "ct_signals t = []" and "ct_ipc t = IpcListening" and "\<not> ct_woken t"
    and "\<forall>ev\<in>set evs. uneventful ev"
  shows "let t' = foldl (task_step env sid) (task_step env sid t CeHotkey) evs
    in ct_main t' \<in> {MainSpawned, MainWaiting} \<and> sent_by MainTask t' = [] \<and> sent_by IpcTask t' = [] \<and>
       (ct_input t \<longrightarrow> \<not> ct_input t')"
proof -
  let ?t1 = "task_step env sid t CeHotkey"
  let ?t' = "foldl (task_step env sid) ?t1 evs"
  have "tasks_reachable env sid s0 ?t'"
    by (rule tasks_reachable_run, rule tasks_reachable.step, rule assms(1))
  note w = reachable_wire [OF this]
  show ?thesis
  proof (cases "ct_input t")
    case True
    then have "deaf ?t1" using assms(2-5) by (simp add: deaf_def notify_waiters_def)
    then have "deaf ?t'" using assms(6) by (rule deaf_run)
    with w show ?thesis by (auto simp: deaf_def wire_ok_def Let_def)
  next
    case False
    then have "deaf ?t1" using assms(2-5) by (simp add: deaf_def)
    then have "deaf ?t'" using assms(6) by (rule deaf_run)
    with w show ?thesis by (auto simp: deaf_def wire_ok_def Let_def)
  qed
qed

section \<open>Witnesses\<close>

definition demo_race_env :: "nat sess_env" where
  "demo_race_env = demo_env (SeDetach False)"

lemma demo_open: "open_streams demo_race_env s = (Inr (), s)"
  by (simp add: open_streams_def act_then_def demo_race_env_def demo_env_def)

lemma demo_not_closed: "\<not> cs_closed demo_sess"
  by (simp add: demo_sess_def)

definition demo_ready :: "nat client_tasks" where
  "demo_ready = foldl (task_step demo_race_env 7) (tasks_start demo_sess) [CeOpened]"

lemma demo_ready_reachable: "tasks_reachable demo_race_env 7 demo_sess demo_ready"
  unfolding demo_ready_def by (rule tasks_reachable_run, rule tasks_reachable.start)

lemma demo_ready_eq:
  "demo_ready = (tasks_start demo_sess)\<lparr>ct_main := MainSpawned, ct_input := True, ct_output := True,
     ct_watch := True\<rparr>"
  by (simp add: demo_ready_def tasks_start_def demo_open)

lemmas demo_race_simps = demo_ready_eq tasks_start_def put_wire_def notify_waiters_def demo_not_closed

theorem early_hotkey_lost_witness:
  "ct_main (foldl (task_step demo_race_env 7) (task_step demo_race_env 7 demo_ready CeHotkey)
     [CeSelect, CeHotkey, CeNotified, CePing ''1'']) \<in> {MainSpawned, MainWaiting}"
  using early_hotkey_lost [OF demo_ready_reachable, of "[CeSelect, CeHotkey, CeNotified, CePing ''1'']"]
  by (simp add: demo_ready_eq tasks_start_def Let_def del: foldl_Cons)

definition demo_detached :: "nat client_tasks" where
  "demo_detached = foldl (task_step demo_race_env 7) demo_ready [CeSelect, CeIpcRequest, CeIpcSent True]"

lemma demo_detached_reachable: "tasks_reachable demo_race_env 7 demo_sess demo_detached"
  unfolding demo_detached_def by (rule tasks_reachable_run, rule demo_ready_reachable)

lemma demo_detached_facts: "ct_ipc demo_detached = IpcSent" "ct_main demo_detached = MainWaiting"
  by (simp_all add: demo_detached_def demo_race_simps)

theorem no_resume_after_detach_witness:
  "let t = foldl (task_step demo_race_env 7) demo_detached
       [CeOutputEnd BridgeDisconnected, CeSignal, CeLeave, CeCheck]
   in ct_main t = MainDone (Inr ()) \<and> ct_main t \<noteq> MainDone (Inl (CliDisconnected 7)) \<and>
      sent_by IpcTask t = [CDetach]"
proof -
  let ?evs = "[CeOutputEnd BridgeDisconnected, CeSignal, CeLeave, CeCheck]"
  have "ct_main (foldl (task_step demo_race_env 7) demo_detached ?evs) = MainDone (Inr ())"
    by (simp add: demo_detached_def demo_race_simps)
  then show ?thesis
    using no_resume_after_detach [OF demo_detached_reachable, of ?evs] by (simp add: demo_detached_facts Let_def)
qed

text \<open>
  The socket is asked only after the hotkey has woken the session and been taken: the client itself detaches.
\<close>

theorem client_tasks_refine_session_witness:
  "let t = foldl (task_step demo_race_env 7) (tasks_start demo_sess)
       [CeOpened, CeSelect, CeHotkey, CePing ''1'', CeNotified, CeIpcRequest, CeLeave]
   in ct_main t = MainDone (Inr ()) \<and>
      end_session (demo_race_env\<lparr>ev_event := SeDetach False\<rparr>) 7 demo_sess = (Inr (), ct_sess t) \<and>
      cs_sent (ct_sess t) = cs_sent demo_sess @ [CDetach]"
proof -
  let ?es = "[CeOpened, CeSelect, CeHotkey, CePing ''1'', CeNotified, CeIpcRequest, CeLeave]"
  let ?t = "foldl (task_step demo_race_env 7) (tasks_start demo_sess) ?es"
  have l: "leave demo_race_env True s = (Inr (), s\<lparr>cs_log := cs_log s @ [''detach_sent''],
      cs_sent := cs_sent s @ [CDetach], cs_socket := False, cs_closed := True\<rparr>)" for s
    by (simp add: leave_def act_then_def demo_send demo_race_env_def)
  have t: "?t = foldl (task_step demo_race_env 7) demo_ready (tl ?es)" by (simp add: demo_ready_def del: task_step.simps)
  have d: "ct_main ?t = MainDone (Inr ())" and s: "cs_sent (ct_sess ?t) = cs_sent demo_sess @ [CDetach]"
    unfolding t by (simp_all add: demo_race_simps l)
  have e: "first_event demo_race_env 7 [] (tasks_start demo_sess) ?es = Some (SeDetach False)"
    by (simp add: tasks_start_def demo_open event_taken_def detach_asked_def notify_waiters_def put_wire_def demo_not_closed)
  from client_tasks_refine_session [OF refl d] d s show ?thesis unfolding Let_def e by simp
qed

end
