(* ===== verification/Terminal_Path.thy ===== *)
theory Terminal_Path
  imports Server_Loop Connection_Correct Client_Tasks "HOL-Library.Sublist"
begin

text \<open>
  The terminal's bytes from end to end: what the shell prints, through the reader thread, the
  broadcast channel and the output task of \<open>src/src/bin/neoshd.rs\<close> and the \<open>STDOUT\<close> stream, to the
  screen of \<open>src/src/bin/neosh.rs\<close>; and what is typed, through the client's filter, the \<open>STDIN\<close>
  stream and the input task, to the shell. The broadcast channel and the streams are outside the
  program: what they document is stated here and is a hypothesis of the theorems.
\<close>

section \<open>What the channel and the streams promise\<close>

text \<open>The chunks the reader thread has sent.\<close>

fun sent_chunks :: "reader_action list \<Rightarrow> bytes list" where
  "sent_chunks [] = []"
| "sent_chunks (SendChunk b # as) = b # sent_chunks as"
| "sent_chunks (MarkExited # as) = sent_chunks as"

text \<open>
  \<open>tokio::sync::broadcast\<close>: a receiver gets, in order, the chunks sent since it subscribed; one that
  has fallen behind is told how many it has lost; the channel is closed once every sender is gone,
  which is after the last chunk.
\<close>

fun broadcast_gives :: "bytes list \<Rightarrow> bool \<Rightarrow> recv_result list \<Rightarrow> bool" where
  "broadcast_gives sent gone [] = True"
| "broadcast_gives sent gone (RecvOk c # rs) =
     (case sent of [] \<Rightarrow> False | b # tail \<Rightarrow> c = b \<and> broadcast_gives tail gone rs)"
| "broadcast_gives sent gone (RecvLagged n # rs) =
     (n \<noteq> 0 \<and> unat n \<le> length sent \<and> broadcast_gives (drop (unat n) sent) gone rs)"
| "broadcast_gives sent gone (RecvClosed # rs) = (sent = [] \<and> gone \<and> broadcast_gives [] gone rs)"

text \<open>
  A \<open>quinn\<close> stream: the reader gets what was written in non-empty pieces, in order, the end only
  after all of it and only if the writer has finished the stream, and an error at any time.
\<close>

fun stream_gives :: "bytes \<Rightarrow> bool \<Rightarrow> remote_read list \<Rightarrow> bool" where
  "stream_gives content fin [] = True"
| "stream_gives content fin (RemoteData b # rs) =
     (b \<noteq> [] \<and> prefix b content \<and> stream_gives (drop (length b) content) fin rs)"
| "stream_gives content fin (RemoteEnd # rs) = (content = [] \<and> fin)"
| "stream_gives content fin (RemoteError # rs) = True"

text \<open>The chunk whose write to the stream failed; a part of it may have got through.\<close>

fun failed_chunk :: "(recv_result \<times> bool) list \<Rightarrow> bytes" where
  "failed_chunk [] = []"
| "failed_chunk ((r, write_ok) # rs) =
     (case r of
        RecvOk chunk \<Rightarrow> if chunk = [] then [] else if write_ok then failed_chunk rs else chunk
      | _ \<Rightarrow> [])"

fun lagged :: "(recv_result \<times> bool) list \<Rightarrow> bool" where
  "lagged [] = False"
| "lagged ((RecvLagged n, ok) # rs) = True"
| "lagged (r # rs) = lagged rs"

section \<open>Output\<close>

lemma sent_chunks_append [simp]: "sent_chunks (a @ b) = sent_chunks a @ sent_chunks b"
  by (induction a rule: sent_chunks.induct) auto

lemma reader_thread_sends:
  "\<exists>data. sent_chunks (reader_thread reads) =
     data @ (if MarkExited \<in> set (reader_thread reads) then [[]] else []) \<and> [] \<notin> set data"
proof (induction reads rule: reader_thread.induct)
  case (3 buf reads)
  show ?case
  proof (cases "buf = []")
    case False
    with 3 obtain data where d: "sent_chunks (reader_thread reads) =
        data @ (if MarkExited \<in> set (reader_thread reads) then [[]] else [])" "[] \<notin> set data" by blast
    then show ?thesis using False by (intro exI [of _ "buf # data"]) auto
  qed (intro exI [of _ "[]"], simp)
qed (intro exI [of _ "[]"], simp)+

text \<open>An empty chunk is the last one.\<close>

lemma reader_thread_empty_last:
  assumes "sent_chunks (reader_thread reads) = before @ [] # after"
  shows "after = [] \<and> MarkExited \<in> set (reader_thread reads)"
proof -
  obtain data where d: "sent_chunks (reader_thread reads) =
      data @ (if MarkExited \<in> set (reader_thread reads) then [[]] else [])" "[] \<notin> set data"
    using reader_thread_sends by blast
  show ?thesis
  proof (cases "MarkExited \<in> set (reader_thread reads)")
    case True
    with d assms have "data @ [[]] = before @ [] # after" by simp
    with d(2) have "after = []"
      by (cases after rule: rev_cases) (auto simp: append_eq_append_conv2 Cons_eq_append_conv)
    with True show ?thesis by simp
  next
    case False
    with d assms show ?thesis by auto
  qed
qed

text \<open>What the output task writes of what the channel gives.\<close>

lemma out_task_written:
  "out_task st rounds = (st', w, ended) \<Longrightarrow> broadcast_gives sent gone (map fst rounds) \<Longrightarrow>
   \<not> lagged rounds \<Longrightarrow>
   prefix (w @ failed_chunk rounds) (concat sent) \<and>
   (ended \<longrightarrow> failed_chunk rounds = [] \<longrightarrow> w = concat sent \<and> gone \<or>
      (\<exists>a b. sent = a @ [] # b \<and> w = concat a))"
proof (induction st rounds arbitrary: w sent rule: out_task.induct)
  case (2 st r ok rs)
  show ?case
  proof (cases r)
    case (RecvOk c)
    with 2(3) obtain tail where s: "sent = c # tail" and b: "broadcast_gives tail gone (map fst rs)"
      by (cases sent) auto
    show ?thesis
    proof (cases "c \<noteq> [] \<and> ok")
      case True
      let ?t = "append_replay st c"
      have st: "out_task_step st r ok = (?t, c, True)"
        using RecvOk True by (simp add: out_task_step_def Let_def)
      obtain v where v: "out_task ?t rs = (st', v, ended)" and w: "w = c @ v"
        using 2(2) st by (auto split: prod.splits)
      have nl: "\<not> lagged rs" using 2(4) RecvOk by simp
      have f: "failed_chunk ((r, ok) # rs) = failed_chunk rs" using RecvOk True by simp
      note ih = 2(1) [OF st [symmetric] refl TrueI v b nl]
      have "\<exists>a' b'. sent = a' @ [] # b' \<and> w = concat a'" if "tail = a @ [] # b" "v = concat a" for a b
        using that s w by (intro exI [of _ "c # a"] exI [of _ b]) simp
      then show ?thesis using ih s w f by auto
    next
      case False
      then show ?thesis using 2(2) RecvOk s
        by (auto simp: out_task_step_def Let_def split: if_splits intro: exI [of _ "[]"])
    qed
  next
    case RecvClosed
    then show ?thesis using 2(2,3) by (auto simp: out_task_step_def)
  qed (use 2(4) in simp)
qed simp

text \<open>What the client shows of the stream.\<close>

lemma stdout_task_shown:
  assumes "stdout_task outs = (shown, s)" and "stream_gives content fin (map fst outs)"
  shows "prefix shown content \<and> (s = Some BridgeStreamClosed \<longrightarrow> shown = content \<and> fin)"
  using assms
proof (induction outs arbitrary: shown content rule: stdout_task.induct)
  case (2 buf ok rs)
  show ?case
  proof (cases ok)
    case True
    with 2(2) obtain v where v: "stdout_task rs = (v, s)" "shown = buf @ v" by (auto split: prod.splits)
    from 2(3) obtain c where c: "content = buf @ c" "stream_gives c fin (map fst rs)"
      by (auto simp: prefix_def)
    from 2(1) [OF True v(1) c(2)] v(2) c(1) show ?thesis by auto
  qed (use 2 in simp)
qed auto

text \<open>
  C9: What an attached client shows is what the shell printed, from the replay on, in order and
  complete: the screen gets a prefix of the replay followed by the chunks read from the terminal
  since the connection subscribed, whatever pieces the stream cuts them into and wherever it fails;
  and when the client takes the end of the stream for the end of the shell, it has shown all of
  them and the shell has ended. The server keeps a sender, so the channel is never closed, and the
  client is assumed to keep up with the channel.
\<close>

theorem terminal_output_complete:
  assumes "reader_thread reads = earlier @ later"
    and "start_data_plane opened written st resume = Inr dp"
    and "broadcast_gives (sent_chunks later) False (map fst rounds)" and "\<not> lagged rounds"
    and "out_task st1 rounds = (st2, w, ended)"
    and "prefix part (failed_chunk rounds)"
    and "stream_gives (dp_stdout dp @ w @ part) (ended \<and> failed_chunk rounds = []) (map fst outs)"
    and "stdout_task outs = (shown, s)"
  shows "prefix shown ((if resume then srv_replay st else []) @ concat (sent_chunks later)) \<and>
    (s = Some BridgeStreamClosed \<longrightarrow>
       shown = (if resume then srv_replay st else []) @ concat (sent_chunks later) \<and>
       MarkExited \<in> set (earlier @ later))"
proof -
  note dp = start_data_plane_stdout [OF assms(2)]
  note o = out_task_written [OF assms(5,3,4)]
  have all: "prefix (dp_stdout dp @ w @ part) (dp_stdout dp @ concat (sent_chunks later))"
    using o assms(6) by (auto simp: prefix_def)
  note c = stdout_task_shown [OF assms(8,7)]
  have "shown = dp_stdout dp @ concat (sent_chunks later) \<and> MarkExited \<in> set (earlier @ later)"
    if "s = Some BridgeStreamClosed"
  proof -
    from that c have e: "ended" "failed_chunk rounds = []" and sh: "shown = dp_stdout dp @ w"
      using assms(6) by auto
    from o e obtain a b where ab: "sent_chunks later = a @ [] # b" "w = concat a" by blast
    then have "sent_chunks (reader_thread reads) = (sent_chunks earlier @ a) @ [] # b"
      using assms(1) by simp
    from reader_thread_empty_last [OF this] ab sh assms(1) show ?thesis by simp
  qed
  then show ?thesis using c all dp by (auto intro: prefix_order.trans)
qed

section \<open>A client that falls behind\<close>

lemma out_task_until_lag:
  assumes "[] \<notin> set cs"
  shows "\<exists>st'. out_task st (map (\<lambda>c. (RecvOk c, True)) cs @ (RecvLagged n, ok) # rounds) = (st', concat cs, True) \<and>
    srv_sessions st' = srv_sessions st \<and> srv_session_id st' = srv_session_id st"
  using assms
proof (induction cs arbitrary: st)
  case Nil
  then show ?case by (simp add: out_task_step_def)
next
  case (Cons c cs)
  obtain st' where "out_task (append_replay st c)
      (map (\<lambda>c. (RecvOk c, True)) cs @ (RecvLagged n, ok) # rounds) = (st', concat cs, True)"
    "srv_sessions st' = srv_sessions st" "srv_session_id st' = srv_session_id st"
    using Cons by (force simp: append_replay_alt)
  then show ?case using Cons.prems by (auto simp: out_task_step_def Let_def)
qed

text \<open>The end of the stream is what ends the task that shows it when nothing fails.\<close>

lemma stdout_task_end:
  assumes "stream_gives content True (map RemoteData pieces @ [RemoteEnd])"
  shows "stdout_task (map (\<lambda>b. (RemoteData b, True)) pieces @ [(RemoteEnd, True)]) =
    (content, Some BridgeStreamClosed)"
  using assms by (induction pieces arbitrary: content) (auto simp: prefix_def)

lemma end_session_stream_closed:
  assumes "ev_event env = SeSignal SigStreamClosed w" and "\<And>s. fst (send_json env (CClose sid) s) = Inr ()"
  shows "fst (end_session env sid s) = Inl CliClosed \<and>
    cs_sent (snd (end_session env sid s)) = cs_sent s @ [CClose sid]"
proof -
  obtain s' where s': "send_json env (CClose sid) s = (Inr (), s')"
    using assms(2) [of s] by (cases "send_json env (CClose sid) s") auto
  from send_json_Inr [OF s'] s' show ?thesis
    using assms(1) by (cases w) (simp add: end_session_def act_then_def)
qed

lemma close_terminates:
  assumes "server_wf st"
  shows "\<exists>st' s. handle_close c st = (BreakLoop, [], c, st') \<and> srv_session st' = Some s \<and>
    sess_state s = Terminated"
  using assms
  by (auto simp: handle_close_def terminate_def server_wf_unfold elim!: detached_okE)

text \<open>
  C18: A client that falls behind the output loses the session. When the channel tells the output task
  that it has lagged, the task finishes the stream as it does at the end of the shell; the client, having
  shown what it got, takes the end of the stream for the end of the shell and sends \<open>CLOSE\<close>; and the
  server terminates the session on it, although the shell runs.
\<close>

theorem lagging_client_ends_session:
  assumes "server_wf st" and "[] \<notin> set cs"
    and "out_task st (map (\<lambda>c. (RecvOk c, True)) cs @ (RecvLagged n, ok) # rounds) = (st', w, ended)"
    and "stream_gives w ended (map RemoteData pieces @ [RemoteEnd])"
    and "stdout_task (map (\<lambda>b. (RemoteData b, True)) pieces @ [(RemoteEnd, True)]) = (shown, Some sig)"
    and "ev_event env = SeSignal (bridge_signal_of sig) flags"
    and "\<And>s. fst (send_json env (CClose sid) s) = Inr ()"
  shows "shown = concat cs \<and>
    fst (end_session env sid s) = Inl CliClosed \<and>
    cs_sent (snd (end_session env sid s)) = cs_sent s @ [CClose sid] \<and>
    (\<exists>st'' sess. handle_close c st' = (BreakLoop, [], c, st'') \<and> srv_session st'' = Some sess \<and>
       sess_state sess = Terminated)"
proof -
  from out_task_until_lag [OF assms(2), of st n ok rounds] assms(3)
  have w: "w = concat cs" and e: "ended" by auto
  have sig: "shown = w \<and> sig = BridgeStreamClosed"
    using stdout_task_end assms(4,5) e by auto
  have "length (srv_replay st) \<le> srv_replay_cap st" using assms(1) by (simp add: server_wf_def)
  then have "\<exists>x. srv_replay st' = take_last (srv_replay_cap st) x"
    using out_task_replay [OF assms(3)] by blast
  then have "length (srv_replay st') \<le> srv_replay_cap st" by auto
  then have "server_wf st'"
    using assms(1) by (subst out_task_frame [OF assms(3)]) (simp add: server_wf_unfold)
  from close_terminates [OF this] w sig end_session_stream_closed [OF _ assms(7), of flags s] assms(6)
  show ?thesis by simp
qed

section \<open>A shell that ends while nobody is attached\<close>

text \<open>
  C19: A client that resumes after the shell has ended is never told. The terminal is not started anew,
  the channel holds nothing for a receiver that subscribes after the last chunk, so the output task
  waits for ever and the client sees no end of the stream; and no timeout or stop of the accept loop
  applies to a session that is attached.
\<close>

theorem exit_while_detached_unnoticed:
  assumes "server_wf st" and "srv_pty_exited st"
    and "srv_session st = Some sess" and "sess_state sess = Attached"
    and "start_data_plane opened written st True = Inr dp"
    and "broadcast_gives [] False (map fst rounds)"
    and "out_task st rounds = (st', w, ended)"
    and "stream_gives (dp_stdout dp @ w) ended (map fst outs)"
    and "stdout_task outs = (shown, s)"
  shows "ensure_pty_runtime pe st = (Inr (), st) \<and> st' = st \<and> \<not> ended \<and>
    s \<noteq> Some BridgeStreamClosed \<and> prefix shown (srv_replay st) \<and>
    fst (accept_tick now1 now2 st) = None"
proof -
  have pty: "srv_pty st \<noteq> None" using assms(1,2) by (cases "srv_pty st") (auto simp: server_wf_def)
  have r: "rounds = []" using assms(6) by (cases rounds rule: list.exhaust; cases "fst (hd rounds)") (auto simp: unsigned_eq_0_iff)
  then have o: "st' = st" "w = []" "\<not> ended" using assms(7) by auto
  have d: "srv_detached_at st = None" using assms(1,3,4) by (auto simp: server_wf_def)
  have t: "fst (accept_tick now1 now2 st) = None"
    using assms(3,4) d
    by (simp add: accept_tick_def expire_if_initial_attach_timeout_def expire_if_detached_timeout_def
        server_stop_reason_def srv_session_def get_session_def)
  from stdout_task_shown [OF assms(9,8)] start_data_plane_stdout [OF assms(5)] o t pty
  show ?thesis by (auto simp: ensure_pty_runtime_def)
qed

section \<open>Input\<close>

fun stdin_as_remote :: "stdin_read \<Rightarrow> remote_read" where
  "stdin_as_remote (StdinData b) = RemoteData b"
| "stdin_as_remote StdinEnd = RemoteEnd"
| "stdin_as_remote (StdinError e) = RemoteError"

lemma in_task_loop_given:
  assumes "in_task_loop (map (\<lambda>r. (r, Some (\<lambda>_. Inr ()))) reads) = (given, ended)"
    and "stream_gives content fin (map stdin_as_remote reads)"
  shows "prefix given content \<and> (StdinEnd \<in> set reads \<longrightarrow> (\<forall>e. StdinError e \<notin> set reads) \<longrightarrow> given = content \<and> fin)"
  using assms
proof (induction reads arbitrary: given content)
  case (Cons r reads)
  show ?case
  proof (cases r)
    case (StdinData b)
    with Cons.prems(1) obtain v where v: "in_task_loop (map (\<lambda>r. (r, Some (\<lambda>_. Inr ()))) reads) = (v, ended)"
      "given = b @ v" by (auto simp: in_task_step_def split: prod.splits)
    from Cons.prems(2) StdinData obtain c where c: "content = b @ c" "stream_gives c fin (map stdin_as_remote reads)"
      by (auto simp: prefix_def)
    from Cons.IH [OF v(1) c(2)] v(2) c(1) StdinData show ?thesis by auto
  qed (use Cons.prems in \<open>auto simp: in_task_step_def\<close>)
qed simp

fun is_local_data :: "local_read \<Rightarrow> bool" where
  "is_local_data (LocalData b) = True"
| "is_local_data r = False"

lemma loop_detach_pending: "process_stdin_loop chunk acc pending = (True, out, q) \<Longrightarrow> \<not> q"
  by (induction chunk acc pending rule: process_stdin_loop.induct) (auto simp: Let_def split: if_splits)

lemma stdin_loop_sent:
  assumes "stdin_task_loop pending (map (\<lambda>b. (LocalData b, True)) chunks @ stop) = (sent, d, ended, p)"
    and "\<forall>r\<in>set stop. \<not> is_local_data (fst r)"
  shows "(d \<longleftrightarrow> hotkey (held pending @ concat chunks)) \<and>
    (d \<longrightarrow> prefix sent (map normalize_stdin_byte (held pending @ concat chunks)) \<and> \<not> p) \<and>
    (\<not> d \<longrightarrow> sent @ held p = map normalize_stdin_byte (held pending @ concat chunks))"
  using assms(1)
proof (induction chunks arbitrary: pending sent)
  case Nil
  then show ?case using assms(2) 
    by (cases stop; cases "fst (hd stop)") (auto simp: held_def normalize_stdin_byte_def)
next
  case (Cons b chunks)
  obtain d' o' q where r: "process_stdin_loop b [] pending = (d', o', q)" by (metis prod_cases3)
  note f = filter_spec [OF r]
  show ?case
  proof (cases d')
    case True
    with r have "\<not> q" using loop_detach_pending [of b "[]" pending o' q] by simp
    then show ?thesis using True Cons.prems r f hotkey_append_not(1) [of "held pending @ b" "concat chunks"]
      by (auto simp: process_stdin_chunk_for_detach_def)
  next
    case False
    then obtain sent' where s: "stdin_task_loop q (map (\<lambda>b. (LocalData b, True)) chunks @ stop) =
        (sent', d, ended, p)" and sent: "sent = o' @ sent'"
      using Cons.prems r by (auto simp: process_stdin_chunk_for_detach_def split: prod.splits)
    note ih = Cons.IH [OF s]
    have h: "hotkey (held q @ concat chunks) \<longleftrightarrow> hotkey (held pending @ b @ concat chunks)"
      using pending_join [of b pending o' q] r False by simp
    have eq: "map normalize_stdin_byte (held pending @ concat (b # chunks)) =
        o' @ map normalize_stdin_byte (held q @ concat chunks)"
      using f False by simp
    show ?thesis using ih f False sent h unfolding eq by auto
  qed
qed

text \<open>
  C10: What is typed reaches the shell: however the terminal's input is cut into reads, and the stream
  into pieces, the shell is given a prefix of what was typed, byte for byte, with backspace as delete;
  and when the input has ended without the detach hotkey and the server has read the end of the stream,
  it has been given all of it. No \<open>Ctrl-a\<close> held back at the end of a read is lost.
\<close>

theorem typed_input_reaches_shell:
  assumes "stdin_task (map (\<lambda>b. (LocalData b, True)) chunks @ stop) True = (sent, asked, finished)"
    and "\<forall>r\<in>set stop. \<not> is_local_data (fst r)"
    and "stream_gives sent finished (map stdin_as_remote reads)"
    and "in_task (Inr ()) (map (\<lambda>r. (r, Some (\<lambda>_. Inr ()))) reads) = (given, ended)"
  shows "prefix given (map normalize_stdin_byte (concat chunks)) \<and>
    (asked \<longleftrightarrow> (\<exists>a b c. concat chunks = a @ [1, c] @ b \<and> c \<in> {100, 68})) \<and>
    (\<not> asked \<and> StdinEnd \<in> set reads \<and> (\<forall>e. StdinError e \<notin> set reads) \<longrightarrow>
       given = map normalize_stdin_byte (concat chunks))"
proof -
  obtain s d e p where l:
    "stdin_task_loop False (map (\<lambda>b. (LocalData b, True)) chunks @ stop) = (s, d, e, p)"
    by (metis prod_cases4)
  note spec = stdin_loop_sent [OF l assms(2)]
  from l assms(1) have d: "d = asked" and e: "e = finished"
    and sent: "sent = (if e \<and> p then s @ [1] else s)"
    by (simp_all add: stdin_task_def split: if_splits)
  have all: "\<not> asked \<Longrightarrow> s @ held p = map normalize_stdin_byte (concat chunks)"
    and part: "asked \<Longrightarrow> prefix s (map normalize_stdin_byte (concat chunks)) \<and> \<not> p"
    and hk: "asked \<longleftrightarrow> hotkey (concat chunks)"
    using spec d by (simp_all add: held_def [of False])
  have pre: "prefix sent (map normalize_stdin_byte (concat chunks))"
  proof (cases asked)
    case False
    from all [OF False, symmetric] show ?thesis using sent by (auto simp: held_def)
  qed (use part sent in auto)
  have "in_task_loop (map (\<lambda>r. (r, Some (\<lambda>_. Inr ()))) reads) = (given, ended)"
    using assms(4) by (simp add: in_task_def)
  note g = in_task_loop_given [OF this assms(3)]
  have full: "given = map normalize_stdin_byte (concat chunks)"
    if "\<not> asked" "StdinEnd \<in> set reads" "\<forall>e. StdinError e \<notin> set reads"
  proof -
    from g that have "given = sent" and f: "finished" by auto
    moreover from f e sent have "sent = s @ held p" by (simp add: held_def)
    ultimately show ?thesis using all that(1) by simp
  qed
  have "prefix given (map normalize_stdin_byte (concat chunks))" using g pre prefix_order.trans by blast
  with full hk show ?thesis unfolding hotkey_def by blast
qed

theorem typed_input_reaches_shell_witness:
  "fst (in_task (Inr ()) (map (\<lambda>r. (r, Some (\<lambda>_. Inr ())))
     [StdinData [104, 1], StdinData [105, 0x7f, 1], StdinEnd])) =
   map normalize_stdin_byte (concat [[104, 1], [105, 8], [1]])"
proof -
  have r: "stdin_task (map (\<lambda>b. (LocalData b, True)) [[104, 1], [105, 8], [1]] @ [(LocalEnd, True)]) True =
      ([104, 1, 105, 0x7f, 1], False, True)"
    by (simp add: stdin_task_def process_stdin_chunk_for_detach_def normalize_stdin_byte_def)
  have i: "in_task (Inr ()) (map (\<lambda>r. (r, Some (\<lambda>_. Inr ())))
      [StdinData [104, 1], StdinData [105, 0x7f, 1], StdinEnd]) = ([104, 1, 105, 0x7f, 1], True)"
    by (simp add: in_task_def in_task_step_def)
  from typed_input_reaches_shell [OF r _ _ i] i show ?thesis by (simp add: normalize_stdin_byte_def)
qed

section \<open>Witnesses\<close>

definition demo_running :: server_state where
  "demo_running = demo_server\<lparr>srv_pty := Some \<lparr>pty_master = 3, pty_writer_handle = 5, pty_reader = None,
     pty_child = 4\<rparr>, srv_pty_writer := Some 5, srv_output_tx := Some 1, srv_replay := [7]\<rparr>"

lemma demo_running_wf: "server_wf demo_running"
  using demo_server_wf by (simp add: demo_running_def server_wf_unfold)
    (simp add: demo_server_def server_state_new_def demo_args_def)

lemma demo_running_plane:
  "start_data_plane (Inr ()) (\<lambda>_. Inr ()) demo_running True =
     Inr \<lparr>dp_writer = 5, dp_tx = 1, dp_stdout = [7]\<rparr>"
  by (simp add: start_data_plane_def data_plane_snapshot_def demo_running_def)

theorem terminal_output_complete_witness:
  "stdout_task [(RemoteData [7, 1], True), (RemoteData [2, 3], True), (RemoteEnd, True)] =
     ([7] @ concat (sent_chunks [SendChunk [1, 2], SendChunk [3], MarkExited, SendChunk []]),
      Some BridgeStreamClosed)"
proof -
  let ?later = "[SendChunk [1, 2], SendChunk [3], MarkExited, SendChunk []]"
  let ?rounds = "[(RecvOk [1, 2], True), (RecvOk [3], True), (RecvOk [], True)]"
  obtain st' where o: "out_task demo_running ?rounds = (st', [1, 2, 3], True)"
    by (simp add: out_task_step_def Let_def)
  have r: "reader_thread [Inr [9], Inr [1, 2], Inr [3], Inr []] = [SendChunk [9]] @ ?later" by simp
  have s: "stdout_task [(RemoteData [7, 1], True), (RemoteData [2, 3], True), (RemoteEnd, True)] =
      ([7, 1, 2, 3], Some BridgeStreamClosed)" by simp
  have "[7, 1, 2, 3] = srv_replay demo_running @ concat (sent_chunks ?later)"
    using terminal_output_complete [OF r demo_running_plane _ _ o _ _ s, of "[]"] by simp
  with s show ?thesis by simp
qed

theorem lagging_client_ends_session_witness:
  "fst (end_session (demo_env (SeSignal SigStreamClosed (False, False))) 7 demo_sess) = Inl CliClosed"
proof -
  let ?env = "demo_env (SeSignal SigStreamClosed (False, False))"
  obtain st' where o: "out_task demo_running (map (\<lambda>c. (RecvOk c, True)) [[1, 2]] @ (RecvLagged 3, True) # []) =
      (st', [1, 2], True)"
    by (simp add: out_task_step_def Let_def)
  have st: "stdout_task (map (\<lambda>b. (RemoteData b, True)) [[1], [2]] @ [(RemoteEnd, True)]) =
      ([1, 2], Some BridgeStreamClosed)" by simp
  have ev: "ev_event ?env = SeSignal (bridge_signal_of BridgeStreamClosed) (False, False)"
    by (simp add: demo_env_def)
  show ?thesis
    using lagging_client_ends_session [OF demo_running_wf _ o _ st ev, of 7 demo_sess] by (simp add: demo_send)
qed

definition demo_ended :: server_state where
  "demo_ended = demo_attached\<lparr>srv_pty_exited := True, srv_replay := [7]\<rparr>"

lemma demo_ended_facts:
  "server_wf demo_ended" "srv_pty_exited demo_ended" "srv_replay demo_ended = [7]"
  "srv_session demo_ended = Some \<lparr>session_id = 1, owner_user_id = ''ann'',
     sess_quic_addr = ''127.0.0.1:30000'', sess_cert_fingerprint = ''sha256:00'', sess_state = Attached,
     attached_conn_id = Some 7, attach_epoch = 1\<rparr>"
  by (simp_all add: demo_ended_def server_wf_unfold demo_attached_def demo_authed_def demo_issued_def
      demo_sessions_def session_wf_def)
    (simp add: demo_server_def server_state_new_def demo_args_def)

theorem exit_while_detached_unnoticed_witness:
  "stdout_task [(RemoteData [7], True)] = ([7], None) \<and> fst (accept_tick 20 20 demo_ended) = None"
proof -
  have dp: "start_data_plane (Inr ()) (\<lambda>_. Inr ()) demo_ended True =
      Inr \<lparr>dp_writer = 5, dp_tx = 1, dp_stdout = [7]\<rparr>"
    by (simp add: start_data_plane_def data_plane_snapshot_def demo_ended_def demo_attached_def)
  have o: "out_task demo_ended [] = (demo_ended, [], False)" by simp
  have s: "stdout_task [(RemoteData [7], True)] = ([7], None)" by simp
  show ?thesis
    using exit_while_detached_unnoticed [OF demo_ended_facts(1,2,4) _ dp _ o _ s] s by simp
qed

end
