(* ===== verification/Attached_Traffic.thy ===== *)
theory Attached_Traffic
  imports End_To_End Client_Tasks Server_Loop
begin

text \<open>
  Client and server while a session is attached, and how it ends in order: what the tasks of the client
  (\<open>src/src/bin/neosh.rs\<close>) put on the control stream is taken off it by \<open>handle_connection\<close>
  (\<open>src/src/bin/neoshd.rs\<close>), whose replies are read by the client's watch of the control stream.
\<close>

section \<open>Messages of an attached client\<close>

text \<open>What the tasks that send window sizes and keep-alives send.\<close>

fun traffic :: "client_msg \<Rightarrow> bool" where
  "traffic (CResize rows cols) = True"
| "traffic (CPing nonce) = True"
| "traffic m = False"

fun task_message :: "uuid \<Rightarrow> client_task \<times> client_msg \<Rightarrow> bool" where
  "task_message sid (MainTask, m) = (m \<in> {CDetach, CClose sid})"
| "task_message sid (IpcTask, m) = (m = CDetach)"
| "task_message sid (WindowTask, m) = traffic m"
| "task_message sid (KeepaliveTask, m) = traffic m"

lemma put_wire_messages:
  "\<forall>x\<in>set (ct_wire t). task_message sid x \<Longrightarrow> task_message sid (w, m) \<Longrightarrow>
   \<forall>x\<in>set (ct_wire (put_wire w m t)). task_message sid x"
  by (auto simp: put_wire_def)

lemma main_messages:
  assumes "wire_ok sid s0 t"
  shows "\<forall>m. (MainTask, m) \<in> set (ct_wire t) \<longrightarrow> task_message sid (MainTask, m)"
proof (intro allI impI)
  fix m assume "(MainTask, m) \<in> set (ct_wire t)"
  then have "m \<in> set (sent_by MainTask t)" by (force simp: sent_by_def)
  then show "task_message sid (MainTask, m)"
    using assms by (cases "ct_main t") (auto simp: wire_ok_def)
qed

definition others_ok :: "uuid \<Rightarrow> 'v client_tasks \<Rightarrow> bool" where
  "others_ok sid t \<longleftrightarrow> (\<forall>w m. (w, m) \<in> set (ct_wire t) \<longrightarrow> w \<noteq> MainTask \<longrightarrow> task_message sid (w, m))"

lemma others_ok_run_main [simp]: "others_ok sid (run_main act nxt t) = others_ok sid t"
  by (auto simp: others_ok_def run_main_def split: prod.split)

lemma others_ok_put [simp]:
  "others_ok sid t \<Longrightarrow> task_message sid (w, m) \<Longrightarrow> others_ok sid (put_wire w m t)"
  by (auto simp: others_ok_def put_wire_def)

lemma others_ok_fields [simp]:
  "others_ok sid (t\<lparr>ct_main := p\<rparr>) = others_ok sid t" "others_ok sid (t\<lparr>ct_ipc := i\<rparr>) = others_ok sid t"
  "others_ok sid (t\<lparr>ct_flag := b\<rparr>) = others_ok sid t" "others_ok sid (t\<lparr>ct_sess := s\<rparr>) = others_ok sid t"
  "others_ok sid (t\<lparr>ct_signals := q\<rparr>) = others_ok sid t" "others_ok sid (t\<lparr>ct_input := b\<rparr>) = others_ok sid t"
  "others_ok sid (t\<lparr>ct_output := b\<rparr>) = others_ok sid t" "others_ok sid (t\<lparr>ct_watch := b\<rparr>) = others_ok sid t"
  "others_ok sid (notify_waiters t) = others_ok sid t"
  by (simp_all add: others_ok_def)

lemma others_ok_signal: "others_ok sid t \<Longrightarrow> others_ok sid (on_signal env sid' sig t)"
  by (cases sig) simp_all

lemma others_ok_step: "others_ok sid t \<Longrightarrow> others_ok sid (task_step env sid t ev)"
  by (cases ev) (auto simp: others_ok_signal split: list.split option.split main_phase.split prod.split sum.split)

lemma reachable_others: "tasks_reachable env sid s0 t \<Longrightarrow> others_ok sid t"
  by (induction rule: tasks_reachable.induct)
    (simp add: others_ok_def tasks_start_def, rule others_ok_step)

text \<open>Every message on the wire of a reachable client is one its task may send.\<close>

lemma reachable_messages:
  assumes "tasks_reachable env sid s0 t" and "m \<in> set (map snd (ct_wire t))"
  shows "traffic m \<or> m = CDetach \<or> m = CClose sid"
proof -
  have "others_ok sid t" by (rule reachable_others [OF assms(1)])
  moreover obtain w where w: "(w, m) \<in> set (ct_wire t)" using assms(2) by auto
  ultimately have "task_message sid (w, m)"
    using main_messages [OF reachable_wire [OF assms(1)]] unfolding others_ok_def by (cases "w = MainTask") blast+
  then show ?thesis by (cases w) auto
qed

lemma traffic_before:
  assumes "tasks_reachable env sid s0 t" and "map snd (ct_wire t) = before @ after"
    and "CDetach \<notin> set before" and "CClose sid \<notin> set before"
  shows "\<forall>m\<in>set before. traffic m"
proof
  fix m assume m: "m \<in> set before"
  then have "m \<in> set (map snd (ct_wire t))" unfolding assms(2) by simp
  from reachable_messages [OF assms(1) this] m assms(3,4) show "traffic m" by blast
qed

section \<open>The server's rounds\<close>

text \<open>A payload that carries a message from client to server.\<close>

definition carries :: "'v codec \<Rightarrow> 'w json_api \<Rightarrow> client_msg \<Rightarrow> bytes \<Rightarrow> bool" where
  "carries cd J m p \<longleftrightarrow> client_payload J m p \<and> length p \<le> max_control_frame \<and> reads_as cd p m"

text \<open>Writes and changes of the window size that succeed.\<close>

definition calm_env :: "conn_env \<Rightarrow> bool" where
  "calm_env e \<longleftrightarrow> server_io_ok e \<and> (\<forall>p rows cols. resize (pe_os (ce_pty e)) p rows cols = Inr ())"

definition pong_to :: "'v codec \<Rightarrow> bytes \<Rightarrow> 'v server_msg" where
  "pong_to cd p = PongReply (case de_nonce cd p of Some v \<Rightarrow> v | None \<Rightarrow> empty_nonce cd)"

text \<open>The frame of a reply, and the replies to a sequence of messages: one \<open>PONG\<close> for each \<open>PING\<close>.\<close>

definition reply_bytes :: "'v codec \<Rightarrow> 'v server_msg \<Rightarrow> bytes" where
  "reply_bytes cd m = encode_frame (projr (ser_msg cd m))"

fun pongs :: "'v codec \<Rightarrow> client_msg list \<Rightarrow> bytes list \<Rightarrow> 'v server_msg list" where
  "pongs cd (CPing nonce # ms) (p # ps) = pong_to cd p # pongs cd ms ps"
| "pongs cd (m # ms) (p # ps) = pongs cd ms ps"
| "pongs cd ms ps = []"

lemma traffic_round:
  assumes "traffic m" and "reads_as cd p m" and "disp_state (cn_dispatcher c) = ConnAttached"
    and "calm_env e" and "ser_msg cd (pong_to cd p) = Inr r"
  shows "conn_round cd C e p c st =
    (NextFrame, concat (map (reply_bytes cd) (pongs cd [m] [p])), c, st)"
proof (cases m)
  case (CResize rows cols)
  then show ?thesis using assms
    by (auto simp: conn_round_def on_control_frame_def parse_message_kind_def handle_resize_def calm_env_def
        split: option.split)
next
  case (CPing nonce)
  have w: "write_control_json cd (ce_write e) (pong_to cd p) = Inr (encode_frame r)"
    using write_ok [OF assms(5)] assms(4) by (simp add: calm_env_def)
  show ?thesis using assms(2,3,5) w CPing
    by (simp add: conn_round_def on_control_frame_def parse_message_kind_def handle_ping_def send_then_def
        pong_to_def reply_bytes_def)
qed (use assms(1) in simp_all)

lemma pongs_Cons: "pongs cd (m # ms) (p # ps) = pongs cd [m] [p] @ pongs cd ms ps"
  by (cases m) simp_all

text \<open>Any number of them leaves connection and state as they are.\<close>

lemma traffic_loop:
  assumes "list_all2 (carries cd J) ms ps" and "\<forall>m\<in>set ms. traffic m"
    and "disp_state (cn_dispatcher c) = ConnAttached" and "length es = length ps" and "\<forall>e\<in>set es. calm_env e"
    and "\<forall>p\<in>set ps. client_reads cd J (pong_to cd p)"
  shows "conn_loop cd C (zip es (map Inr ps) @ rounds) c st =
    (case conn_loop cd C rounds c st of
       (fl, out, c', st') \<Rightarrow> (fl, concat (map (reply_bytes cd) (pongs cd ms ps)) @ out, c', st'))"
  using assms
proof (induction ms ps arbitrary: es rule: list_all2_induct)
  case Nil
  then show ?case by (simp split: prod.split)
next
  case (Cons m ms p ps)
  then obtain e es' where es: "es = e # es'" by (cases es) auto
  obtain r where r: "ser_msg cd (pong_to cd p) = Inr r" using Cons.prems(5) by (auto simp: client_reads_def)
  have "conn_round cd C e p c st = (NextFrame, concat (map (reply_bytes cd) (pongs cd [m] [p])), c, st)"
    by (rule traffic_round) (use Cons es r in \<open>auto simp: carries_def\<close>)
  then show ?case using Cons.IH [of es'] Cons.prems es
    by (subst pongs_Cons) (auto split: prod.split)
qed

section \<open>The client's watch\<close>

lemma watch_pong:
  assumes "client_reads cd J (PongReply n)"
  shows "control_watch_loop J e (reply_bytes cd (PongReply n) @ rest) = control_watch_loop J e rest"
proof -
  from assms obtain p v where p: "ser_msg cd (PongReply n) = Inr p" "length p \<le> client_max_control_frame"
      "js_from_slice J p = Inr v" "message_type J v = Some ''PONG''"
    by (auto simp: client_reads_def)
  have "read_json J e (reply_bytes cd (PongReply n) @ rest) = Inr (v, rest)"
    using p read_json_encode by (simp add: reply_bytes_def)
  then show ?thesis using p(4) by (subst control_watch_loop.simps) simp
qed

lemma watch_pongs:
  assumes "\<forall>m\<in>set rs. \<exists>n. m = PongReply n" and "\<forall>m\<in>set rs. client_reads cd J m"
  shows "control_watch_loop J e (concat (map (reply_bytes cd) rs) @ rest) = control_watch_loop J e rest"
  using assms by (induction rs) (auto simp: watch_pong)

lemma watch_end [simp]: "control_watch_loop J e [] = None"
  by (subst control_watch_loop.simps) (simp add: read_json_def read_json_frame_alt split: sum.split)

lemma pongs_are: "m \<in> set (pongs cd ms ps) \<Longrightarrow> \<exists>p\<in>set ps. m = pong_to cd p"
  by (induction cd ms ps rule: pongs.induct) auto

lemma length_pongs:
  "length ms = length ps \<Longrightarrow> length (pongs cd ms ps) = length (filter (\<lambda>m. \<exists>n. m = CPing n) ms)"
  by (induction cd ms ps rule: pongs.induct) auto

text \<open>
  C7: An attached session stays quiet: whatever window sizes and keep-alives the tasks of the client
  send, in any number and order, the server answers each \<open>PING\<close> with one \<open>PONG\<close> and the rest with nothing,
  keeps the connection and its whole state as they are, and the client's watch of the control stream
  reads the answers without raising a signal.
\<close>

theorem attached_traffic_quiet:
  assumes "tasks_reachable env sid s0 t" and "ms = map snd (ct_wire t)"
    and "CDetach \<notin> set ms" and "CClose sid \<notin> set ms"
    and "list_all2 (carries cd (ev_json env)) ms ps"
    and "disp_state (cn_dispatcher c) = ConnAttached"
    and "length es = length ps" and "\<forall>e\<in>set es. calm_env e"
    and "\<forall>p\<in>set ps. client_reads cd (ev_json env) (pong_to cd p)"
  shows "\<exists>rs. conn_loop cd C (zip es (map Inr ps)) c st =
      (NextFrame, concat (map (reply_bytes cd) rs), c, st) \<and>
    length rs = length (filter (\<lambda>m. \<exists>n. m = CPing n) ms) \<and>
    control_watch_loop (ev_json env) (ev_read_err env) (concat (map (reply_bytes cd) rs)) = None"
proof -
  have tr: "\<forall>m\<in>set ms. traffic m" using reachable_messages [OF assms(1)] assms(2-4) by blast
  have "conn_loop cd C (zip es (map Inr ps)) c st =
      (NextFrame, concat (map (reply_bytes cd) (pongs cd ms ps)), c, st)"
    using traffic_loop [OF assms(5) tr assms(6-9), where rounds = "[]"] by simp
  moreover have "control_watch_loop (ev_json env) (ev_read_err env)
      (concat (map (reply_bytes cd) (pongs cd ms ps))) = None"
    using watch_pongs [of "pongs cd ms ps" cd "ev_json env" "ev_read_err env" "[]"] pongs_are assms(9)
    by (fastforce simp: pong_to_def)
  ultimately show ?thesis using length_pongs list_all2_lengthD [OF assms(5)] by blast
qed

section \<open>Detaching, and resuming later\<close>

lemma detach_frame:
  assumes "server_wf st" and "srv_session st = Some s" and "attached_conn_id s = Some (cn_id c)"
    and "cn_attached_epoch c = Some (attach_epoch s)" and "disp_state (cn_dispatcher c) = ConnAttached"
    and "reads_as cd p CDetach"
  shows "\<exists>c' st'. conn_loop cd C ((e, Inr p) # rounds) c st = (BreakLoop, [], c', st') \<and>
    server_wf st' \<and> srv_tokens st' = srv_tokens st \<and> srv_pty st' = srv_pty st \<and>
    srv_session_id st' = srv_session_id st \<and> srv_owner_user st' = srv_owner_user st \<and>
    srv_detached_at st' = Some (ce_now e) \<and> srv_session st' = Some (released s)"
proof -
  let ?sid = "srv_session_id st"
  let ?m = "(srv_sessions st)(?sid \<mapsto> released s)"
  let ?st = "st\<lparr>srv_sessions := ?m, srv_detached_at := Some (ce_now e)\<rparr>"
  have d: "detach (srv_sessions st) ?sid (cn_id c) = (Inr (), ?m)"
    using assms(2,3) by (simp add: detach_def srv_session_def)
  have r: "conn_round cd C e p c st = (BreakLoop, [], c\<lparr>cn_cleanup_reason := ExplicitDetach\<rparr>, ?st)"
    using assms(5,6) d by (simp add: conn_round_def on_control_frame_def parse_message_kind_def handle_detach_def)
  have cl: "conn_cleanup (ce_now e) (c\<lparr>cn_cleanup_reason := ExplicitDetach\<rparr>) ?st = ?st"
    using assms(4) by (simp add: conn_cleanup_def finalize_connection_cleanup_def release_if_current_def
        conditional_stale_cleanup_def)
  have "server_wf ?st" by (rule server_wf_detach [OF assms(1) d])
  then show ?thesis using r cl by (simp add: srv_session_def)
qed

lemma released_free:
  assumes "server_wf st" and "srv_session st = Some (released s)" and "sess_state (released s) = Detached"
  shows "\<exists>epoch m. attach_exclusive (srv_sessions st) (srv_session_id st) cid = (Inr epoch, m)"
  using assms by (simp add: attach_exclusive_def srv_session_def Let_def)

lemma attached_session_state:
  "server_wf st \<Longrightarrow> srv_session st = Some s \<Longrightarrow> attached_conn_id s = Some cid \<Longrightarrow>
   sess_state (released s) = Detached"
  by (auto simp: server_wf_def session_wf_def released_def Let_def)

text \<open>
  C5: A session left in order can be resumed. When the client's tasks, in whatever interleaving, have put
  window sizes, keep-alives and then a \<open>DETACH\<close> on the control stream, the server answers the former,
  ends the connection at the latter without an error, notes the time and frees the session with its
  terminal and tokens untouched, whatever else the stream holds; and new bootstrap data with the resume
  token handed out before let a new connection resume and hold it, as long as that token is valid. The
  two JSON libraries are assumed to agree on the messages, and reads and writes to succeed.
\<close>

theorem detached_session_resumes:
  assumes "tasks_reachable cenv sid' s0 t" and "map snd (ct_wire t) = before @ CDetach # after"
    and "CDetach \<notin> set before" and "CClose sid' \<notin> set before"
    and "list_all2 (carries cd (ev_json cenv)) before ps" and "reads_as cd p CDetach"
    and "length es = length ps" and "\<forall>e\<in>set es. calm_env e"
    and "\<forall>p\<in>set ps. client_reads cd (ev_json cenv) (pong_to cd p)"
    and "ct_eq_exact C" and "server_wf st" and "srv_session st = Some s"
    and "attached_conn_id s = Some (cn_id c)" and "cn_attached_epoch c = Some (attach_epoch s)"
    and "disp_state (cn_dispatcher c) = ConnAttached" and "srv_pty st \<noteq> None"
    and "usable C ResumeToken resume (srv_session_id st) (srv_owner_user st) exp (srv_tokens st)"
    and "conn_loop cd C (zip es (map Inr ps) @ (e0, Inr p) # rounds) c st = (fl, fr, c1, st1)"
    and "srv_bootstrap_output C ie st1 = Some (out, st2)" and "bp_auth_token payload = bo_auth_token out"
    and "find_record C (srv_tokens st1) (random_token C (env_rnd ie)) = None"
    and "ce_now e2 < env_now ie + int (srv_auth_token_ttl st1)" and "ce_now e3 < exp"
    and "ok = granted C e2 st2" and "find_record C (srv_tokens st2) (ak_resume_token ok) = None"
    and "system_time_add (env_now (ce_issue e2)) (srv_resume_token_ttl st2) \<noteq> None"
    and "server_io_ok e1" "server_io_ok e2" "server_io_ok e3" "\<forall>m. ev_write env m = Inr ()"
    and "cache_put (ev_io env) (ev_root env) (session_entry env target payload ok) (cs_files cs) = (Inr (), fs)"
    and "\<forall>m\<in>set (handshake_msgs (bp_auth_token payload) (SmResume sid resume) ok). server_reads cd (ev_json env) m"
    and "\<forall>m\<in>set (handshake_replies (SmResume sid resume) ok st2). client_reads cd (ev_json env) m"
  shows "fl = BreakLoop \<and> srv_detached_at st1 = Some (ce_now e0) \<and> srv_session st1 = Some (released s) \<and>
    (\<exists>qs frames c' st' cs' epoch.
      list_all2 (client_payload (ev_json env))
        (handshake_msgs (bp_auth_token payload) (SmResume sid resume) ok) qs \<and>
      conn_loop cd C (zip [e1, e2, e3] (map Inr qs)) (conn_new cid) st2 = (NextFrame, frames, c', st') \<and>
      run_handshake env target payload (SmResume sid resume) (cs\<lparr>cs_recv := frames @ rest\<rparr>) = (Inr ok, cs') \<and>
      cs_files cs' = fs \<and>
      cn_attached_epoch c' = Some epoch \<and> lock_holder (srv_session_id st) (srv_sessions st') = Some cid)"
proof -
  note tr = traffic_before [OF assms(1-4)]
  note l = traffic_loop [OF assms(5) tr assms(15,7,8,9), of C "(e0, Inr p) # rounds" st]
  note d = detach_frame [OF assms(11-15,6), of C e0 rounds]
  from d l assms(18) have fl: "fl = BreakLoop" and st1: "server_wf st1" "srv_session st1 = Some (released s)"
    "srv_detached_at st1 = Some (ce_now e0)" "srv_session_id st1 = srv_session_id st"
    "srv_pty st1 \<noteq> None"
    "usable C ResumeToken resume (srv_session_id st1) (srv_owner_user st1) exp (srv_tokens st1)"
    using assms(16,17) by auto
  obtain epoch m where at1: "attach_exclusive (srv_sessions st1) (srv_session_id st1) cid = (Inr epoch, m)"
    using released_free [OF st1(1,2) attached_session_state [OF assms(11-13)]] by blast
  show ?thesis
    using free_session_resumes [OF assms(10) st1(1,5) at1 st1(6) assms(19-33), of rest] fl st1 by simp
qed

section \<open>The end of the shell\<close>

lemma close_frame:
  assumes "server_wf st" and "srv_session st = Some s" and "attached_conn_id s = Some (cn_id c)"
    and "cn_attached_epoch c = Some (attach_epoch s)" and "disp_state (cn_dispatcher c) = ConnAttached"
    and "cn_cleanup_reason c = ConnectionEnd" and "reads_as cd p (CClose sid)"
  shows "\<exists>c' st' s'. conn_loop cd C ((e, Inr p) # rounds) c st = (BreakLoop, [], c', st') \<and>
    server_wf st' \<and> srv_session st' = Some s' \<and> sess_state s' = Terminated \<and> srv_detached_at st' = None"
proof -
  let ?m = "snd (terminate (srv_sessions st) (srv_session_id st))"
  let ?c = "c\<lparr>cn_dispatcher := \<lparr>disp_state = ConnClosed\<rparr>\<rparr>"
  let ?st = "st\<lparr>srv_sessions := ?m\<rparr>"
  have da: "srv_detached_at st = None"
    using assms(1-3) by (auto simp: server_wf_def session_wf_def)
  have r: "conn_round cd C e p c st = (BreakLoop, [], ?c, ?st)"
    using assms(2,5,7)
    by (simp add: conn_round_def on_control_frame_def parse_message_kind_def handle_close_def terminate_def
        srv_session_def)
  have wf: "server_wf ?st" by (rule server_wf_terminate [OF assms(1)])
  have "conn_cleanup (ce_now e) ?c ?st = (if srv_pty_exited st
      then ?st\<lparr>srv_sessions := snd (terminate ?m (srv_session_id st)), srv_detached_at := None\<rparr> else ?st)"
    using assms(2,4,6)
    by (simp add: conn_cleanup_def finalize_connection_cleanup_def release_if_current_def terminate_def
        conditional_stale_cleanup_def srv_session_def)
  moreover have "server_wf (?st\<lparr>srv_sessions := snd (terminate ?m (srv_session_id st)), srv_detached_at := None\<rparr>)"
    using terminate_keeps_wf [OF wf] by simp
  ultimately show ?thesis using r wf da assms(2)
    by (auto simp: srv_session_def terminate_def)
qed

lemma terminated_stops:
  assumes "srv_session st = Some s" and "sess_state s = Terminated" and "srv_detached_at st = None"
  shows "accept_tick now1 now2 st = (Some StopSessionTerminated, st)"
  using assms
  by (simp add: accept_tick_def expire_if_initial_attach_timeout_def expire_if_detached_timeout_def
      server_stop_reason_def srv_session_def get_session_def)

lemma close_sent_outcome:
  assumes "outcome env sid s0 ev = (r, s)" and "cs_sent s = cs_sent s0 @ [CClose sid]"
  shows "stream_closed_end env sid s0 = (r, s)"
proof -
  obtain r0 s1 where o: "open_streams env s0 = (r0, s1)" by fastforce
  then have s1: "s1 = s0" by (rule open_streams_keeps)
  obtain u where r0: "r0 = Inr u" using assms o s1 by (cases r0) (auto simp: outcome_def act_then_def)
  have e: "end_session (env\<lparr>ev_event := ev\<rparr>) sid s0 = (r, s)"
    using assms(1) o s1 r0 by (simp add: outcome_def act_then_def)
  show ?thesis
  proof (cases ev)
    case (SeDetach ipc)
    then have "leave env (\<not> ipc) s0 = (r, s)" using e by (simp only: end_session_arms)
    from leave_keeps_sent [OF this] assms(2) show ?thesis by auto
  next
    case (SeSignal sig w)
    show ?thesis
    proof (cases sig)
      case SigClose
      then have "leave env False (cleared env sid s0) = (r, s)"
        using e SeSignal by (simp only: end_session_arms)
      from leave_keeps_sent [OF this] assms(2) show ?thesis by auto
    next
      case (SigError v)
      then show ?thesis using e SeSignal assms(2) by (auto simp: end_session_arms act_then_def)
    next
      case SigDisconnected
      then show ?thesis using e SeSignal assms(2)
        by (cases w) (auto simp: end_session_arms act_then_def split: if_splits)
    next
      case SigStreamClosed
      then show ?thesis using e SeSignal by (simp only: end_session_arms)
    qed
  qed
qed

lemma stream_closed_leaves:
  assumes "stream_closed_end env sid s0 = (r, s)"
  shows "r = Inl CliClosed \<and> cs_closed s \<and> \<not> cs_socket s \<and>
    cs_files s = snd (cache_delete (ev_io env) (ev_root env) sid (cs_files s0))"
proof -
  have "cs_files (snd (send_json env (CClose sid) s0)) = cs_files s0"
    using send_json_state [of env "CClose sid" s0] by auto
  with assms show ?thesis by (auto simp: stream_closed_end_def act_then_def)
qed

lemma client_closed:
  assumes "tasks_reachable env sid s0 t" and "CClose sid \<in> set (map snd (ct_wire t))"
  shows "ct_main t = MainDone (Inl CliClosed) \<and> cs_closed (ct_sess t) \<and> \<not> cs_socket (ct_sess t) \<and>
    cs_files (ct_sess t) = snd (cache_delete (ev_io env) (ev_root env) sid (cs_files s0))"
proof -
  note w = reachable_wire [OF assms(1)]
  obtain who where who: "(who, CClose sid) \<in> set (ct_wire t)" using assms(2) by auto
  have "task_message sid (who, CClose sid)" if "who \<noteq> MainTask"
    using reachable_others [OF assms(1)] who that unfolding others_ok_def by blast
  then have "who = MainTask" by (cases who) auto
  with who have "CClose sid \<in> set (sent_by MainTask t)" by (force simp: sent_by_def)
  with w obtain r where r: "ct_main t = MainDone r" "sent_by MainTask t = [CClose sid]"
    by (cases "ct_main t") (auto simp: wire_ok_def)
  obtain ev where "outcome env sid s0 ev = (r, ct_sess t)" by (rule reachable_outcome [OF assms(1) r(1)])
  from close_sent_outcome [OF this] w r have "stream_closed_end env sid s0 = (r, ct_sess t)"
    by (simp add: wire_ok_def)
  from stream_closed_leaves [OF this] r show ?thesis by simp
qed

text \<open>
  C6: The end of the shell ends everything. When the client's tasks have put a \<open>CLOSE\<close> on the stream after
  window sizes and keep-alives, the server ends the connection and the session at it, the next round of its
  accept loop stops the process with that reason, and no connection can attach any more; and the client, whose
  session ended with the signal that made it send the \<open>CLOSE\<close>, reports a closed session, has dropped its cached
  entry when the file can be removed, and has its endpoint closed and its socket removed.
\<close>

theorem shell_end_ends_session:
  assumes "tasks_reachable cenv sid s0 t" and "map snd (ct_wire t) = before @ CClose sid # after"
    and "CDetach \<notin> set before" and "CClose sid \<notin> set before"
    and "list_all2 (carries cd (ev_json cenv)) before ps" and "reads_as cd p (CClose sid)"
    and "length es = length ps" and "\<forall>e\<in>set es. calm_env e"
    and "\<forall>p\<in>set ps. client_reads cd (ev_json cenv) (pong_to cd p)"
    and "server_wf st" and "srv_session st = Some s" and "attached_conn_id s = Some (cn_id c)"
    and "cn_attached_epoch c = Some (attach_epoch s)" and "disp_state (cn_dispatcher c) = ConnAttached"
    and "cn_cleanup_reason c = ConnectionEnd"
    and "conn_loop cd C (zip es (map Inr ps) @ (e0, Inr p) # rounds) c st = (fl, fr, c1, st1)"
  shows "fl = BreakLoop \<and> accept_tick now1 now2 st1 = (Some StopSessionTerminated, st1) \<and>
    fst (attach_exclusive (srv_sessions st1) (srv_session_id st1) other) = Inl InvalidState \<and>
    ct_main t = MainDone (Inl CliClosed) \<and> cs_closed (ct_sess t) \<and> \<not> cs_socket (ct_sess t) \<and>
    cs_files (ct_sess t) = snd (cache_delete (ev_io cenv) (ev_root cenv) sid (cs_files s0))"
proof -
  note tr = traffic_before [OF assms(1-4)]
  note l = traffic_loop [OF assms(5) tr assms(14,7,8,9), of C "(e0, Inr p) # rounds" st]
  obtain c' st' s' where d: "conn_loop cd C ((e0, Inr p) # rounds) c st = (BreakLoop, [], c', st')"
    "server_wf st'" "srv_session st' = Some s'" "sess_state s' = Terminated" "srv_detached_at st' = None"
    using close_frame [OF assms(10-15,6), of C e0 rounds] by blast
  from d(1) l assms(16) have fl: "fl = BreakLoop" "st1 = st'" by auto
  have at: "fst (attach_exclusive (srv_sessions st') (srv_session_id st') other) = Inl InvalidState"
    using d(3,4) by (simp add: attach_exclusive_def srv_session_def)
  have "CClose sid \<in> set (map snd (ct_wire t))" unfolding assms(2) by simp
  from client_closed [OF assms(1) this] terminated_stops [OF d(3-5)] at fl show ?thesis by simp
qed

section \<open>Witnesses\<close>

definition traffic_json :: "nat json_api" where
  "traffic_json = demo_json\<lparr>
     js_as_str := \<lambda>v. if v = 5 then Some ''PONG'' else None,
     js_object := \<lambda>m. case m of CResize _ _ \<Rightarrow> 5 | CDetach \<Rightarrow> 6 | CClose _ \<Rightarrow> 7 | _ \<Rightarrow> 8\<rparr>"

definition traffic_env :: "nat sess_env" where
  "traffic_env = demo_env (SeDetach False)\<lparr>ev_json := traffic_json\<rparr>"

definition traffic_run :: "task_event list \<Rightarrow> nat client_tasks" where
  "traffic_run evs = foldl (task_step traffic_env 7) (tasks_start demo_sess)
     ([CeOpened, CeResize 40 100, CeSelect, CePing ''1''] @ evs)"

lemma traffic_run_reachable: "tasks_reachable traffic_env 7 demo_sess (traffic_run evs)"
  unfolding traffic_run_def by (rule tasks_reachable_run, rule tasks_reachable.start)

lemma traffic_open: "open_streams traffic_env s = (Inr (), s)"
  by (simp add: open_streams_def act_then_def traffic_env_def demo_env_def)

lemma traffic_send: "send_json traffic_env m s = (Inr (), s\<lparr>cs_sent := cs_sent s @ [m]\<rparr>)"
  by (simp add: send_json_def traffic_env_def demo_env_def encode_control_json_def traffic_json_def demo_json_def)

lemmas traffic_run_simps = traffic_run_def tasks_start_def traffic_open put_wire_def demo_not_closed

lemma traffic_wires:
  "map snd (ct_wire (traffic_run [])) = [CResize 40 100, CPing ''1'']"
  "map snd (ct_wire (traffic_run [CeIpcRequest, CeIpcSent True])) = [CResize 40 100, CPing ''1''] @ CDetach # []"
  "map snd (ct_wire (traffic_run [CeOutputEnd BridgeStreamClosed, CeSignal, CeEnd])) =
     [CResize 40 100, CPing ''1''] @ CClose 7 # []"
  by (simp_all add: traffic_run_simps run_main_def stream_closed_end_def try_send_def act_then_def traffic_send
      log_event_def split: prod.split sum.split)

lemma traffic_carried:
  "list_all2 (carries demo_codec (ev_json traffic_env)) [CResize 40 100, CPing ''1''] [[5], [8]]"
  "reads_as demo_codec [6] CDetach" "reads_as demo_codec [7] (CClose 7)"
  "\<forall>p\<in>set [[5], [8]]. client_reads demo_codec (ev_json traffic_env) (pong_to demo_codec p)"
  by (simp_all add: carries_def client_payload_def demo_codec_def traffic_env_def traffic_json_def demo_json_def
      max_control_frame_def client_reads_def pong_to_def message_type_def js_str_def client_max_control_frame_def)

lemma traffic_calm: "\<forall>e\<in>set [demo_conn_env, demo_conn_env]. calm_env e"
  by (simp add: calm_env_def demo_io_ok) (simp add: demo_conn_env_def demo_pty_system_def resize_def)

lemma traffic_attached:
  "disp_state (cn_dispatcher (demo_conn ConnAttached (Some 1))) = ConnAttached"
  "cn_cleanup_reason (demo_conn ConnAttached (Some 1)) = ConnectionEnd"
  by (simp_all add: demo_conn_def)

theorem attached_traffic_quiet_witness:
  "\<exists>rs. conn_loop demo_codec demo_crypto (zip [demo_conn_env, demo_conn_env] (map Inr [[5], [8]]))
      (demo_conn ConnAttached (Some 1)) demo_attached =
      (NextFrame, concat (map (reply_bytes demo_codec) rs), demo_conn ConnAttached (Some 1), demo_attached) \<and>
    length rs = 1"
proof -
  have "CDetach \<notin> set [CResize 40 100, CPing ''1'']" "CClose 7 \<notin> set [CResize 40 100, CPing ''1'']"
    "length [demo_conn_env, demo_conn_env] = length [[5], [8] :: bytes]" by simp_all
  from attached_traffic_quiet [OF traffic_run_reachable traffic_wires(1) [symmetric] this(1,2) traffic_carried(1)
      traffic_attached(1) this(3) traffic_calm traffic_carried(4)]
  show ?thesis by simp blast
qed

lemma traffic_detached_run:
  "conn_loop demo_codec demo_crypto
     (zip [demo_conn_env, demo_conn_env] (map Inr [[5], [8]]) @ (demo_conn_env, Inr [6]) # [])
     (demo_conn ConnAttached (Some 1)) demo_attached =
   (BreakLoop, reply_bytes demo_codec (PongReply ()),
    (demo_conn ConnAttached (Some 1))\<lparr>cn_cleanup_reason := ExplicitDetach\<rparr>, demo_lost)"
proof -
  have d: "detach demo_sessions 1 7 = (Inr (), demo_sessions(1 \<mapsto> released (the (demo_sessions 1))))"
    by (simp add: detach_def demo_sessions_def)
  have s: "srv_pty demo_attached = Some \<lparr>pty_master = 3, pty_writer_handle = 5, pty_reader = None, pty_child = 4\<rparr>"
    by (simp add: demo_attached_def)
  show ?thesis
    by (simp add: conn_round_def on_control_frame_def parse_message_kind_def handle_resize_def handle_ping_def
        handle_detach_def send_then_def write_control_json_def reply_bytes_def conn_cleanup_def s resize_def
        finalize_connection_cleanup_def release_if_current_def conditional_stale_cleanup_def demo_lost_def
        demo_attached_sel demo_conn_def demo_conn_env_def demo_pty_system_def demo_codec_def d
        split: prod.split)
qed

theorem detached_session_resumes_witness:
  "\<exists>qs frames c' st' cs'. srv_session demo_lost = Some (released (the (demo_sessions 1))) \<and>
    run_handshake wire2 ''host'' (wire_payload ''C'') (SmResume 1 ''B'') (wire_sess\<lparr>cs_recv := frames @ []\<rparr>) =
      (Inr (End_To_End.wire_ok ''D''), cs') \<and>
    conn_loop demo_codec demo_crypto (zip [demo_env2, demo_env2, demo_env2] (map Inr qs))
      (conn_new 9) demo_renewed = (NextFrame, frames, c', st') \<and>
    lock_holder 1 (srv_sessions st') = Some 9"
proof -
  note d = demo_attached_run
  have n: "CDetach \<notin> set [CResize 40 100, CPing ''1'']" "CClose 7 \<notin> set [CResize 40 100, CPing ''1'']"
    "length [demo_conn_env, demo_conn_env] = length [[5], [8] :: bytes]" by simp_all
  have p: "srv_pty demo_attached \<noteq> None" by (rule demo_attached_sel)
  from detached_session_resumes [where cid = 9 and rest = "[]", OF traffic_run_reachable traffic_wires(2) n(1,2)
      traffic_carried(1,2) n(3) traffic_calm traffic_carried(4) demo_exact d(4,1,2,3) traffic_attached(1) p d(5)
      traffic_detached_run demo_renewal demo_resume_facts]
  show ?thesis unfolding demo_attached_sel by blast
qed

theorem shell_end_ends_session_witness:
  "\<exists>fl fr c1 st1.
    conn_loop demo_codec demo_crypto
      (zip [demo_conn_env, demo_conn_env] (map Inr [[5], [8]]) @ (demo_conn_env, Inr [7]) # [])
      (demo_conn ConnAttached (Some 1)) demo_attached = (fl, fr, c1, st1) \<and>
    accept_tick 20 21 st1 = (Some StopSessionTerminated, st1) \<and>
    ct_main (traffic_run [CeOutputEnd BridgeStreamClosed, CeSignal, CeEnd]) = MainDone (Inl CliClosed)"
proof -
  note d = demo_attached_run
  obtain fl fr c1 st1 where r: "conn_loop demo_codec demo_crypto
      (zip [demo_conn_env, demo_conn_env] (map Inr [[5], [8]]) @ (demo_conn_env, Inr [7]) # [])
      (demo_conn ConnAttached (Some 1)) demo_attached = (fl, fr, c1, st1)" by (metis prod_cases4)
  have n: "CDetach \<notin> set [CResize 40 100, CPing ''1'']" "CClose 7 \<notin> set [CResize 40 100, CPing ''1'']"
    "length [demo_conn_env, demo_conn_env] = length [[5], [8] :: bytes]" by simp_all
  from shell_end_ends_session [of _ 7, OF traffic_run_reachable traffic_wires(3) n(1,2)
      traffic_carried(1,3) n(3) traffic_calm traffic_carried(4) d(4,1,2,3) traffic_attached r]
  show ?thesis using r by blast
qed

end
