(* ===== verification/Ffi_Process.thy ===== *)
theory Ffi_Process
  imports Ffi_Client
begin

text \<open>
  The C interface as a process sees it (\<open>src/ffi/neosh-client-c/src/lib.rs\<close>): the clients behind the
  pointers, the global error, and the texts that are handed out by reference.
\<close>

section \<open>Clients, texts and calls\<close>

text \<open>
  A text the caller holds: a literal, the error of the client at an address or the global error. An
  error is an allocation of its own that is freed when the next one takes its place, so a reference
  carries the number of errors that were freed at its place before it.
\<close>

datatype c_text = StaticText string | ClientText nat nat | GlobalText nat

record ffi_process =
  fp_clients :: "nat \<rightharpoonup> ffi_client"
  fp_freed :: "nat \<Rightarrow> nat"
  fp_global :: string
  fp_global_freed :: nat

text \<open>\<open>global_last_error\<close> starts with \<open>ok\<close>.\<close>

definition global_last_error :: string where
  "global_last_error = ''ok''"

definition ffi_start :: ffi_process where
  "ffi_start = \<lparr>fp_clients = Map.empty, fp_freed = (\<lambda>_. 0), fp_global = global_last_error, fp_global_freed = 0\<rparr>"

definition set_global_error :: "ffi_process \<Rightarrow> string \<Rightarrow> ffi_process" where
  "set_global_error p msg = p\<lparr>fp_global := msg, fp_global_freed := Suc (fp_global_freed p)\<rparr>"

text \<open>What the caller reads through a reference: \<open>None\<close> when its text was freed.\<close>

fun read_text :: "ffi_process \<Rightarrow> c_text \<Rightarrow> string option" where
  "read_text p (StaticText s) = Some s"
| "read_text p (ClientText a n) =
     (if fp_freed p a = n then map_option fc_last_error (fp_clients p a) else None)"
| "read_text p (GlobalText n) = (if fp_global_freed p = n then Some (fp_global p) else None)"

text \<open>
  A reference to the global error, taken from behind its mutex; nothing panics while it is held, so it is
  not poisoned.
\<close>

definition neosh_client_last_error_global :: "ffi_process \<Rightarrow> c_text" where
  "neosh_client_last_error_global p = GlobalText (fp_global_freed p)"

text \<open>\<open>client_mut\<close> and \<open>client_ref\<close>: no client for null; the outer \<open>None\<close> is a pointer to no live client.\<close>

definition client_at :: "ffi_process \<Rightarrow> nat option \<Rightarrow> ffi_client option option" where
  "client_at p ptr = (case ptr of None \<Rightarrow> Some None | Some a \<Rightarrow> map_option Some (fp_clients p a))"

definition neosh_client_version :: string where
  "neosh_client_version = ''neosh/0.1.0''"

definition neosh_client_protocol_version :: string where
  "neosh_client_protocol_version = ''0.1.0''"

text \<open>The calls that work on a client, with what its streams return and the caller's memory.\<close>

datatype ffi_op =
    OpSendControl "string + unit" "bytes option"
  | OpRecvControl "nat option" string recv_out
  | OpOpenData "string + unit" "string + unit"
  | OpSendStdin "string + unit" "bytes option" nat "nat option"
  | OpFinishStdin "string + unit"
  | OpRecvStdout "nat \<Rightarrow> stdout_read" recv_out "nat option"

datatype ffi_out = OutNone | OutLen "nat option" | OutBuf recv_out | OutRead recv_out "nat option"

fun op_run :: "ffi_op \<Rightarrow> ffi_client option \<Rightarrow> int \<times> ffi_out \<times> ffi_client option" where
  "op_run (OpSendControl written json) c =
     (case neosh_client_send_control_json written c json of (k, c') \<Rightarrow> (k, OutNone, c'))"
| "op_run (OpRecvControl late e out) c =
     (case neosh_client_recv_control_json late e c out of (k, out', c') \<Rightarrow> (k, OutBuf out', c'))"
| "op_run (OpOpenData opened accepted) c =
     (case neosh_client_open_data_streams opened accepted c of (k, c') \<Rightarrow> (k, OutNone, c'))"
| "op_run (OpSendStdin written data len written_len) c =
     (case neosh_client_send_stdin written c data len written_len of (k, w, c') \<Rightarrow> (k, OutLen w, c'))"
| "op_run (OpFinishStdin finished) c =
     (case neosh_client_finish_stdin finished c of (k, c') \<Rightarrow> (k, OutNone, c'))"
| "op_run (OpRecvStdout rd out eof) c =
     (case neosh_client_recv_stdout rd c out eof of (k, out', eof', c') \<Rightarrow> (k, OutRead out' eof', c'))"

text \<open>
  Whether a call with a code stored a new error in its client: every failure does, except that a time
  limit that passed is reported by its code alone.
\<close>

fun stores_error :: "ffi_client \<Rightarrow> ffi_op \<Rightarrow> int \<Rightarrow> bool" where
  "stores_error c (OpRecvControl late e out) k = (k \<noteq> ffi_ok \<and> k \<noteq> err_not_ready)"
| "stores_error c (OpRecvStdout rd out eof) k = (k \<noteq> ffi_ok \<and> \<not> (k = err_not_ready \<and> fc_stdout_open c))"
| "stores_error c op k = (k \<noteq> ffi_ok)"

lemmas ffi_code_defs = ffi_ok_def err_invalid_arg_def err_buffer_too_small_def err_not_ready_def err_internal_def

lemmas ffi_op_defs =
  neosh_client_send_control_json_def neosh_client_recv_control_json_def neosh_client_open_data_streams_def
  neosh_client_send_stdin_def neosh_client_finish_stdin_def neosh_client_recv_stdout_def set_client_error_def

text \<open>The definition agrees with what the calls do: the old error stays, or does not matter any more.\<close>

lemma op_keeps_client: "op_run op (Some c) = (k, out, c') \<Longrightarrow> c' \<noteq> None"
  by (cases op) (auto simp: ffi_op_defs Let_def split: option.splits sum.splits if_splits prod.splits stdout_read.splits)

lemma op_null: "op_run op None = (k, out, c') \<Longrightarrow> k = err_invalid_arg \<and> c' = None"
  by (cases op) (auto simp: ffi_op_defs)

lemma op_error_kept:
  "op_run op (Some c) = (k, out, Some c') \<Longrightarrow> \<not> stores_error c op k \<Longrightarrow> fc_last_error c' = fc_last_error c"
  by (cases op) (auto simp: ffi_op_defs ffi_code_defs Let_def
      split: option.splits sum.splits if_splits prod.splits stdout_read.splits)

lemma op_error_stored:
  "op_run op (Some c) = (k, out, Some c') \<Longrightarrow> stores_error c op k \<Longrightarrow>
   op_run op (Some (c\<lparr>fc_last_error := x\<rparr>)) = (k, out, Some c')"
  by (cases op) (auto simp: ffi_op_defs ffi_code_defs Let_def
      split: option.splits sum.splits if_splits prod.splits stdout_read.splits)

section \<open>The process\<close>

text \<open>
  A connect carries the result of opening its stream, its arguments and the address the allocator
  would return for the client.
\<close>

datatype ffi_call =
    FcVersion
  | FcProtocolVersion
  | FcConnect "string + bytes" "bytes option" "bytes option" nat
  | FcFree "nat option"
  | FcLastError "nat option"
  | FcLastErrorGlobal
  | FcOp "nat option" ffi_op

datatype ffi_result =
    FrPointer "nat option"
  | FrText c_text
  | FrCode int ffi_out
  | FrUnit

text \<open>
  One call. \<open>None\<close>: the caller passed a pointer to no live client, which the code leaves to the caller
  (\<open>SAFETY: caller guarantees\<close>), or the allocator returned an address in use, which it does not.
\<close>

fun ffi_step ::
  "crypto \<Rightarrow> ('addr, 'con) quic_api \<Rightarrow> (bytes \<Rightarrow> string option) \<Rightarrow> ffi_process \<Rightarrow> ffi_call
   \<Rightarrow> (ffi_result \<times> ffi_process) option" where
  "ffi_step C q utf8 p FcVersion = Some (FrText (StaticText neosh_client_version), p)"
| "ffi_step C q utf8 p FcProtocolVersion = Some (FrText (StaticText neosh_client_protocol_version), p)"
| "ffi_step C q utf8 p (FcConnect opened addr fp a) =
     (case neosh_client_connect C q utf8 opened addr fp (fp_global p) of
        (FfiNull, msg) \<Rightarrow> Some (FrPointer None, set_global_error p msg)
      | (FfiClient c, _) \<Rightarrow>
          if fp_clients p a = None
          then Some (FrPointer (Some a), p\<lparr>fp_clients := (fp_clients p)(a \<mapsto> c)\<rparr>) else None)"
| "ffi_step C q utf8 p (FcFree ptr) =
     (case client_at p ptr of
        None \<Rightarrow> None
      | Some c \<Rightarrow>
          Some (FrUnit,
            (case ptr of
               None \<Rightarrow> p
             | Some a \<Rightarrow> p\<lparr>fp_clients := (fp_clients p)(a := None),
                 fp_freed := (fp_freed p)(a := Suc (fp_freed p a))\<rparr>)))"
| "ffi_step C q utf8 p (FcLastError ptr) =
     (case client_at p ptr of
        None \<Rightarrow> None
      | Some c \<Rightarrow>
          Some (FrText
            (case ptr of
               None \<Rightarrow> StaticText (neosh_client_last_error None)
             | Some a \<Rightarrow> ClientText a (fp_freed p a)), p))"
| "ffi_step C q utf8 p FcLastErrorGlobal = Some (FrText (neosh_client_last_error_global p), p)"
| "ffi_step C q utf8 p (FcOp ptr op) =
     (case client_at p ptr of
        None \<Rightarrow> None
      | Some c \<Rightarrow>
          (case op_run op c of
             (k, out, c') \<Rightarrow>
               Some (FrCode k out,
                 (case (ptr, c) of
                    (Some a, Some old) \<Rightarrow>
                      p\<lparr>fp_clients := (fp_clients p)(a := c'),
                        fp_freed := if stores_error old op k then (fp_freed p)(a := Suc (fp_freed p a))
                          else fp_freed p\<rparr>
                  | _ \<Rightarrow> p))))"

fun ffi_run ::
  "crypto \<Rightarrow> ('addr, 'con) quic_api \<Rightarrow> (bytes \<Rightarrow> string option) \<Rightarrow> ffi_process \<Rightarrow> ffi_call list
   \<Rightarrow> ffi_process option" where
  "ffi_run C q utf8 p [] = Some p"
| "ffi_run C q utf8 p (call # calls) =
     (case ffi_step C q utf8 p call of
        None \<Rightarrow> None
      | Some (_, p') \<Rightarrow> ffi_run C q utf8 p' calls)"

text \<open>Whether a call frees the text behind a reference.\<close>

fun frees_text ::
  "crypto \<Rightarrow> ('addr, 'con) quic_api \<Rightarrow> (bytes \<Rightarrow> string option) \<Rightarrow> ffi_process \<Rightarrow> c_text \<Rightarrow> ffi_call \<Rightarrow> bool" where
  "frees_text C q utf8 p (ClientText a n) (FcFree ptr) = (ptr = Some a)"
| "frees_text C q utf8 p (ClientText a n) (FcOp ptr op) =
     (ptr = Some a \<and>
      (case fp_clients p a of None \<Rightarrow> False | Some c \<Rightarrow> stores_error c op (fst (op_run op (Some c)))))"
| "frees_text C q utf8 p (GlobalText n) (FcConnect opened addr fp a) =
     (fst (neosh_client_connect C q utf8 opened addr fp (fp_global p)) = FfiNull)"
| "frees_text C q utf8 p t call = False"

fun freed_in_run ::
  "crypto \<Rightarrow> ('addr, 'con) quic_api \<Rightarrow> (bytes \<Rightarrow> string option) \<Rightarrow> c_text \<Rightarrow> ffi_process \<Rightarrow> ffi_call list \<Rightarrow> bool" where
  "freed_in_run C q utf8 t p [] = False"
| "freed_in_run C q utf8 t p (call # calls) =
     (frees_text C q utf8 p t call \<or>
      (case ffi_step C q utf8 p call of
         None \<Rightarrow> False
       | Some (_, p') \<Rightarrow> freed_in_run C q utf8 t p' calls))"

section \<open>How long a text lives\<close>

text \<open>The number of errors that were freed at the place of a text.\<close>

fun freed_at :: "ffi_process \<Rightarrow> c_text \<Rightarrow> nat" where
  "freed_at p (StaticText s) = 0"
| "freed_at p (ClientText a n) = fp_freed p a"
| "freed_at p (GlobalText n) = fp_global_freed p"

fun text_number :: "c_text \<Rightarrow> nat" where
  "text_number (StaticText s) = 0"
| "text_number (ClientText a n) = n"
| "text_number (GlobalText n) = n"

lemma freed_at_step:
  "ffi_step C q utf8 p call = Some (r, p') \<Longrightarrow>
   freed_at p' t = (if frees_text C q utf8 p t call then Suc (freed_at p t) else freed_at p t)"
  by (cases t; cases call)
    (auto simp: client_at_def set_global_error_def
      split: option.splits prod.splits ffi_connected.splits if_splits)

lemma freed_at_run: "ffi_run C q utf8 p calls = Some p' \<Longrightarrow> freed_at p t \<le> freed_at p' t"
proof (induction calls arbitrary: p)
  case (Cons call calls)
  then obtain r p1 where s: "ffi_step C q utf8 p call = Some (r, p1)" "ffi_run C q utf8 p1 calls = Some p'"
    by (auto split: option.splits)
  from Cons.IH [OF s(2)] freed_at_step [OF s(1), of t] show ?case by (simp split: if_splits)
qed simp

lemma gone_text: "text_number t < freed_at p t \<Longrightarrow> read_text p t = None"
  by (cases t) auto

text \<open>A call on a client replaces the client behind the pointer, or changes nothing when it is null.\<close>

lemma op_step:
  assumes "ffi_step C q utf8 p (FcOp ptr op) = Some (r, p')"
  obtains (null) "ptr = None" and "p' = p"
  | (client) a c k out c' where "ptr = Some a" and "fp_clients p a = Some c"
      and "op_run op (Some c) = (k, out, Some c')"
      and "p' = p\<lparr>fp_clients := (fp_clients p)(a \<mapsto> c'),
        fp_freed := if stores_error c op k then (fp_freed p)(a := Suc (fp_freed p a)) else fp_freed p\<rparr>"
proof (cases ptr)
  case None
  then show ?thesis using assms by (intro null) (auto simp: client_at_def split: prod.splits)
next
  case (Some a)
  then obtain c where c: "fp_clients p a = Some c" using assms by (auto simp: client_at_def split: option.splits)
  obtain k out c' where o: "op_run op (Some c) = (k, out, c')" by (metis prod_cases3)
  moreover obtain c1 where "c' = Some c1" using op_keeps_client [OF o] by blast
  ultimately show ?thesis using Some assms c by (intro client [of a c k out c1]) (auto simp: client_at_def)
qed

text \<open>A call that does not free a text leaves it readable and the same.\<close>

lemma read_text_step:
  assumes "ffi_step C q utf8 p call = Some (r, p')" and "\<not> frees_text C q utf8 p t call"
    and "read_text p t \<noteq> None"
  shows "read_text p' t = read_text p t"
proof (cases t)
  case (ClientText a n)
  show ?thesis
  proof (cases call)
    case (FcOp ptr op)
    from assms(1) [unfolded FcOp] show ?thesis
    proof (cases rule: op_step)
      case (client a' c k out c')
      then show ?thesis using assms(2) ClientText FcOp op_error_kept [OF client(3)] by (cases "a' = a") auto
    qed simp
  next
    case (FcFree ptr)
    then show ?thesis using assms ClientText
      by (cases ptr) (auto simp: client_at_def split: option.splits if_splits)
  next
    case (FcConnect opened addr fp b)
    then show ?thesis using assms ClientText
      by (auto simp: set_global_error_def split: prod.splits ffi_connected.splits if_splits)
  qed (use assms in \<open>auto split: option.splits\<close>)
next
  case (GlobalText n)
  then show ?thesis using assms
    by (cases call) (auto simp: client_at_def set_global_error_def
      split: option.splits prod.splits ffi_connected.splits if_splits)
qed simp

lemma read_text_run:
  assumes "ffi_run C q utf8 p calls = Some p'" and "read_text p t = Some s" and "freed_at p t = text_number t"
  shows "read_text p' t = (if freed_in_run C q utf8 t p calls then None else Some s)"
  using assms
proof (induction calls arbitrary: p)
  case (Cons call calls)
  obtain r p1 where st: "ffi_step C q utf8 p call = Some (r, p1)" "ffi_run C q utf8 p1 calls = Some p'"
    using Cons.prems(1) by (auto split: option.splits)
  show ?case
  proof (cases "frees_text C q utf8 p t call")
    case True
    then have "text_number t < freed_at p' t"
      using freed_at_step [OF st(1), of t] freed_at_run [OF st(2), of t] Cons.prems(3) by simp
    then show ?thesis using True by (simp add: gone_text)
  next
    case False
    then have "read_text p1 t = Some s" "freed_at p1 t = text_number t"
      using read_text_step [OF st(1) False] freed_at_step [OF st(1), of t] Cons.prems(2,3) by simp_all
    from Cons.IH [OF st(2) this] False st(1) show ?thesis by simp
  qed
qed simp

section \<open>C strings\<close>

text \<open>Every error is a C string: no NUL inside, so the caller reads all of it.\<close>

definition c_string :: "string \<Rightarrow> bool" where
  "c_string s \<longleftrightarrow> CHR 0x00 \<notin> set s"

definition texts_ok :: "ffi_process \<Rightarrow> bool" where
  "texts_ok p \<longleftrightarrow> c_string (fp_global p) \<and> (\<forall>a c. fp_clients p a = Some c \<longrightarrow> c_string (fc_last_error c))"

lemma c_string_lossy [simp]: "c_string (cstring_lossy s)"
  by (auto simp: c_string_def cstring_lossy_def)

lemma op_error_c_string:
  "op_run op (Some c) = (k, out, Some c') \<Longrightarrow> c_string (fc_last_error c) \<Longrightarrow> c_string (fc_last_error c')"
  by (cases op) (auto simp: ffi_op_defs Let_def
      split: option.splits sum.splits if_splits prod.splits stdout_read.splits)

lemma connect_texts:
  "neosh_client_connect C q utf8 opened addr fp g = (FfiClient c, g') \<Longrightarrow> c_string (fc_last_error c)"
  "neosh_client_connect C q utf8 opened addr fp g = (FfiNull, g') \<Longrightarrow> c_string g'"
  by (auto simp: neosh_client_connect_def ffi_client_new_def c_string_def cstring_lossy_def
      split: sum.splits)

lemma texts_ok_step:
  assumes "ffi_step C q utf8 p call = Some (r, p')" and "texts_ok p"
  shows "texts_ok p'"
proof (cases call)
  case (FcOp ptr op)
  from assms(1) [unfolded FcOp] show ?thesis
  proof (cases rule: op_step)
    case (client a c k out c')
    then show ?thesis using assms(2) op_error_c_string [OF client(3)] by (auto simp: texts_ok_def)
  qed (use assms(2) in simp)
next
  case (FcConnect opened addr fp a)
  then show ?thesis using assms
    by (auto simp: texts_ok_def set_global_error_def dest: connect_texts
        split: prod.splits ffi_connected.splits if_splits)
next
  case (FcFree ptr)
  then show ?thesis using assms
    by (cases ptr) (auto simp: texts_ok_def client_at_def split: option.splits if_splits)
qed (use assms in \<open>auto split: option.splits\<close>)

lemma texts_ok_run: "ffi_run C q utf8 p calls = Some p' \<Longrightarrow> texts_ok p \<Longrightarrow> texts_ok p'"
  by (induction calls arbitrary: p) (auto split: option.splits dest: texts_ok_step)

lemma texts_ok_start [simp]: "texts_ok ffi_start"
  by (simp add: texts_ok_def ffi_start_def c_string_def global_last_error_def)

section \<open>The texts a caller holds\<close>

lemma text_handed_out:
  assumes "ffi_step C q utf8 p call = Some (FrText t, p1)" and "texts_ok p"
  shows "p1 = p \<and> freed_at p t = text_number t \<and> (\<exists>s. read_text p t = Some s \<and> c_string s)"
proof (cases call)
  case (FcLastError ptr)
  then show ?thesis using assms
    by (cases ptr) (auto simp: client_at_def neosh_client_last_error_def c_string_def texts_ok_def split: option.splits)
next
  case (FcOp ptr op)
  then show ?thesis using assms(1) by (auto split: option.splits prod.splits)
next
  case (FcConnect opened addr fp a)
  then show ?thesis using assms(1) by (auto split: prod.splits ffi_connected.splits if_splits)
next
  case (FcFree ptr)
  then show ?thesis using assms(1) by (auto split: option.splits)
next
  case FcLastErrorGlobal
  then show ?thesis using assms by (auto simp: texts_ok_def neosh_client_last_error_global_def)
qed (use assms(1) in \<open>auto simp: c_string_def neosh_client_version_def neosh_client_protocol_version_def\<close>)

text \<open>The calls on one client, its release included, leave the others, their texts and the global error.\<close>

lemma calls_apart:
  assumes "ffi_step C q utf8 p call = Some (r, p')" and "call \<in> {FcFree (Some a), FcOp (Some a) op}"
  shows "(\<forall>b. b \<noteq> a \<longrightarrow> fp_clients p' b = fp_clients p b \<and> read_text p' (ClientText b n) = read_text p (ClientText b n)) \<and>
    read_text p' (GlobalText n) = read_text p (GlobalText n)"
proof (cases "call = FcFree (Some a)")
  case True
  then have "p' = p\<lparr>fp_clients := (fp_clients p)(a := None), fp_freed := (fp_freed p)(a := Suc (fp_freed p a))\<rparr>"
    using assms(1) by (cases "fp_clients p a") (simp_all add: client_at_def)
  then show ?thesis by simp
next
  case False
  then have "ffi_step C q utf8 p (FcOp (Some a) op) = Some (r, p')" using assms by simp
  then show ?thesis by (cases rule: op_step) auto
qed

text \<open>
  C40: How long the texts of the C interface can be read. A text that a call hands out, in any process that
  was reached from the start without a pointer to a freed client, is a C string and can be read and stays
  the same exactly until a call frees it: for the error of a client the next call that stores an error
  in that client or frees it; for the global error the next connect that fails, although its header calls
  that pointer static; the versions for ever. After that the reference is dangling, also when a new client
  gets the same address or a new error the same words.
\<close>

theorem ffi_texts_readable:
  assumes "ffi_run C q utf8 ffi_start before = Some p"
    and "ffi_step C q utf8 p call = Some (FrText t, p1)"
    and "ffi_run C q utf8 p1 after = Some p2"
  shows "\<exists>s. read_text p1 t = Some s \<and> c_string s \<and>
    read_text p2 t = (if freed_in_run C q utf8 t p1 after then None else Some s)"
proof -
  have "texts_ok p" by (rule texts_ok_run [OF assms(1) texts_ok_start])
  from text_handed_out [OF assms(2) this] obtain s where s: "p1 = p" "freed_at p t = text_number t"
    "read_text p t = Some s" "c_string s" by blast
  from read_text_run [OF assms(3)] s show ?thesis by auto
qed

text \<open>A second connect that fails frees the text of the first failure, although the words are the same.\<close>

theorem ffi_texts_readable_witness:
  "\<exists>p p2. ffi_run demo_crypto demo_quic (\<lambda>_. None) ffi_start [FcConnect (Inl []) None None 1] = Some p \<and>
    ffi_run demo_crypto demo_quic (\<lambda>_. None) p [FcConnect (Inl []) None None 1] = Some p2 \<and>
    read_text p (GlobalText 1) = Some ''quic_addr is null'' \<and> read_text p2 (GlobalText 1) = None"
proof -
  let ?conn = "[FcConnect (Inl []) None None 1]"
  have c: "neosh_client_connect demo_crypto demo_quic (\<lambda>_. None) (Inl []) None None g =
      (FfiNull, ''quic_addr is null'')" for g
    by (simp add: neosh_client_connect_def cstr_to_string_def cstring_lossy_def)
  let ?p = "set_global_error ffi_start ''quic_addr is null''"
  have r: "ffi_run demo_crypto demo_quic (\<lambda>_. None) ffi_start ?conn = Some ?p"
    "ffi_step demo_crypto demo_quic (\<lambda>_. None) ?p FcLastErrorGlobal = Some (FrText (GlobalText 1), ?p)"
    "ffi_run demo_crypto demo_quic (\<lambda>_. None) ?p ?conn = Some (set_global_error ?p ''quic_addr is null'')"
    "freed_in_run demo_crypto demo_quic (\<lambda>_. None) (GlobalText 1) ?p ?conn"
    by (simp_all add: c set_global_error_def ffi_start_def neosh_client_last_error_global_def)
  from ffi_texts_readable [OF r(1-3)] r show ?thesis
    by (intro exI [of _ ?p] exI [of _ "set_global_error ?p ''quic_addr is null''"])
      (simp add: set_global_error_def ffi_start_def)
qed

end
