(* ===== verification/Spec2Isabelle.thy ===== *)
theory Spec2Isabelle
  imports
    Neosh_Prelude
    Rust_Text
    Framing
    Messages
    Dispatcher
    Sessions
    Tokens
    Runtime
    Shell_Quote
    Pty
    Server_State
    Data_Plane
    Connection
    Connection_Correct
    Server_Loop
    Server_System
    Client_Bootstrap
    Client_State
    Stdin_Filter
    Server_Config
    Client_Cache
    Client_Control
    Client_Session
    Client_Ipc
    Client_Commands
    Client_Main
    Ffi_Client
    End_To_End
    Server_Faults
    Server_Types
    Server_Replay
    Server_Process
    Client_Tls
    Client_Tasks
    Terminal_Path
    Attached_Traffic
    Ffi_Process
begin

text \<open>
  neosh is a remote shell over QUIC. A client (\<open>src/src/bin/neosh.rs\<close>) starts a server
  (\<open>src/src/bin/neoshd.rs\<close>) over ssh; the server prints bootstrap data with a one-time token and
  its address and certificate fingerprint. The client connects with QUIC, authenticates, attaches
  to the server's session and is given a terminal. It may detach, or lose its connection, and
  resume later with a resume token. A library crate holds what both use, and
  \<open>src/ffi/neosh-client-c/src/lib.rs\<close> offers the client's operations to C programs.

  This development translates that code by hand into executable definitions and proves what makes
  it correct. The map in PROJECT.json names the lines behind each definition.

  \<^bold>\<open>Conventions.\<close> Integers are words of their Rust width; a \<open>usize\<close> length is \<open>nat\<close>. Text is a
  list of 8-bit characters in UTF-8. A \<open>Result\<close> is a sum with the error on the left, a panic is
  \<open>None\<close> or the flow \<open>Panicked\<close>, and an operation on \<open>&mut self\<close> returns its result with the new
  state. What the program asks of the outside (clock, random bytes, sockets, files, the terminal, ssh)
  is an argument, mostly a record with one field for each call; what third-party code computes
  (SHA-256, base64, constant-time comparison, JSON, PEM, QUIC) is a function in such a record
  (\<open>crypto\<close>, \<open>codec\<close>, \<open>json_api\<close>, \<open>quic_api\<close>, \<open>pty_system\<close>). A theorem that needs more of one
  of them than its type says so in a hypothesis, such as \<open>ct_eq_exact\<close>, and its witness has a
  concrete instance.

  \<^bold>\<open>Shared theories.\<close> Neosh_Prelude has the integers and byte strings, \<open>SystemTime\<close> and
  \<open>Duration\<close>, the run of a list of operations, and the locales \<open>guarded_machine\<close> (an operation that
  keeps an invariant; the registry, the server as a whole) and \<open>ranked_machine\<close> (steps that also never go
  back; the dispatcher, the client's states). Rust_Text has the functions on \<open>str\<close> that the program uses.

  \<^bold>\<open>The library crate.\<close>
  \<^item> Framing (\<open>protocol/framing.rs\<close>): the frame codec, and the locale \<open>frame_reader\<close> of a function
    that takes one frame off a stream. It is interpreted for the three readers of the program: those of
    the server (Connection), the client (Client_Control) and the C interface (Ffi_Client), so that
    each reads exactly the frames up to its limit, in order.
  \<^item> Messages and Dispatcher (\<open>protocol/\<close>): the kinds of control messages, and the order a
    connection accepts them in, equal to a legal handshake.
  \<^item> Sessions (\<open>session/manager.rs\<close>): the registry, which interprets the locale
    \<open>fenced_lock\<close> of an exclusive lock with epochs and refines an abstract lease: one attachment at
    a time, epochs that only grow, stale cleanups without effect.
  \<^item> Tokens (\<open>token/service.rs\<close>): issuing, consuming, revoking and sweeping tokens; what holds
    over every history of these operations, by the locales \<open>excludable\<close> (an acceptance that can be
    ruled out for good) and \<open>single_use\<close>. Runtime (\<open>runtime.rs\<close>) combines it with the registry.
  \<^item> Pty (\<open>terminal/pty.rs\<close>) and Shell_Quote: the terminal and how a shell reads the quoted text.
  \<^item> Fingerprint, Client_Bootstrap (\<open>client/bootstrap.rs\<close>, \<open>client/quic_client.rs\<close> and the remote
    command line of \<open>neosh.rs\<close>), Client_State, Client_Cache and Client_Control (\<open>client/\<close>): the
    client's half of the library: validation of bootstrap data, the pinned connection, the
    description of its states, the files of the cache, and the control messages.

  \<^bold>\<open>The server.\<close>
  \<^item> Server_State: the record \<open>ServerState\<close>, its invariant \<open>server_wf\<close>, tokens, the replay
    buffer (an instance of the locale \<open>bounded_log\<close>), timeouts and the end of a connection.
  \<^item> Data_Plane: \<open>ensure_pty_runtime\<close>, \<open>start_data_plane\<close>, the reader thread and the tasks that copy
    output and input.
  \<^item> Connection: \<open>handle_connection\<close>, one definition for each message kind, its loop and cleanup;
    Connection_Correct has what holds of it.
  \<^item> Server_Loop: the accept loop, the control socket and \<open>renew-auth\<close> at its other end.
  \<^item> Server_Config: \<open>run_new\<close> from the check of its arguments over TLS, addresses and ports to the
    end of the process.
  \<^item> Server_System: all tasks of the server as one step function on a shared state, its steps being
    the blocks the code runs under the lock of the state. \<open>reachable\<close> covers every interleaving of
    any number of connections with the accept loop, the sweeper, the control socket and the reader
    thread; its invariant is \<open>sys_ok\<close>.
  \<^item> Server_Types: the shape of every record of the state after any events, from the start on.
  \<^item> Server_Faults: what an error that leaves \<open>handle_connection\<close> without its cleanup does to the session.
  \<^item> Server_Replay: what the replay buffer holds after any events, and what it lacks.
  \<^item> Server_Process: \<open>run_new\<close> as the trace of its actions (printing, logging, spawning, aborting,
    removing the socket), every interleaving of that trace with the polls of the task of the control
    socket and of the sweeper, where an abort only asks a task to stop at its next wait, and the lines of
    the log.

  \<^bold>\<open>The client.\<close>
  \<^item> Client_Session: \<open>run_session\<close> as a computation that threads what it leaves behind (messages
    sent, cache, socket, log), ended by the first event of its \<open>select\<close>.
  \<^item> Client_Ipc: the control socket of an attached client and \<open>neosh detach\<close>.
  \<^item> Stdin_Filter: the detach hotkey and the task that sends the input.
  \<^item> Client_Tasks: the same end of a session as a step function over all tasks of an attached client,
    interleaved at their waits, with the flag, the notification and the channel of signals they share;
    every run of it ends as \<open>end_session\<close> says for the event that came first, which is read off the
    run by \<open>first_event\<close>. A message counts as sent when
    it has been written to the control stream.
  \<^item> Client_Tls: the certificate verifier of the client and what the pinned fingerprint shows.
  \<^item> Client_Commands: \<open>connect\<close>, \<open>resume\<close> and \<open>resume_with_backoff\<close> over any number of attempts.
  \<^item> Client_Main: raw mode, the resize and keepalive tasks, the remaining commands and \<open>main\<close>.
  \<^item> Ffi_Client: the exported functions of the C interface on one client; Ffi_Process: sequences of
    calls on a process with many clients, and how long the texts can be read that it hands out.

  \<^bold>\<open>Together.\<close> End_To_End runs the client's handshake on the frames that the server's loop writes
  for the client's messages: both succeed, the session is held, and the resume token in the
  client's hands is one the server accepts. Attached_Traffic goes on from there: what the interleaved
  tasks of Client_Tasks have put on the control stream is read by the rounds of \<open>conn_loop\<close>, and the
  answers by the client's watch. Window sizes and keep-alives change nothing, a detached session can be
  resumed, and the end of the shell ends the session on both sides. Terminal_Path composes the terminal's two directions, from
  the shell's output to the screen and from the keys to the shell; the broadcast channel and the streams
  are \<open>broadcast_gives\<close> and \<open>stream_gives\<close>, the behaviour that tokio and quinn document.

  \<^bold>\<open>Bounds and fuel.\<close> Loops over what the outside delivers (\<open>conn_loop\<close>, \<open>run_quic_accept_loop\<close>,
  \<open>out_task\<close>, \<open>detach_task\<close>, \<open>run_ipc_server\<close>, the tasks of the client) recurse over the list of
  its answers; a list that ends stands for a loop that waits. \<open>control_watch_loop\<close> ends because each round
  takes a frame off the stream. \<open>read_frames\<close> has its number of rounds as an argument, and as many
  rounds as the stream has bytes are enough. \<open>strip_seqs\<close> takes the length of its text as fuel,
  which suffices because it strips at least one character in each round. The attempts of \<open>resume\<close> and
  \<open>connect\<close> are functions of their number; that at most three are made, or how many are, is proved.

  \<^bold>\<open>Not modelled.\<close> The parsing of the command line by clap, reading environment
  variables, and the writes of the log to standard error (its events are modelled in Client_Session and
  its lines in Server_Process, the text of a time being chrono's). Of rustls, how it uses a verifier is
  \<open>tls13_accepts\<close>, a statement of its documentation that appears in a hypothesis only. Of
  tokio: preemption inside a block that holds the lock is impossible and has no step; that an aborted
  task of the client may still run to its next wait (Server_Process has that for the server), and an
  unfair scheduler, are not described. Between an attachment's locked block and its reply the other
  tasks may run, which Server_System has as steps of their own; \<open>conn_loop\<close> alone is the
  case of a connection no other task interferes with. A call of the C interface with a pointer to no
  live client breaks its contract and has no result (\<open>ffi_step\<close> is \<open>None\<close>);
  calls of several threads are taken one after the other. Not translated either are the lines that hold
  no behaviour of their own: imports, the attributes of derived traits, the installation of the default
  cryptography of rustls, and the second names of library functions.
\<close>

end
